theory Spec2Isabelle
  imports Complex_Main
begin

section \<open>JavaScript values used by \<open>js/main.js\<close>\<close>

text \<open>
  \<open>Timeline.currentSection\<close> is a JavaScript number. It starts as \<open>1\<close> and is only ever
  assigned the result of \<open>parseInt(sectionNum, 10)\<close>, which is an integer or \<open>NaN\<close>.
  Integers are modelled exactly (the rounding of a double beyond \<open>2^53\<close> is left out).
\<close>

datatype jsnum = Num int | NaN

text \<open>The comparisons of the source; every comparison with \<open>NaN\<close> is false.\<close>

fun js_gt :: "jsnum \<Rightarrow> int \<Rightarrow> bool" where
  "js_gt (Num n) k = (n > k)"
| "js_gt NaN k = False"

fun js_lt :: "jsnum \<Rightarrow> int \<Rightarrow> bool" where
  "js_lt (Num n) k = (n < k)"
| "js_lt NaN k = False"

fun js_le :: "jsnum \<Rightarrow> int \<Rightarrow> bool" where
  "js_le (Num n) k = (n \<le> k)"
| "js_le NaN k = False"

fun js_ge :: "jsnum \<Rightarrow> int \<Rightarrow> bool" where
  "js_ge (Num n) k = (n \<ge> k)"
| "js_ge NaN k = False"

fun js_plus :: "jsnum \<Rightarrow> int \<Rightarrow> jsnum" where
  "js_plus (Num n) k = Num (n + k)"
| "js_plus NaN k = NaN"

text \<open>\<open>ToString\<close> of a number: decimal digits, a leading minus sign, or \<open>NaN\<close>.\<close>

definition digit_char :: "nat \<Rightarrow> char" where
  "digit_char d = ''0123456789'' ! d"

fun decimal :: "nat \<Rightarrow> string" where
  "decimal n = (if n < 10 then [digit_char n] else decimal (n div 10) @ [digit_char (n mod 10)])"

declare decimal.simps [simp del]

fun js_toString :: "jsnum \<Rightarrow> string" where
  "js_toString (Num n) = (if n < 0 then CHR ''-'' # decimal (nat (- n)) else decimal (nat n))"
| "js_toString NaN = ''NaN''"

declare js_toString.simps [simp del]

text \<open>
  \<open>parseInt(str, 10)\<close>: leading white space is skipped, one sign is read, then the
  longest run of decimal digits; no digit at all gives \<open>NaN\<close>. The white space is the
  ASCII part of the language's \<open>WhiteSpace\<close> and \<open>LineTerminator\<close> (tab, LF, VT, FF,
  CR, space).
\<close>

definition is_js_space :: "char \<Rightarrow> bool" where
  "is_js_space c = (of_char c \<in> {9, 10, 11, 12, 13, 32 :: nat})"

definition is_digit :: "char \<Rightarrow> bool" where
  "is_digit c = (48 \<le> (of_char c :: nat) \<and> (of_char c :: nat) \<le> 57)"

definition digits_value :: "string \<Rightarrow> nat" where
  "digits_value ds = foldl (\<lambda>a c. 10 * a + (of_char c - 48)) 0 ds"

definition js_parseInt10 :: "string \<Rightarrow> jsnum" where
  "js_parseInt10 str =
     (let s1 = dropWhile is_js_space str;
          neg = (case s1 of c # _ \<Rightarrow> c = CHR ''-'' | [] \<Rightarrow> False);
          s2 = (case s1 of c # r \<Rightarrow> (if c = CHR ''-'' \<or> c = CHR ''+'' then r else s1) | [] \<Rightarrow> s1);
          ds = takeWhile is_digit s2
      in if ds = [] then NaN
         else Num (if neg then - int (digits_value ds) else int (digits_value ds)))"

section \<open>The document\<close>

text \<open>
  The elements the script looks up, by the identifier or selector it uses. A lookup
  (\<open>getElementById\<close>, \<open>querySelector\<close>) of an element the page does not have returns
  \<open>null\<close>: the store maps its node to \<open>None\<close>. The page's structure does not change
  while the script runs, so a reference a module keeps (\<open>Navigation.sidebarNav\<close>,
  \<open>Timeline.container\<close>, which is assigned in \<open>setupInteractions\<close> before any listener is
  registered) is the element of that node, or \<open>null\<close> when the node is absent.
\<close>

datatype node =
    MenuToggle | SidebarNav | SidebarOverlay
  | TimelineContainer | TimelineZoomOut | TimelineNavPrev | TimelineNavNext | TimelineSvg
  | AchievementModalEl | PartnerModalEl

text \<open>
  An element: its \<open>classList\<close> (a \<open>DOMTokenList\<close>, an ordered set of tokens) and its
  \<open>disabled\<close> property.
\<close>

record element =
  classList :: "string list"
  disabled :: bool

datatype error = TypeError | InvalidCharacterError | SyntaxError

datatype outcome = Done | Threw error

record page =
  innerWidth :: int
  bodyOverflow :: string
  elems :: "node \<Rightarrow> element option"
  currentSection :: jsnum

text \<open>
  A statement of the script takes the page and returns how it ended together with the
  page it leaves: what an exception interrupts stays done.
\<close>

type_synonym stmt = "page \<Rightarrow> outcome \<times> page"

definition andThen :: "stmt \<Rightarrow> stmt \<Rightarrow> stmt" where
  "andThen f g s = (case f s of (Done, s') \<Rightarrow> g s' | (Threw e, s') \<Rightarrow> (Threw e, s'))"

subsection \<open>\<open>DOMTokenList\<close>\<close>

definition token_add :: "string \<Rightarrow> string list \<Rightarrow> string list" where
  "token_add t ts = (if t \<in> set ts then ts else ts @ [t])"

definition is_ascii_space :: "char \<Rightarrow> bool" where
  "is_ascii_space c = (of_char c \<in> {9, 10, 12, 13, 32 :: nat})"

text \<open>
  \<open>add\<close> and \<open>remove\<close> check every token first: an empty token is a \<open>SyntaxError\<close>, a
  token with ASCII white space an \<open>InvalidCharacterError\<close>, and then nothing is changed.
\<close>

definition token_error :: "string list \<Rightarrow> error option" where
  "token_error ts =
     (case filter (\<lambda>t. t = [] \<or> (\<exists>c \<in> set t. is_ascii_space c)) ts of
        [] \<Rightarrow> None
      | t # _ \<Rightarrow> Some (if t = [] then SyntaxError else InvalidCharacterError))"

definition classList_add :: "node \<Rightarrow> string list \<Rightarrow> stmt" where
  "classList_add n ts s =
     (case elems s n of
        None \<Rightarrow> (Threw TypeError, s)
      | Some e \<Rightarrow>
          (case token_error ts of
             Some err \<Rightarrow> (Threw err, s)
           | None \<Rightarrow>
               (Done, s\<lparr>elems := (elems s)(n \<mapsto> e\<lparr>classList := foldl (\<lambda>cs t. token_add t cs) (classList e) ts\<rparr>)\<rparr>)))"

definition classList_remove :: "node \<Rightarrow> string list \<Rightarrow> stmt" where
  "classList_remove n ts s =
     (case elems s n of
        None \<Rightarrow> (Threw TypeError, s)
      | Some e \<Rightarrow>
          (case token_error ts of
             Some err \<Rightarrow> (Threw err, s)
           | None \<Rightarrow>
               (Done, s\<lparr>elems := (elems s)(n \<mapsto> e\<lparr>classList := filter (\<lambda>c. c \<notin> set ts) (classList e)\<rparr>)\<rparr>)))"

text \<open>
  \<open>x && x.classList.contains(t)\<close>, the guarded test of the \<open>isActive\<close> functions: false
  on \<open>null\<close>.
\<close>

definition has_class :: "node \<Rightarrow> string \<Rightarrow> page \<Rightarrow> bool" where
  "has_class n t s = (case elems s n of None \<Rightarrow> False | Some e \<Rightarrow> t \<in> set (classList e))"

text \<open>The lookup of a node does not return \<open>null\<close>.\<close>

definition present :: "node \<Rightarrow> page \<Rightarrow> bool" where
  "present n s = (elems s n \<noteq> None)"

text \<open>\<open>x.addEventListener(...)\<close> on a reference that may be \<open>null\<close>.\<close>

definition addEventListener :: "node \<Rightarrow> stmt" where
  "addEventListener n s = (case elems s n of None \<Rightarrow> (Threw TypeError, s) | Some _ \<Rightarrow> (Done, s))"

section \<open>Modal utilities\<close>

definition Modal_close :: "node \<Rightarrow> stmt" where
  "Modal_close m s =
     (case elems s m of
        None \<Rightarrow> (Done, s)
      | Some _ \<Rightarrow> andThen (classList_remove m [''active'']) (\<lambda>s'. (Done, s'\<lparr>bodyOverflow := ''''\<rparr>)) s)"

definition Modal_open :: "node \<Rightarrow> stmt" where
  "Modal_open m s =
     (case elems s m of
        None \<Rightarrow> (Done, s)
      | Some _ \<Rightarrow> andThen (classList_add m [''active'']) (\<lambda>s'. (Done, s'\<lparr>bodyOverflow := ''hidden''\<rparr>)) s)"

definition AchievementModal_isActive :: "page \<Rightarrow> bool" where
  "AchievementModal_isActive s = has_class AchievementModalEl ''active'' s"

definition PartnerModal_isActive :: "page \<Rightarrow> bool" where
  "PartnerModal_isActive s = has_class PartnerModalEl ''active'' s"

section \<open>Navigation\<close>

definition initSidebar :: stmt where
  "initSidebar =
     andThen (addEventListener MenuToggle)
       (andThen (addEventListener SidebarOverlay) (addEventListener SidebarNav))"

definition openSidebar :: stmt where
  "openSidebar =
     andThen (classList_add MenuToggle [''active''])
       (andThen (classList_add SidebarNav [''active''])
         (andThen (classList_add SidebarOverlay [''active''])
           (\<lambda>s. (Done, s\<lparr>bodyOverflow := ''hidden''\<rparr>))))"

definition closeSidebar :: stmt where
  "closeSidebar =
     andThen (classList_remove MenuToggle [''active''])
       (andThen (classList_remove SidebarNav [''active''])
         (andThen (classList_remove SidebarOverlay [''active''])
           (\<lambda>s. (Done, s\<lparr>bodyOverflow := ''''\<rparr>))))"

definition isSidebarActive :: "page \<Rightarrow> bool" where
  "isSidebarActive s = has_class SidebarNav ''active'' s"

text \<open>The click listener of the hamburger: \<open>this.sidebarNav.classList\<close> is not guarded.\<close>

definition menuToggle_click :: stmt where
  "menuToggle_click s =
     (case elems s SidebarNav of
        None \<Rightarrow> (Threw TypeError, s)
      | Some e \<Rightarrow> if ''active'' \<in> set (classList e) then closeSidebar s else openSidebar s)"

section \<open>Timeline\<close>

definition totalSections :: int where
  "totalSections = 3"

definition isMobile :: "page \<Rightarrow> bool" where
  "isMobile s = (innerWidth s \<le> 768)"

text \<open>
  \<open>navPrev.disabled = ...; navNext.disabled = ...\<close> on the two looked-up buttons, neither
  lookup guarded.
\<close>

definition set_disabled :: "node \<Rightarrow> bool \<Rightarrow> stmt" where
  "set_disabled n b s =
     (case elems s n of
        None \<Rightarrow> (Threw TypeError, s)
      | Some e \<Rightarrow> (Done, s\<lparr>elems := (elems s)(n \<mapsto> e\<lparr>disabled := b\<rparr>)\<rparr>))"

definition updateNavButtons :: stmt where
  "updateNavButtons s =
     andThen (set_disabled TimelineNavPrev (js_le (currentSection s) 1))
       (set_disabled TimelineNavNext (js_ge (currentSection s) totalSections)) s"

text \<open>
  \<open>zoomToSection(sectionNum)\<close> uses its argument twice, in \<open>parseInt(sectionNum, 10)\<close> and
  in the template literal of the class name, both times through \<open>ToString\<close>: the model
  takes that string. A caller with a number passes \<open>js_toString\<close> of it, the click
  listener of a section passes its \<open>data-section\<close> attribute.
\<close>

definition zoomToSection :: "string \<Rightarrow> stmt" where
  "zoomToSection sectionNum s =
     andThen (classList_remove TimelineContainer [''zoom-section-1'', ''zoom-section-2'', ''zoom-section-3''])
       (andThen (classList_add TimelineContainer [''zoomed'', ''zoom-section-'' @ sectionNum])
          updateNavButtons)
       (s\<lparr>currentSection := js_parseInt10 sectionNum\<rparr>)"

definition zoomOut :: stmt where
  "zoomOut s =
     (if isMobile s then (Done, s)
      else andThen
             (classList_remove TimelineContainer
                [''zoomed'', ''zoom-section-1'', ''zoom-section-2'', ''zoom-section-3''])
             updateNavButtons s)"

definition isZoomed :: "page \<Rightarrow> bool" where
  "isZoomed s = has_class TimelineContainer ''zoomed'' s"

text \<open>
  \<open>this.container.classList.contains(t)\<close>, not guarded: the test as a statement that
  throws on \<open>null\<close> and otherwise goes on with one of two statements.
\<close>

definition if_contains :: "node \<Rightarrow> string \<Rightarrow> stmt \<Rightarrow> stmt \<Rightarrow> stmt" where
  "if_contains n t f g s =
     (case elems s n of
        None \<Rightarrow> (Threw TypeError, s)
      | Some e \<Rightarrow> if t \<in> set (classList e) then f s else g s)"

definition skip :: stmt where
  "skip s = (Done, s)"

text \<open>
  \<open>setupInteractions\<close>: the zoom state for mobile, then the listeners. Registering a
  listener changes nothing of the page; on \<open>null\<close> it throws, as the section areas'
  \<open>forEach\<close> and the guarded \<open>svg\<close> never do.
\<close>

definition setupInteractions :: stmt where
  "setupInteractions s =
     andThen
       (\<lambda>s. if isMobile s
            then andThen (zoomToSection (js_toString (Num 1)))
                   (classList_add TimelineContainer [''mobile-mode'']) s
            else (Done, s))
       (andThen (addEventListener TimelineZoomOut)
          (andThen (addEventListener TimelineNavPrev) (addEventListener TimelineNavNext))) s"

text \<open>The listener of \<open>resize\<close>, run when the window has its new width.\<close>

definition resize_listener :: stmt where
  "resize_listener s =
     (if isMobile s
      then andThen
             (if_contains TimelineContainer ''zoomed'' skip (zoomToSection (js_toString (Num 1))))
             (classList_add TimelineContainer [''mobile-mode'']) s
      else if_contains TimelineContainer ''mobile-mode''
             (andThen zoomOut (classList_remove TimelineContainer [''mobile-mode'']))
             skip s)"

definition resize :: "int \<Rightarrow> stmt" where
  "resize w s = resize_listener (s\<lparr>innerWidth := w\<rparr>)"

text \<open>The click listeners: a section area (with its \<open>data-section\<close>), the controls, the diagram.\<close>

definition section_click :: "string \<Rightarrow> stmt" where
  "section_click dataSection s = (if isMobile s then (Done, s) else zoomToSection dataSection s)"

definition zoomOutBtn_click :: stmt where
  "zoomOutBtn_click = zoomOut"

definition navPrev_click :: stmt where
  "navPrev_click s =
     (if js_gt (currentSection s) 1
      then zoomToSection (js_toString (js_plus (currentSection s) (- 1))) s
      else (Done, s))"

definition navNext_click :: stmt where
  "navNext_click s =
     (if js_lt (currentSection s) totalSections
      then zoomToSection (js_toString (js_plus (currentSection s) 1)) s
      else (Done, s))"

text \<open>
  The click listener of the diagram; \<open>inSectionArea\<close> is whether the click's target has a
  section area as ancestor (\<open>e.target.closest('.timeline-section-area')\<close>).
\<close>

definition svg_click :: "bool \<Rightarrow> stmt" where
  "svg_click inSectionArea s =
     (if isMobile s then (Done, s)
      else if_contains TimelineContainer ''zoomed''
             (if \<not> inSectionArea then zoomOut else skip) skip s)"

text \<open>The timeline's \<open>keydown\<close> listener on the document.\<close>

definition arrows :: "string \<Rightarrow> stmt" where
  "arrows key s =
     (if key = ''ArrowLeft'' \<and> js_gt (currentSection s) 1
      then zoomToSection (js_toString (js_plus (currentSection s) (- 1))) s
      else if key = ''ArrowRight'' \<and> js_lt (currentSection s) totalSections
      then zoomToSection (js_toString (js_plus (currentSection s) 1)) s
      else (Done, s))"

definition timeline_keydown :: "string \<Rightarrow> stmt" where
  "timeline_keydown key s =
     (if \<not> isMobile s then if_contains TimelineContainer ''zoomed'' (arrows key) skip s
      else arrows key s)"

section \<open>Keyboard handler\<close>

definition keyboardHandler_keydown :: "string \<Rightarrow> stmt" where
  "keyboardHandler_keydown key s =
     (if key \<noteq> ''Escape'' then (Done, s)
      else if AchievementModal_isActive s then Modal_close AchievementModalEl s
      else if PartnerModal_isActive s then Modal_close PartnerModalEl s
      else if isSidebarActive s then closeSidebar s
      else if isZoomed s then zoomOut s
      else (Done, s))"

text \<open>
  A key press on the document runs both \<open>keydown\<close> listeners in the order of their
  registration (\<open>Timeline.init\<close> comes before \<open>KeyboardHandler.init\<close>). An exception of a
  listener is reported and does not keep the next one from running.
\<close>

definition document_keydown :: "string \<Rightarrow> page \<Rightarrow> (outcome \<times> outcome) \<times> page" where
  "document_keydown key s =
     (case timeline_keydown key s of
        (o1, s1) \<Rightarrow> (case keyboardHandler_keydown key s1 of (o2, s2) \<Rightarrow> ((o1, o2), s2)))"

text \<open>A page as it is loaded: every element present, no class set, section 1.\<close>

definition plain :: element where
  "plain = \<lparr>classList = [], disabled = False\<rparr>"

definition loaded :: "int \<Rightarrow> page" where
  "loaded w = \<lparr>innerWidth = w, bodyOverflow = [], elems = (\<lambda>n. Some plain), currentSection = Num 1\<rparr>"

definition without :: "node \<Rightarrow> page \<Rightarrow> page" where
  "without n s = s\<lparr>elems := (elems s)(n := None)\<rparr>"

section \<open>States of the timeline, as the specification names them\<close>

text \<open>The zoom-section classes the container carries, of the three the script removes.\<close>

definition zoom_markers :: "page \<Rightarrow> string list" where
  "zoom_markers s =
     (case elems s TimelineContainer of
        None \<Rightarrow> []
      | Some c \<Rightarrow>
          filter (\<lambda>t. t \<in> set [''zoom-section-1'', ''zoom-section-2'', ''zoom-section-3''])
            (classList c))"

text \<open>\<open>Zoomed(n)\<close>: zoomed, at section \<open>n\<close> of the three, with that section's class only.\<close>

definition zoomedAt :: "int \<Rightarrow> page \<Rightarrow> bool" where
  "zoomedAt n s =
     (1 \<le> n \<and> n \<le> 3 \<and> isZoomed s \<and> currentSection s = Num n \<and>
      zoom_markers s = [''zoom-section-'' @ js_toString (Num n)])"

text \<open>\<open>Idle\<close>: the container is there, not zoomed, with no zoom-section class.\<close>

definition idle :: "page \<Rightarrow> bool" where
  "idle s = (elems s TimelineContainer \<noteq> None \<and> \<not> isZoomed s \<and> zoom_markers s = [])"

text \<open>
  The container carries at most one zoom-section class; when it is zoomed that class is
  the one of \<open>currentSection\<close>, and when it is not it carries none.
\<close>

definition zoom_class_inv :: "page \<Rightarrow> bool" where
  "zoom_class_inv s =
     (length (zoom_markers s) \<le> 1 \<and>
      (if isZoomed s then zoom_markers s = [''zoom-section-'' @ js_toString (currentSection s)]
       else zoom_markers s = []))"

text \<open>A page zoomed at section 2 by a click on that section's area.\<close>

definition zoomed2 :: "int \<Rightarrow> page" where
  "zoomed2 w = snd (zoomToSection ''2'' (loaded w))"

text \<open>The page as \<open>setupInteractions\<close> leaves it on a phone.\<close>

definition mobile_page :: page where
  "mobile_page = snd (setupInteractions (loaded 500))"

section \<open>Sequences of navigation events\<close>

text \<open>
  The requests that move between sections: a click on the previous or next control, a
  press of the left or right arrow key. An exception a listener raises is reported by the
  browser; the page stays as the listener left it.
\<close>

datatype nav_event = PrevClick | NextClick | ArrowLeftKey | ArrowRightKey

fun nav_step :: "nav_event \<Rightarrow> page \<Rightarrow> page" where
  "nav_step PrevClick s = snd (navPrev_click s)"
| "nav_step NextClick s = snd (navNext_click s)"
| "nav_step ArrowLeftKey s = snd (document_keydown ''ArrowLeft'' s)"
| "nav_step ArrowRightKey s = snd (document_keydown ''ArrowRight'' s)"

fun nav_run :: "nav_event list \<Rightarrow> page \<Rightarrow> page" where
  "nav_run [] s = s"
| "nav_run (e # es) s = nav_run es (nav_step e s)"

text \<open>\<open>currentSection\<close> is one of the three sections.\<close>

definition valid_section :: "page \<Rightarrow> bool" where
  "valid_section s = (currentSection s = Num 1 \<or> currentSection s = Num 2 \<or> currentSection s = Num 3)"

text \<open>The page with one node replaced; what a context other than the timeline may change.\<close>

definition set_node :: "node \<Rightarrow> element option \<Rightarrow> page \<Rightarrow> page" where
  "set_node m x s = s\<lparr>elems := (elems s)(m := x)\<rparr>"

text \<open>
  A desktop page zoomed at section 2, with the sidebar opened and the achievement modal
  opened over it.
\<close>

definition busy_page :: page where
  "busy_page = snd (Modal_open AchievementModalEl (snd (openSidebar (zoomed2 1024))))"

text \<open>Desktop pages with only the sidebar opened, and with only the partner modal opened.\<close>

definition sidebar_page :: page where
  "sidebar_page = snd (openSidebar (loaded 1024))"

definition partner_page :: page where
  "partner_page = snd (Modal_open PartnerModalEl (loaded 1024))"

text \<open>A desktop page that has none of the elements the script looks up.\<close>

definition bare :: page where
  "bare = \<lparr>innerWidth = 1024, bodyOverflow = [], elems = (\<lambda>n. None), currentSection = Num 1\<rparr>"

section \<open>Language switcher\<close>

text \<open>
  \<open>translations.de\<close> and \<open>originalTexts\<close> are plain objects: an object literal and \<open>{}\<close>. Their
  own properties hold strings and are given as a map; what a key has that is not an own
  property comes from \<open>Object.prototype\<close>. A lookup \<open>table[key]\<close> therefore gives
  \<open>undefined\<close>, a string, a function of \<open>Object.prototype\<close> (for \<open>constructor\<close> the function
  \<open>Object\<close>, for the others the function of that name), or, for \<open>__proto__\<close>, the object
  \<open>Object.prototype\<close> itself.
\<close>

datatype jsvalue = Undefined | Str string | ObjectPrototype | NativeFunction string

definition object_prototype :: "string \<Rightarrow> jsvalue" where
  "object_prototype key =
     (if key = ''__proto__'' then ObjectPrototype
      else if key = ''constructor'' then NativeFunction ''Object''
      else if key \<in> set [''__defineGetter__'', ''__defineSetter__'', ''__lookupGetter__'',
                           ''__lookupSetter__'', ''hasOwnProperty'', ''isPrototypeOf'',
                           ''propertyIsEnumerable'', ''toLocaleString'', ''toString'', ''valueOf'']
      then NativeFunction key
      else Undefined)"

text \<open>\<open>table[key]\<close>, for a table with the own properties \<open>own\<close>.\<close>

definition js_get :: "(string \<rightharpoonup> string) \<Rightarrow> string \<Rightarrow> jsvalue" where
  "js_get own key = (case own key of Some v \<Rightarrow> Str v | None \<Rightarrow> object_prototype key)"

text \<open>
  \<open>table[key] = text\<close>, with \<open>text\<close> a string. The members of \<open>Object.prototype\<close> are
  writable, so the assignment makes an own property, except for \<open>__proto__\<close>: that one is
  an accessor whose setter ignores a string, and nothing is stored.
\<close>

definition js_set :: "(string \<rightharpoonup> string) \<Rightarrow> string \<Rightarrow> string \<Rightarrow> (string \<rightharpoonup> string)" where
  "js_set own key text = (if key = ''__proto__'' \<and> own key = None then own else own(key \<mapsto> text))"

text \<open>
  The test \<open>if (table[key])\<close>: \<open>undefined\<close> and the empty string are falsy, functions and
  objects are truthy.
\<close>

fun truthy :: "jsvalue \<Rightarrow> bool" where
  "truthy Undefined = False"
| "truthy (Str t) = (t \<noteq> [])"
| "truthy ObjectPrototype = True"
| "truthy (NativeFunction name) = True"

text \<open>
  The string an assignment to \<open>textContent\<close> makes of a value. The text of a native
  function is left to the engine by the language; it is the parameter \<open>fnText\<close>, from the
  name of the function.
\<close>

fun js_ToString :: "(string \<Rightarrow> string) \<Rightarrow> jsvalue \<Rightarrow> string" where
  "js_ToString fnText Undefined = ''undefined''"
| "js_ToString fnText (Str t) = t"
| "js_ToString fnText ObjectPrototype = ''[object Object]''"
| "js_ToString fnText (NativeFunction name) = fnText name"

text \<open>The text of a native function in V8 and JavaScriptCore.\<close>

definition v8_fnText :: "string \<Rightarrow> string" where
  "v8_fnText name = ''function '' @ name @ ''() { [native code] }''"

text \<open>
  The document is a tree: a text node, or an element with the value of its \<open>data-i18n\<close>
  attribute (when it has one), its class list and its child nodes. Comments and the
  other attributes play no part.
\<close>

datatype dom = TextNode string | ElementNode "string option" "string list" "dom list"

fun textContent :: "dom \<Rightarrow> string" where
  "textContent (TextNode t) = t"
| "textContent (ElementNode k cl cs) = concat (map textContent cs)"

text \<open>
  \<open>querySelectorAll('[data-i18n]')\<close>: the elements with the attribute, in document order
  (an element before its descendants), each with \<open>dataset.i18n\<close> and \<open>textContent\<close>.
\<close>

fun i18n_elements :: "dom \<Rightarrow> (string \<times> string) list" where
  "i18n_elements (TextNode t) = []"
| "i18n_elements (ElementNode k cl cs) =
     (case k of Some key \<Rightarrow> [(key, concat (map textContent cs))] | None \<Rightarrow> [])
       @ concat (map i18n_elements cs)"

text \<open>Those of them that are not inside another one.\<close>

fun outer_i18n_elements :: "dom \<Rightarrow> (string \<times> string) list" where
  "outer_i18n_elements (TextNode t) = []"
| "outer_i18n_elements (ElementNode k cl cs) =
     (case k of
        Some key \<Rightarrow> [(key, concat (map textContent cs))]
      | None \<Rightarrow> concat (map outer_i18n_elements cs))"

text \<open>
  What \<open>LanguageSwitcher\<close> reads and writes: its own fields \<open>currentLang\<close> and
  \<open>originalTexts\<close>, the document (its root element), the \<open>lang\<close> attribute of the root, the
  checkbox \<open>#langToggle\<close> (its \<open>checked\<close> state, when it exists) and the entry
  \<open>preferredLanguage\<close> of \<open>localStorage\<close>. The table \<open>translations.de\<close> is a parameter \<open>de\<close> of
  the functions: what is proved holds for every table.
\<close>

record lang_state =
  currentLang :: string
  originalTexts :: "string \<rightharpoonup> string"
  document :: dom
  htmlLang :: string
  langToggle :: "bool option"
  preferredLanguage :: "string option"

definition storeOriginalTexts :: "lang_state \<Rightarrow> lang_state" where
  "storeOriginalTexts s =
     s\<lparr>originalTexts :=
         foldl (\<lambda>own (key, text). js_set own key text) (originalTexts s) (i18n_elements (document s))\<rparr>"

text \<open>\<open>classList.toggle(token, force)\<close>, on the class list.\<close>

definition classList_toggle :: "string \<Rightarrow> bool \<Rightarrow> string list \<Rightarrow> string list" where
  "classList_toggle t force cl = (if force then token_add t cl else filter (\<lambda>c. c \<noteq> t) cl)"

text \<open>
  \<open>document.querySelector('.' + c).classList.toggle('active', force)\<close>: the first element in
  document order that has the class \<open>c\<close> is the one changed. \<open>None\<close> when no element has the
  class: \<open>querySelector\<close> gives \<open>null\<close>.
\<close>

fun toggle_first :: "string \<Rightarrow> bool \<Rightarrow> dom \<Rightarrow> dom option"
  and toggle_first_child :: "string \<Rightarrow> bool \<Rightarrow> dom list \<Rightarrow> dom list option" where
  "toggle_first c force (TextNode t) = None"
| "toggle_first c force (ElementNode k cl cs) =
     (if c \<in> set cl then Some (ElementNode k (classList_toggle ''active'' force cl) cs)
      else map_option (ElementNode k cl) (toggle_first_child c force cs))"
| "toggle_first_child c force [] = None"
| "toggle_first_child c force (x # xs) =
     (case toggle_first c force x of
        Some x' \<Rightarrow> Some (x' # xs)
      | None \<Rightarrow> map_option ((#) x) (toggle_first_child c force xs))"

text \<open>
  The body of the \<open>forEach\<close> of \<open>switchLanguage\<close>, for an element with the key \<open>key\<close>: the
  string assigned to its \<open>textContent\<close>, if one is assigned.
\<close>

definition translate :: "(string \<Rightarrow> string) \<Rightarrow> (string \<rightharpoonup> string) \<Rightarrow> string \<Rightarrow> (string \<rightharpoonup> string) \<Rightarrow> string \<Rightarrow> string option" where
  "translate fnText de lang orig key =
     (if lang = ''de'' \<and> truthy (js_get de key) then Some (js_ToString fnText (js_get de key))
      else if lang = ''en'' \<and> truthy (js_get orig key) then Some (js_ToString fnText (js_get orig key))
      else None)"

text \<open>
  \<open>el.textContent = text\<close> replaces the children of the element by one text node, by
  nothing when the string is empty.
\<close>

definition text_children :: "string \<Rightarrow> dom list" where
  "text_children text = (if text = [] then [] else [TextNode text])"

text \<open>
  The \<open>forEach\<close> over the elements found by \<open>querySelectorAll('[data-i18n]')\<close>. The list is
  fixed before the loop and in document order, so an element is visited after the
  elements that contain it. Once the text of an element is assigned, the elements inside
  it are no longer part of the document, and what the loop does to them later does not
  show in the document.
\<close>

fun set_texts :: "(string \<Rightarrow> string option) \<Rightarrow> dom \<Rightarrow> dom" where
  "set_texts new (TextNode t) = TextNode t"
| "set_texts new (ElementNode k cl cs) =
     (case k of
        None \<Rightarrow> ElementNode k cl (map (set_texts new) cs)
      | Some key \<Rightarrow>
          (case new key of
             Some text \<Rightarrow> ElementNode k cl (text_children text)
           | None \<Rightarrow> ElementNode k cl (map (set_texts new) cs)))"

definition switchLanguage :: "(string \<Rightarrow> string) \<Rightarrow> (string \<rightharpoonup> string) \<Rightarrow> string \<Rightarrow> lang_state \<Rightarrow> outcome \<times> lang_state" where
  "switchLanguage fnText de lang s =
     (let s1 = s\<lparr>currentLang := lang\<rparr> in
      case toggle_first ''lang-en'' (lang = ''en'') (document s1) of
        None \<Rightarrow> (Threw TypeError, s1)
      | Some d1 \<Rightarrow>
          (let s2 = s1\<lparr>document := d1\<rparr> in
           case toggle_first ''lang-de'' (lang = ''de'') (document s2) of
             None \<Rightarrow> (Threw TypeError, s2)
           | Some d2 \<Rightarrow>
               (Done, s2\<lparr>document := set_texts (translate fnText de lang (originalTexts s2)) d2,
                          htmlLang := lang\<rparr>)))"

text \<open>\<open>LanguageSwitcher.init\<close> and the \<open>change\<close> listener of the checkbox.\<close>

definition LanguageSwitcher_init :: "(string \<Rightarrow> string) \<Rightarrow> (string \<rightharpoonup> string) \<Rightarrow> lang_state \<Rightarrow> outcome \<times> lang_state" where
  "LanguageSwitcher_init fnText de s =
     (case langToggle s of
        None \<Rightarrow> (Done, s)
      | Some _ \<Rightarrow>
          (let s1 = storeOriginalTexts s in
           if preferredLanguage s1 = Some ''de''
           then switchLanguage fnText de ''de'' (s1\<lparr>langToggle := Some True\<rparr>)
           else (Done, s1)))"

definition langToggle_change :: "(string \<Rightarrow> string) \<Rightarrow> (string \<rightharpoonup> string) \<Rightarrow> lang_state \<Rightarrow> outcome \<times> lang_state" where
  "langToggle_change fnText de s =
     (let newLang = (if langToggle s = Some True then ''de'' else ''en'') in
      case switchLanguage fnText de newLang s of
        (Done, s') \<Rightarrow> (Done, s'\<lparr>preferredLanguage := Some newLang\<rparr>)
      | (Threw e, s') \<Rightarrow> (Threw e, s'))"

text \<open>
  The locale is switched to \<open>de\<close> and back to \<open>en\<close>: two calls of \<open>switchLanguage\<close>, the second
  on what the first leaves, whether it returned or threw.
\<close>

definition round_trip :: "(string \<Rightarrow> string) \<Rightarrow> (string \<rightharpoonup> string) \<Rightarrow> lang_state \<Rightarrow> outcome \<times> lang_state" where
  "round_trip fnText de s = switchLanguage fnText de ''en'' (snd (switchLanguage fnText de ''de'' s))"

text \<open>
  The text captured at startup for a key is that of the last element in document order
  that carries the key.
\<close>

definition last_text_of_key :: "dom \<Rightarrow> string \<Rightarrow> string option" where
  "last_text_of_key d key = map_of (rev (i18n_elements d)) key"

text \<open>Three entries of \<open>translations.de\<close>, and pages to try them on.\<close>

definition de_sample :: "string \<rightharpoonup> string" where
  "de_sample = [''nav.contacts'' \<mapsto> ''Kontakt'', ''hero.cta'' \<mapsto> ''Sponsor werden'',
                ''footer.education'' \<mapsto> ''Ausbildung'']"

definition lang_labels :: "dom list" where
  "lang_labels =
     [ElementNode None [''lang-label'', ''lang-en'', ''active''] [TextNode ''EN''],
      ElementNode None [''lang-label'', ''lang-de''] [TextNode ''DE'']]"

definition lang_page :: "dom list \<Rightarrow> lang_state" where
  "lang_page body =
     \<lparr>currentLang = ''en'', originalTexts = Map.empty,
      document = ElementNode None [] (lang_labels @ body),
      htmlLang = ''en'', langToggle = Some False, preferredLanguage = None\<rparr>"

text \<open>
  A page with two links that share a key and a text, and a heading with a translatable
  word inside it.
\<close>

definition contact_page :: lang_state where
  "contact_page =
     lang_page
       [ElementNode (Some ''nav.contacts'') [''nav-link''] [TextNode ''Contact''],
        ElementNode (Some ''hero.cta'') []
          [TextNode ''Become a '', ElementNode (Some ''hero.word'') [] [TextNode ''Sponsor'']],
        ElementNode None [''footer'']
          [ElementNode (Some ''nav.contacts'') [] [TextNode ''Contact'']]]"

text \<open>Two elements with one key and different texts.\<close>

definition dup_page :: lang_state where
  "dup_page =
     lang_page
       [ElementNode (Some ''nav.contacts'') [] [TextNode ''Contact''],
        ElementNode (Some ''nav.contacts'') [] [TextNode ''Contacts'']]"

text \<open>An element whose key is \<open>__proto__\<close>.\<close>

definition proto_page :: lang_state where
  "proto_page = lang_page [ElementNode (Some ''__proto__'') [] [TextNode ''Home'']]"

text \<open>The label \<open>.lang-en\<close> inside a translatable element.\<close>

definition label_inside_page :: lang_state where
  "label_inside_page =
     \<lparr>currentLang = ''en'', originalTexts = Map.empty,
      document = ElementNode None []
        [ElementNode (Some ''nav.contacts'') []
           [ElementNode None [''lang-en'', ''active''] [TextNode ''Contact'']],
         ElementNode None [''lang-de''] [TextNode ''DE'']],
      htmlLang = ''en'', langToggle = Some False, preferredLanguage = None\<rparr>"

section \<open>The thumbnail script \<open>images/make_thumbnails.ps1\<close>\<close>

definition MaxSize :: int where
  "MaxSize = 300"

text \<open>
  \<open>$MaxSize / $image.Width\<close> and \<open>$image.Width * $ratio\<close> are computed in double
  precision: the result is the real quotient or product, rounded to a double. The
  function \<open>fl\<close> stands for that rounding. What is proved asks of it only what every
  IEEE operation gives when nothing overflows or underflows, a relative error of at most
  \<open>2^-53\<close>; exact arithmetic is one such \<open>fl\<close>.
\<close>

definition rounds_like_double :: "(real \<Rightarrow> real) \<Rightarrow> bool" where
  "rounds_like_double fl = (\<forall>x. \<bar>fl x - x\<bar> \<le> \<bar>x\<bar> / 2 ^ 53)"

text \<open>The cast \<open>[int]\<close> of a double: to the nearest integer, a half to the even one.\<close>

definition ps_int :: "real \<Rightarrow> int" where
  "ps_int x =
     (let f = \<lfloor>x\<rfloor>; r = x - of_int f
      in if r < 1 / 2 then f else if 1 / 2 < r then f + 1 else if even f then f else f + 1)"

definition thumb_dims :: "(real \<Rightarrow> real) \<Rightarrow> int \<Rightarrow> int \<Rightarrow> int \<times> int" where
  "thumb_dims fl width height =
     (let ratioX = fl (of_int MaxSize / of_int width);
          ratioY = fl (of_int MaxSize / of_int height);
          ratio = min ratioX ratioY;
          newWidth = ps_int (fl (of_int width * ratio));
          newHeight = ps_int (fl (of_int height * ratio))
      in (newWidth, newHeight))"

text \<open>
  One file of \<open>$imageFiles\<close>, with what the file system and the image library answer for
  it: whether its thumbnail exists and is newer, what reading and decoding give (an error
  message, or the width and height of the image), and whether saving fails.
\<close>

record image_file =
  fileName :: string
  thumbUpToDate :: bool
  decoded :: "string + int \<times> int"
  saveError :: "string option"

datatype thumb_error = ReadFailed string | InvalidBitmapSize int int | SaveFailed string

text \<open>The lines of \<open>Write-Host\<close>, each with the values it interpolates.\<close>

datatype log_line =
    Skipping string
  | Creating string
  | ErrorProcessing string thumb_error
  | Blank
  | DoneCreated nat

record run =
  count :: nat
  host :: "log_line list"
  written :: "(string \<times> int \<times> int) list"

text \<open>
  The body of the \<open>try\<close>: the error that sends it to the \<open>catch\<close>, or the size of the
  thumbnail it saves. \<open>New-Object System.Drawing.Bitmap\<close> refuses a width or height
  that is not positive.
\<close>

definition try_thumbnail :: "(real \<Rightarrow> real) \<Rightarrow> image_file \<Rightarrow> thumb_error + int \<times> int" where
  "try_thumbnail fl f =
     (case decoded f of
        Inl msg \<Rightarrow> Inl (ReadFailed msg)
      | Inr (w, h) \<Rightarrow>
          (case thumb_dims fl w h of (newWidth, newHeight) \<Rightarrow>
             if newWidth \<le> 0 \<or> newHeight \<le> 0 then Inl (InvalidBitmapSize newWidth newHeight)
             else (case saveError f of
                     Some msg \<Rightarrow> Inl (SaveFailed msg)
                   | None \<Rightarrow> Inr (newWidth, newHeight))))"

text \<open>The body of the \<open>foreach\<close>.\<close>

definition process_file :: "(real \<Rightarrow> real) \<Rightarrow> run \<Rightarrow> image_file \<Rightarrow> run" where
  "process_file fl r f =
     (if thumbUpToDate f then r\<lparr>host := host r @ [Skipping (fileName f)]\<rparr>
      else
        (case try_thumbnail fl f of
           Inl err \<Rightarrow> r\<lparr>host := host r @ [Creating (fileName f), ErrorProcessing (fileName f) err]\<rparr>
         | Inr (newWidth, newHeight) \<Rightarrow>
             r\<lparr>count := count r + 1,
               host := host r @ [Creating (fileName f)],
               written := written r @ [(''thumb_'' @ fileName f, newWidth, newHeight)]\<rparr>))"

definition make_thumbnails :: "(real \<Rightarrow> real) \<Rightarrow> image_file list \<Rightarrow> run" where
  "make_thumbnails fl imageFiles =
     (let r = foldl (process_file fl) \<lparr>count = 0, host = [], written = []\<rparr> imageFiles
      in r\<lparr>host := host r @ [Blank, DoneCreated (count r)]\<rparr>)"

text \<open>
  In the claim's words. A thumbnail is produced for a file that is not skipped, that can
  be read and decoded, whose thumbnail has a positive width and height, and whose saving
  does not fail. A file fails when it is not skipped and no thumbnail is produced for it.
\<close>

definition produced :: "(real \<Rightarrow> real) \<Rightarrow> image_file \<Rightarrow> bool" where
  "produced fl f =
     (\<not> thumbUpToDate f \<and>
      (case decoded f of
         Inl _ \<Rightarrow> False
       | Inr (w, h) \<Rightarrow>
           0 < fst (thumb_dims fl w h) \<and> 0 < snd (thumb_dims fl w h) \<and> saveError f = None))"

definition failed :: "(real \<Rightarrow> real) \<Rightarrow> image_file \<Rightarrow> bool" where
  "failed fl f = (\<not> thumbUpToDate f \<and> \<not> produced fl f)"

text \<open>The thumbnail a file gives, if it gives one: its name and its size.\<close>

definition thumbnail_of :: "(real \<Rightarrow> real) \<Rightarrow> image_file \<Rightarrow> (string \<times> int \<times> int) list" where
  "thumbnail_of fl f =
     (if produced fl f
      then (case decoded f of
              Inr (w, h) \<Rightarrow> [(''thumb_'' @ fileName f, thumb_dims fl w h)]
            | Inl _ \<Rightarrow> [])
      else [])"

text \<open>
  A folder to try: two good images, one that cannot be read, one up to date, one too flat,
  one that cannot be saved.
\<close>

definition folder :: "image_file list" where
  "folder =
     [\<lparr>fileName = ''a.jpg'', thumbUpToDate = False, decoded = Inr (1200, 800), saveError = None\<rparr>,
      \<lparr>fileName = ''b.png'', thumbUpToDate = False, decoded = Inl ''Parameter is not valid.'', saveError = None\<rparr>,
      \<lparr>fileName = ''c.gif'', thumbUpToDate = True, decoded = Inr (640, 480), saveError = None\<rparr>,
      \<lparr>fileName = ''d.jpg'', thumbUpToDate = False, decoded = Inr (1200, 1), saveError = None\<rparr>,
      \<lparr>fileName = ''e.jpeg'', thumbUpToDate = False, decoded = Inr (100, 50), saveError = None\<rparr>,
      \<lparr>fileName = ''f.png'', thumbUpToDate = False, decoded = Inr (640, 480),
        saveError = Some ''A generic error occurred in GDI+.''\<rparr>]"

text \<open>The bound on the relative error of one rounding.\<close>

definition u53 :: real where
  "u53 = 1 / 2 ^ 53"

section \<open>Every event of the timeline\<close>

text \<open>
  The events the timeline's listeners and the Escape listener react to: a resize to a
  width, a click on a section area (with its \<open>data-section\<close>), on the zoom-out control,
  on the diagram, a navigation request, a press of any key.
\<close>

datatype timeline_event =
    EvResize int
  | EvSectionClick string
  | EvZoomOutClick
  | EvSvgClick bool
  | EvNav nav_event
  | EvKeyDown string

fun timeline_step :: "timeline_event \<Rightarrow> page \<Rightarrow> page" where
  "timeline_step (EvResize w) s = snd (resize w s)"
| "timeline_step (EvSectionClick d) s = snd (section_click d s)"
| "timeline_step EvZoomOutClick s = snd (zoomOutBtn_click s)"
| "timeline_step (EvSvgClick b) s = snd (svg_click b s)"
| "timeline_step (EvNav e) s = nav_step e s"
| "timeline_step (EvKeyDown key) s = snd (document_keydown key s)"

fun timeline_run :: "timeline_event list \<Rightarrow> page \<Rightarrow> page" where
  "timeline_run [] s = s"
| "timeline_run (e # es) s = timeline_run es (timeline_step e s)"

text \<open>The section areas of the page are those of the three sections.\<close>

fun section_areas_ok :: "timeline_event \<Rightarrow> bool" where
  "section_areas_ok (EvSectionClick d) = (d = ''1'' \<or> d = ''2'' \<or> d = ''3'')"
| "section_areas_ok _ = True"

text \<open>
  What holds of the timeline at every moment: the section is one of the three, the zoom
  classes fit it, and on a phone the container, if there is one, is zoomed.
\<close>

definition timeline_ok :: "page \<Rightarrow> bool" where
  "timeline_ok s =
     (valid_section s \<and> zoom_class_inv s \<and>
      (if isMobile s \<and> present TimelineContainer s then isZoomed s else True))"

section \<open>Facts about the timeline\<close>

lemma parse_1: "js_parseInt10 ''1'' = Num 1"
  and parse_2: "js_parseInt10 ''2'' = Num 2"
  and parse_3: "js_parseInt10 ''3'' = Num 3"
  by (simp_all add: js_parseInt10_def is_js_space_def is_digit_def digits_value_def)

lemma toString_small:
  "js_toString (Num 1) = ''1''" "js_toString (Num 2) = ''2''" "js_toString (Num 3) = ''3''"
  by (simp_all add: js_toString.simps decimal.simps digit_char_def)

lemma token_error_fixed:
  "token_error [''active''] = None"
  "token_error [''mobile-mode''] = None"
  "token_error [''zoom-section-1'', ''zoom-section-2'', ''zoom-section-3''] = None"
  "token_error [''zoomed'', ''zoom-section-1'', ''zoom-section-2'', ''zoom-section-3''] = None"
  by (simp_all add: token_error_def is_ascii_space_def)

lemma token_error_zoom:
  "token_error [''zoomed'', ''zoom-section-'' @ x] =
     (if \<exists>c \<in> set x. is_ascii_space c then Some InvalidCharacterError else None)"
  by (simp add: token_error_def is_ascii_space_def)

lemma updateNavButtons_frame:
  "innerWidth (snd (updateNavButtons s)) = innerWidth s"
  "currentSection (snd (updateNavButtons s)) = currentSection s"
  "bodyOverflow (snd (updateNavButtons s)) = bodyOverflow s"
  "n \<noteq> TimelineNavPrev \<Longrightarrow> n \<noteq> TimelineNavNext \<Longrightarrow> elems (snd (updateNavButtons s)) n = elems s n"
  by (auto simp: updateNavButtons_def andThen_def set_disabled_def split: option.splits)

lemma updateNavButtons_Done:
  "elems s TimelineNavPrev \<noteq> None \<Longrightarrow> elems s TimelineNavNext \<noteq> None \<Longrightarrow>
   fst (updateNavButtons s) = Done"
  by (auto simp: updateNavButtons_def andThen_def set_disabled_def split: option.splits)

lemma updateNavButtons_views:
  "isZoomed (snd (updateNavButtons s)) = isZoomed s"
  "zoom_markers (snd (updateNavButtons s)) = zoom_markers s"
  "isMobile (snd (updateNavButtons s)) = isMobile s"
  by (simp_all add: isZoomed_def has_class_def zoom_markers_def isMobile_def updateNavButtons_frame)

lemma zoomOut_mobile: "isMobile s \<Longrightarrow> zoomOut s = (Done, s)"
  by (simp add: zoomOut_def)

lemma zoomOut_desktop:
  "\<not> isMobile s \<Longrightarrow> elems s TimelineContainer = Some c \<Longrightarrow>
   zoomOut s = updateNavButtons (s\<lparr>elems := (elems s)(TimelineContainer \<mapsto> c\<lparr>classList :=
      filter (\<lambda>t. t \<notin> set [''zoomed'', ''zoom-section-1'', ''zoom-section-2'', ''zoom-section-3'']) (classList c)\<rparr>)\<rparr>)"
  by (simp add: zoomOut_def andThen_def classList_remove_def token_error_fixed)

lemma zoomOut_desktop_idle:
  assumes "\<not> isMobile s" "elems s TimelineContainer \<noteq> None"
  shows "idle (snd (zoomOut s))"
proof -
  from assms obtain c where c: "elems s TimelineContainer = Some c" by auto
  show ?thesis
    unfolding zoomOut_desktop [OF assms(1) c] idle_def updateNavButtons_views
    by (auto simp add: updateNavButtons_frame isZoomed_def has_class_def zoom_markers_def filter_empty_conv)
qed

lemma zoomToSection_present:
  assumes "elems s TimelineContainer = Some c" "\<not> (\<exists>ch \<in> set x. is_ascii_space ch)"
  shows "zoomToSection x s =
     updateNavButtons (s\<lparr>currentSection := js_parseInt10 x,
        elems := (elems s)(TimelineContainer \<mapsto> c\<lparr>classList :=
          token_add (''zoom-section-'' @ x) (token_add ''zoomed''
            (filter (\<lambda>t. t \<notin> set [''zoom-section-1'', ''zoom-section-2'', ''zoom-section-3''])
               (classList c)))\<rparr>)\<rparr>)"
  using assms
  by (simp add: zoomToSection_def andThen_def classList_remove_def classList_add_def
      token_error_fixed token_error_zoom del: append.simps)

lemma zoomToSection_absent:
  "elems s TimelineContainer = None \<Longrightarrow>
   zoomToSection x s = (Threw TypeError, s\<lparr>currentSection := js_parseInt10 x\<rparr>)"
  by (simp add: zoomToSection_def andThen_def classList_remove_def)

lemma zoomToSection_zoomedAt:
  assumes "elems s TimelineContainer \<noteq> None" "1 \<le> n" "n \<le> 3"
  shows "zoomedAt n (snd (zoomToSection (js_toString (Num n)) s))"
proof -
  from assms obtain c where c: "elems s TimelineContainer = Some c" by auto
  from assms have "n = 1 \<or> n = 2 \<or> n = 3" by arith
  then show ?thesis
  proof (elim disjE)
    assume n: "n = 1"
    have ns: "\<not> (\<exists>ch \<in> set ''1''. is_ascii_space ch)" by (simp add: is_ascii_space_def)
    show ?thesis
      unfolding n toString_small zoomToSection_present [OF c ns] zoomedAt_def updateNavButtons_views
      by (auto simp: updateNavButtons_frame isZoomed_def has_class_def zoom_markers_def token_add_def parse_1 filter_empty_conv)
  next
    assume n: "n = 2"
    have ns: "\<not> (\<exists>ch \<in> set ''2''. is_ascii_space ch)" by (simp add: is_ascii_space_def)
    show ?thesis
      unfolding n toString_small zoomToSection_present [OF c ns] zoomedAt_def updateNavButtons_views
      by (auto simp: updateNavButtons_frame isZoomed_def has_class_def zoom_markers_def token_add_def parse_2 filter_empty_conv)
  next
    assume n: "n = 3"
    have ns: "\<not> (\<exists>ch \<in> set ''3''. is_ascii_space ch)" by (simp add: is_ascii_space_def)
    show ?thesis
      unfolding n toString_small zoomToSection_present [OF c ns] zoomedAt_def updateNavButtons_views
      by (auto simp: updateNavButtons_frame isZoomed_def has_class_def zoom_markers_def token_add_def parse_3 filter_empty_conv)
  qed
qed

lemma zoomedAt_inv: "zoomedAt n s \<Longrightarrow> zoom_class_inv s"
  by (simp add: zoomedAt_def zoom_class_inv_def)

lemma idle_inv: "idle s \<Longrightarrow> zoom_class_inv s"
  by (simp add: idle_def zoom_class_inv_def)

lemma absent_inv: "elems s TimelineContainer = None \<Longrightarrow> zoom_class_inv s"
  by (simp add: zoom_class_inv_def zoom_markers_def isZoomed_def has_class_def)

lemma inv_cong:
  "elems s' TimelineContainer = elems s TimelineContainer \<Longrightarrow> currentSection s' = currentSection s \<Longrightarrow>
   zoom_class_inv s' = zoom_class_inv s"
  by (simp add: zoom_class_inv_def zoom_markers_def isZoomed_def has_class_def)

lemma mobile_mode_add:
  "elems s TimelineContainer = Some c \<Longrightarrow>
   classList_add TimelineContainer [''mobile-mode''] s =
     (Done, s\<lparr>elems := (elems s)(TimelineContainer \<mapsto> c\<lparr>classList := token_add ''mobile-mode'' (classList c)\<rparr>)\<rparr>)"
  by (simp add: classList_add_def token_error_fixed)

lemma mobile_mode_remove:
  "elems s TimelineContainer = Some c \<Longrightarrow>
   classList_remove TimelineContainer [''mobile-mode''] s =
     (Done, s\<lparr>elems := (elems s)(TimelineContainer \<mapsto> c\<lparr>classList := filter (\<lambda>t. t \<notin> set [''mobile-mode'']) (classList c)\<rparr>)\<rparr>)"
  by (simp add: classList_remove_def token_error_fixed)

lemma mobile_mode_views:
  "isZoomed (snd (classList_add TimelineContainer [''mobile-mode''] s)) = isZoomed s"
  "zoom_markers (snd (classList_add TimelineContainer [''mobile-mode''] s)) = zoom_markers s"
  "currentSection (snd (classList_add TimelineContainer [''mobile-mode''] s)) = currentSection s"
  "isZoomed (snd (classList_remove TimelineContainer [''mobile-mode''] s)) = isZoomed s"
  "zoom_markers (snd (classList_remove TimelineContainer [''mobile-mode''] s)) = zoom_markers s"
  "currentSection (snd (classList_remove TimelineContainer [''mobile-mode''] s)) = currentSection s"
  by (auto simp: classList_add_def classList_remove_def token_error_fixed isZoomed_def has_class_def
      zoom_markers_def token_add_def split: option.splits intro!: filter_cong)

lemma mobile_mode_inv:
  "zoom_class_inv (snd (classList_add TimelineContainer [''mobile-mode''] s)) = zoom_class_inv s"
  "zoom_class_inv (snd (classList_remove TimelineContainer [''mobile-mode''] s)) = zoom_class_inv s"
  by (simp_all add: zoom_class_inv_def mobile_mode_views)

lemma snd_andThen:
  "snd (andThen f g s) = (if fst (f s) = Done then snd (g (snd (f s))) else snd (f s))"
  by (cases "f s") (auto simp: andThen_def split: outcome.splits)

lemma fst_andThen:
  "fst (andThen f g s) = (if fst (f s) = Done then fst (g (snd (f s))) else fst (f s))"
  by (cases "f s") (auto simp: andThen_def split: outcome.splits)

lemma zoomToSection_inv:
  assumes "x \<in> {''1'', ''2'', ''3''}"
  shows "zoom_class_inv (snd (zoomToSection x s))"
proof (cases "elems s TimelineContainer")
  case None
  then show ?thesis by (simp add: zoomToSection_absent absent_inv)
next
  case (Some c)
  have "zoomedAt 1 (snd (zoomToSection (js_toString (Num 1)) s))"
       "zoomedAt 2 (snd (zoomToSection (js_toString (Num 2)) s))"
       "zoomedAt 3 (snd (zoomToSection (js_toString (Num 3)) s))"
    using Some by (simp_all add: zoomToSection_zoomedAt)
  with assms show ?thesis unfolding toString_small by (auto dest: zoomedAt_inv)
qed

lemma zoomOut_inv: "zoom_class_inv s \<Longrightarrow> zoom_class_inv (snd (zoomOut s))"
proof (cases "isMobile s")
  case True
  assume "zoom_class_inv s"
  with True show ?thesis by (simp add: zoomOut_mobile)
next
  case False
  show ?thesis
  proof (cases "elems s TimelineContainer")
    case None
    then have "elems (snd (zoomOut s)) TimelineContainer = None"
      by (simp add: zoomOut_def andThen_def classList_remove_def)
    then show ?thesis by (rule absent_inv)
  next
    case (Some c)
    with False show ?thesis by (simp add: zoomOut_desktop_idle idle_inv)
  qed
qed

lemma if_contains_snd:
  "snd (if_contains n t f g s) =
     (case elems s n of None \<Rightarrow> s | Some e \<Rightarrow> if t \<in> set (classList e) then snd (f s) else snd (g s))"
  by (simp add: if_contains_def split: option.splits)

lemma resize_listener_inv: "zoom_class_inv s \<Longrightarrow> zoom_class_inv (snd (resize_listener s))"
proof (cases "elems s TimelineContainer")
  case None
  then have "elems (snd (resize_listener s)) TimelineContainer = None"
    by (simp add: resize_listener_def andThen_def if_contains_def)
  then show ?thesis by (rule absent_inv)
next
  case (Some c)
  assume inv: "zoom_class_inv s"
  show ?thesis
  proof (cases "isMobile s")
    case True
    show ?thesis
    proof (cases "''zoomed'' \<in> set (classList c)")
      case True
      with \<open>isMobile s\<close> Some inv show ?thesis
        by (simp add: resize_listener_def snd_andThen if_contains_def skip_def mobile_mode_inv)
    next
      case False
      have z: "zoom_class_inv (snd (zoomToSection ''1'' s))" by (simp add: zoomToSection_inv)
      from False \<open>isMobile s\<close> Some show ?thesis
        by (simp add: resize_listener_def snd_andThen if_contains_def toString_small mobile_mode_inv z)
    qed
  next
    case False
    show ?thesis
    proof (cases "''mobile-mode'' \<in> set (classList c)")
      case True
      with False Some show ?thesis
        by (simp add: resize_listener_def snd_andThen if_contains_def mobile_mode_inv zoomOut_inv inv)
    next
      case nm: False
      with False Some inv show ?thesis
        by (simp add: resize_listener_def if_contains_def skip_def)
    qed
  qed
qed

lemma resize_inv: "zoom_class_inv s \<Longrightarrow> zoom_class_inv (snd (resize w s))"
proof -
  assume "zoom_class_inv s"
  moreover have "zoom_class_inv (s\<lparr>innerWidth := w\<rparr>) = zoom_class_inv s"
    by (rule inv_cong) simp_all
  ultimately have "zoom_class_inv (s\<lparr>innerWidth := w\<rparr>)" by simp
  then show ?thesis unfolding resize_def by (rule resize_listener_inv)
qed

lemma addEventListener_snd: "snd (addEventListener n s) = s"
  by (simp add: addEventListener_def split: option.splits)

lemma listeners_snd:
  "snd (andThen (addEventListener a) (andThen (addEventListener b) (addEventListener c)) s) = s"
  by (simp add: snd_andThen addEventListener_snd)

lemma snd_andThen_id:
  assumes "\<And>s. snd (g s) = s"
  shows "snd (andThen f g s) = snd (f s)"
  using assms by (simp add: snd_andThen)

lemma setupInteractions_snd:
  "snd (setupInteractions s) =
     (if isMobile s
      then snd (andThen (zoomToSection (js_toString (Num 1)))
                 (classList_add TimelineContainer [''mobile-mode'']) s)
      else s)"
  unfolding setupInteractions_def
  by (subst snd_andThen_id) (simp_all add: listeners_snd)

lemma setupInteractions_inv:
  assumes "zoom_class_inv s"
  shows "zoom_class_inv (snd (setupInteractions s))"
proof (cases "isMobile s")
  case True
  have z: "zoom_class_inv (snd (zoomToSection ''1'' s))" by (simp add: zoomToSection_inv)
  from True show ?thesis
    by (simp add: setupInteractions_snd snd_andThen toString_small mobile_mode_inv z)
next
  case False
  with assms show ?thesis by (simp add: setupInteractions_snd)
qed

lemma zoomed2_zoomedAt: "zoomedAt 2 (zoomed2 w)"
  using zoomToSection_zoomedAt [of "loaded w" 2]
  by (simp add: zoomed2_def toString_small loaded_def)

lemma zoomed2_width: "innerWidth (zoomed2 w) = w"
  by (simp add: zoomed2_def zoomToSection_def snd_andThen classList_remove_def classList_add_def
      token_error_fixed token_error_zoom updateNavButtons_frame loaded_def del: append.simps)

subsection \<open>C5: \<open>zoomOut\<close>\<close>

text \<open>
  C5. Called from any \<open>Zoomed(n)\<close> state on desktop, \<open>zoomOut()\<close> returns the timeline to
  \<open>Idle\<close>: the \<open>zoomed\<close> class and every zoom-section class are removed (and it ends
  without an exception when both navigation buttons are there). On mobile
  (\<open>innerWidth \<le> 768\<close>) it is a no-op, and the widget remains zoomed at its section
  \<open>n\<close> of 1 to 3.
\<close>

theorem zoomOut_desktop_idle_mobile_noop:
  assumes "zoomedAt n s"
  shows "(\<not> isMobile s \<longrightarrow> idle (snd (zoomOut s)))
       \<and> (\<not> isMobile s \<and> elems s TimelineNavPrev \<noteq> None \<and> elems s TimelineNavNext \<noteq> None
            \<longrightarrow> fst (zoomOut s) = Done)
       \<and> (isMobile s \<longrightarrow> zoomOut s = (Done, s) \<and> zoomedAt n (snd (zoomOut s)))"
proof -
  from assms have c: "elems s TimelineContainer \<noteq> None"
    by (auto simp: zoomedAt_def isZoomed_def has_class_def split: option.splits)
  then obtain e where e: "elems s TimelineContainer = Some e" by auto
  have "fst (zoomOut s) = Done"
    if "\<not> isMobile s" "elems s TimelineNavPrev \<noteq> None" "elems s TimelineNavNext \<noteq> None"
    unfolding zoomOut_desktop [OF that(1) e] using that(2,3)
    by (intro updateNavButtons_Done) simp_all
  with c assms show ?thesis
    by (auto simp: zoomOut_desktop_idle zoomOut_mobile)
qed

theorem zoomOut_desktop_idle_mobile_noop_witness:
  "zoomedAt 2 (zoomed2 1024) \<and> \<not> isMobile (zoomed2 1024) \<and> idle (snd (zoomOut (zoomed2 1024)))
   \<and> zoomedAt 2 (zoomed2 500) \<and> isMobile (zoomed2 500)
   \<and> zoomOut (zoomed2 500) = (Done, zoomed2 500) \<and> zoomedAt 2 (snd (zoomOut (zoomed2 500)))"
  using zoomOut_desktop_idle_mobile_noop [OF zoomed2_zoomedAt, of 1024]
        zoomOut_desktop_idle_mobile_noop [OF zoomed2_zoomedAt, of 500]
  by (simp add: zoomed2_zoomedAt isMobile_def zoomed2_width)

lemma loaded_fresh: "\<not> isZoomed (loaded w)" "zoom_markers (loaded w) = []"
  by (simp_all add: isZoomed_def has_class_def zoom_markers_def loaded_def plain_def)

lemma zoomed2_markers: "zoom_markers (zoomed2 w) = [''zoom-section-2'']" "isZoomed (zoomed2 w)"
  using zoomed2_zoomedAt [of w] by (simp_all add: zoomedAt_def toString_small)

lemma present_after_updateNavButtons:
  "present n (snd (updateNavButtons s)) = present n s"
  by (auto simp: present_def updateNavButtons_def andThen_def set_disabled_def split: option.splits)

lemma present_upd: "present n (s\<lparr>elems := (elems s)(m \<mapsto> e)\<rparr>) = (n = m \<or> present n s)"
  by (simp add: present_def)

lemma present_classList:
  "present n (snd (classList_add m ts s)) = present n s"
  "present n (snd (classList_remove m ts s)) = present n s"
  by (auto simp: present_def classList_add_def classList_remove_def split: option.splits)

lemma present_cs: "present n (s\<lparr>currentSection := x\<rparr>) = present n s"
  by (simp add: present_def)

lemma container_after_updateNavButtons:
  "elems (snd (updateNavButtons s)) TimelineContainer = elems s TimelineContainer"
  by (simp add: updateNavButtons_frame)

lemma zoomToSection_Done:
  assumes "elems s TimelineContainer \<noteq> None" "elems s TimelineNavPrev \<noteq> None"
    "elems s TimelineNavNext \<noteq> None" "\<not> (\<exists>ch \<in> set x. is_ascii_space ch)"
  shows "fst (zoomToSection x s) = Done"
proof -
  from assms obtain c where c: "elems s TimelineContainer = Some c" by auto
  show ?thesis unfolding zoomToSection_present [OF c assms(4)]
    using assms(2,3) by (intro updateNavButtons_Done) simp_all
qed

lemma zoomToSection_frame:
  "innerWidth (snd (zoomToSection x s)) = innerWidth s"
  "bodyOverflow (snd (zoomToSection x s)) = bodyOverflow s"
  "n \<noteq> TimelineContainer \<Longrightarrow> n \<noteq> TimelineNavPrev \<Longrightarrow> n \<noteq> TimelineNavNext \<Longrightarrow>
     elems (snd (zoomToSection x s)) n = elems s n"
  by (auto simp: zoomToSection_def snd_andThen classList_remove_def classList_add_def
      updateNavButtons_frame split: option.splits simp del: append.simps)

lemma zoomToSection_present_iff: "present m (snd (zoomToSection x s)) = present m s"
  by (simp add: zoomToSection_def snd_andThen present_classList present_after_updateNavButtons present_cs)

lemma zoomOut_frame:
  "innerWidth (snd (zoomOut s)) = innerWidth s"
  "bodyOverflow (snd (zoomOut s)) = bodyOverflow s"
  "currentSection (snd (zoomOut s)) = currentSection s"
  "n \<noteq> TimelineContainer \<Longrightarrow> n \<noteq> TimelineNavPrev \<Longrightarrow> n \<noteq> TimelineNavNext \<Longrightarrow>
     elems (snd (zoomOut s)) n = elems s n"
  by (auto simp: zoomOut_def snd_andThen classList_remove_def
      updateNavButtons_frame split: option.splits)

lemma zoomOut_present_iff: "present m (snd (zoomOut s)) = present m s"
  by (simp add: zoomOut_def snd_andThen present_classList present_after_updateNavButtons)

lemma zoomOut_Done:
  assumes "elems s TimelineContainer \<noteq> None" "elems s TimelineNavPrev \<noteq> None"
    "elems s TimelineNavNext \<noteq> None"
  shows "fst (zoomOut s) = Done"
proof (cases "isMobile s")
  case True then show ?thesis by (simp add: zoomOut_mobile)
next
  case False
  from assms obtain c where c: "elems s TimelineContainer = Some c" by auto
  show ?thesis unfolding zoomOut_desktop [OF False c]
    using assms(2,3) by (intro updateNavButtons_Done) simp_all
qed

lemma zoomOut_keeps_mobile_mode:
  "has_class TimelineContainer ''mobile-mode'' (snd (zoomOut s)) = has_class TimelineContainer ''mobile-mode'' s"
  by (auto simp: zoomOut_def snd_andThen classList_remove_def has_class_def token_error_fixed
      updateNavButtons_frame split: option.splits)

lemma zoomToSection_keeps_mobile_mode:
  "x \<in> {''1'', ''2'', ''3''} \<Longrightarrow>
   has_class TimelineContainer ''mobile-mode'' (snd (zoomToSection x s)) = has_class TimelineContainer ''mobile-mode'' s"
  by (auto simp: zoomToSection_def snd_andThen classList_remove_def classList_add_def has_class_def
      token_error_fixed token_error_def is_ascii_space_def token_add_def
      updateNavButtons_frame split: option.splits)

lemma mobile_mode_added:
  "elems s TimelineContainer \<noteq> None \<Longrightarrow>
   has_class TimelineContainer ''mobile-mode'' (snd (classList_add TimelineContainer [''mobile-mode''] s))"
  by (auto simp: classList_add_def token_error_fixed has_class_def token_add_def)

lemma mobile_mode_removed:
  "\<not> has_class TimelineContainer ''mobile-mode'' (snd (classList_remove TimelineContainer [''mobile-mode''] s))"
  by (auto simp: classList_remove_def token_error_fixed has_class_def split: option.splits)

lemma width_views:
  "isMobile (s\<lparr>innerWidth := w\<rparr>) = (w \<le> 768)"
  "isZoomed (s\<lparr>innerWidth := w\<rparr>) = isZoomed s"
  "zoom_markers (s\<lparr>innerWidth := w\<rparr>) = zoom_markers s"
  "has_class n t (s\<lparr>innerWidth := w\<rparr>) = has_class n t s"
  "present n (s\<lparr>innerWidth := w\<rparr>) = present n s"
  "currentSection (s\<lparr>innerWidth := w\<rparr>) = currentSection s"
  by (simp_all add: isMobile_def isZoomed_def zoom_markers_def has_class_def present_def)

lemma isZoomed_elem:
  "elems s TimelineContainer = Some c \<Longrightarrow> isZoomed s = (''zoomed'' \<in> set (classList c))"
  by (simp add: isZoomed_def has_class_def)

lemma has_class_elem:
  "elems s n = Some c \<Longrightarrow> has_class n t s = (t \<in> set (classList c))"
  by (simp add: has_class_def)

lemma mobile_mode_Done:
  "present TimelineContainer s \<Longrightarrow> fst (classList_add TimelineContainer [''mobile-mode''] s) = Done"
  "present TimelineContainer s \<Longrightarrow> fst (classList_remove TimelineContainer [''mobile-mode''] s) = Done"
  by (auto simp: present_def classList_add_def classList_remove_def token_error_fixed)

lemma one_no_space: "\<not> (\<exists>ch \<in> set ''1''. is_ascii_space ch)"
  by (simp add: is_ascii_space_def)

lemma resize_listener_to_mobile_idle:
  assumes "isMobile s" "\<not> isZoomed s"
    "present TimelineContainer s" "present TimelineNavPrev s" "present TimelineNavNext s"
  shows "fst (resize_listener s) = Done"
    "zoomedAt 1 (snd (resize_listener s))"
    "has_class TimelineContainer ''mobile-mode'' (snd (resize_listener s))"
proof -
  from assms obtain c where c: "elems s TimelineContainer = Some c" by (auto simp: present_def)
  with assms(2) have nz: "''zoomed'' \<notin> set (classList c)" by (simp add: isZoomed_elem)
  have d: "fst (zoomToSection ''1'' s) = Done"
    using assms by (intro zoomToSection_Done) (simp_all add: present_def is_ascii_space_def)
  have z: "zoomedAt 1 (snd (zoomToSection ''1'' s))"
    using zoomToSection_zoomedAt [of s 1] c by (simp add: toString_small)
  have p: "present TimelineContainer (snd (zoomToSection ''1'' s))"
    using assms(3) by (simp add: zoomToSection_present_iff)
  have eq: "resize_listener s =
      andThen (zoomToSection ''1'') (classList_add TimelineContainer [''mobile-mode'']) s"
    using assms(1) c nz by (simp add: resize_listener_def andThen_def if_contains_def toString_small)
  show "fst (resize_listener s) = Done" by (simp add: eq fst_andThen d mobile_mode_Done p)
  show "zoomedAt 1 (snd (resize_listener s))"
    using z by (simp add: eq snd_andThen d zoomedAt_def mobile_mode_views)
  show "has_class TimelineContainer ''mobile-mode'' (snd (resize_listener s))"
    using p by (simp add: eq snd_andThen d mobile_mode_added present_def)
qed

lemma resize_listener_to_mobile_zoomed:
  assumes "isMobile s" "isZoomed s"
  shows "fst (resize_listener s) = Done"
    "currentSection (snd (resize_listener s)) = currentSection s"
    "zoom_markers (snd (resize_listener s)) = zoom_markers s"
    "isZoomed (snd (resize_listener s))"
    "has_class TimelineContainer ''mobile-mode'' (snd (resize_listener s))"
proof -
  from assms(2) obtain c where c: "elems s TimelineContainer = Some c" and z: "''zoomed'' \<in> set (classList c)"
    by (auto simp: isZoomed_def has_class_def split: option.splits)
  have eq: "resize_listener s = classList_add TimelineContainer [''mobile-mode''] s"
    using assms(1) c z by (simp add: resize_listener_def andThen_def if_contains_def skip_def)
  have p: "present TimelineContainer s" using c by (simp add: present_def)
  show "fst (resize_listener s) = Done" by (simp add: eq mobile_mode_Done p)
  show "currentSection (snd (resize_listener s)) = currentSection s" by (simp add: eq mobile_mode_views)
  show "zoom_markers (snd (resize_listener s)) = zoom_markers s" by (simp add: eq mobile_mode_views)
  show "isZoomed (snd (resize_listener s))" using assms(2) by (simp add: eq mobile_mode_views)
  show "has_class TimelineContainer ''mobile-mode'' (snd (resize_listener s))"
    using p by (simp add: eq mobile_mode_added present_def)
qed

lemma resize_listener_to_desktop:
  assumes "\<not> isMobile s" "has_class TimelineContainer ''mobile-mode'' s"
    "present TimelineNavPrev s" "present TimelineNavNext s"
  shows "fst (resize_listener s) = Done"
    "idle (snd (resize_listener s))"
    "\<not> has_class TimelineContainer ''mobile-mode'' (snd (resize_listener s))"
proof -
  from assms(2) obtain c where c: "elems s TimelineContainer = Some c" and m: "''mobile-mode'' \<in> set (classList c)"
    by (auto simp: has_class_def split: option.splits)
  have eq: "resize_listener s = andThen zoomOut (classList_remove TimelineContainer [''mobile-mode'']) s"
    using assms(1) c m by (simp add: resize_listener_def if_contains_def)
  have d: "fst (zoomOut s) = Done"
    using assms c by (intro zoomOut_Done) (simp_all add: present_def)
  have i: "idle (snd (zoomOut s))" using assms(1) c by (simp add: zoomOut_desktop_idle)
  have "present TimelineContainer s" using c by (simp add: present_def)
  then have p: "present TimelineContainer (snd (zoomOut s))" by (simp add: zoomOut_present_iff)
  show "fst (resize_listener s) = Done" by (simp add: eq fst_andThen d mobile_mode_Done p)
  show "idle (snd (resize_listener s))"
    using i p present_classList(2) [of TimelineContainer TimelineContainer "[''mobile-mode'']" "snd (zoomOut s)"]
    by (simp add: eq snd_andThen d idle_def mobile_mode_views present_def)
  show "\<not> has_class TimelineContainer ''mobile-mode'' (snd (resize_listener s))"
    by (simp add: eq snd_andThen d mobile_mode_removed)
qed

lemma loaded_present: "present n (loaded w)"
  by (simp add: present_def loaded_def)

lemma loaded_width: "isMobile (loaded w) = (w \<le> 768)"
  by (simp add: isMobile_def loaded_def)

lemma zoomed2_present: "present n (zoomed2 w)"
  by (simp add: zoomed2_def zoomToSection_present_iff loaded_present)

lemma zoomed2_mobile: "isMobile (zoomed2 w) = (w \<le> 768)"
  by (simp add: isMobile_def zoomed2_width)

lemma mobile_page_eq:
  "mobile_page = snd (andThen (zoomToSection ''1'') (classList_add TimelineContainer [''mobile-mode'']) (loaded 500))"
  by (simp add: mobile_page_def setupInteractions_snd loaded_width toString_small)

lemma mobile_page_facts:
  "isMobile mobile_page" "present n mobile_page" "zoomedAt 1 mobile_page"
  "has_class TimelineContainer ''mobile-mode'' mobile_page"
proof -
  have d: "fst (zoomToSection ''1'' (loaded 500)) = Done"
    by (intro zoomToSection_Done) (simp_all add: loaded_present [unfolded present_def] is_ascii_space_def)
  have e: "mobile_page = snd (classList_add TimelineContainer [''mobile-mode''] (snd (zoomToSection ''1'' (loaded 500))))"
    by (simp add: mobile_page_eq snd_andThen d)
  have z: "zoomedAt 1 (snd (zoomToSection ''1'' (loaded 500)))"
    using zoomToSection_zoomedAt [of "loaded 500" 1] loaded_present [of TimelineContainer 500]
    by (simp add: toString_small present_def)
  show "present n mobile_page" by (simp add: e present_classList zoomToSection_present_iff loaded_present)
  show "zoomedAt 1 mobile_page" using z by (simp add: e zoomedAt_def mobile_mode_views)
  have "present TimelineContainer (snd (zoomToSection ''1'' (loaded 500)))"
    by (simp add: zoomToSection_present_iff loaded_present)
  then show "has_class TimelineContainer ''mobile-mode'' mobile_page"
    unfolding e by (intro mobile_mode_added) (simp add: present_def)
  show "isMobile mobile_page"
    by (simp add: e isMobile_def classList_add_def token_error_fixed zoomToSection_frame loaded_def
        split: option.splits)
qed

subsection \<open>C2: a resize across the breakpoint\<close>

text \<open>
  C2, as amended. On a page with the timeline container and both navigation buttons, a
  resize that crosses from desktop width to mobile width (\<open>innerWidth \<le> 768\<close>) marks
  mobile-mode; it forces \<open>Zoomed(1)\<close> when the timeline was not zoomed, and when it was
  zoomed it stays zoomed at the section it had. A resize that crosses back to desktop
  width, when the widget was in mobile-mode, forces \<open>Idle\<close> and clears mobile-mode.
\<close>

theorem resize_crossing:
  assumes "present TimelineContainer s" "present TimelineNavPrev s" "present TimelineNavNext s"
  shows "(\<not> isMobile s \<and> w \<le> 768 \<and> \<not> isZoomed s \<longrightarrow>
            fst (resize w s) = Done \<and> zoomedAt 1 (snd (resize w s)) \<and>
            has_class TimelineContainer ''mobile-mode'' (snd (resize w s)))
       \<and> (\<not> isMobile s \<and> w \<le> 768 \<and> isZoomed s \<longrightarrow>
            fst (resize w s) = Done \<and> isZoomed (snd (resize w s)) \<and>
            currentSection (snd (resize w s)) = currentSection s \<and>
            zoom_markers (snd (resize w s)) = zoom_markers s \<and>
            has_class TimelineContainer ''mobile-mode'' (snd (resize w s)))
       \<and> (isMobile s \<and> 768 < w \<and> has_class TimelineContainer ''mobile-mode'' s \<longrightarrow>
            fst (resize w s) = Done \<and> idle (snd (resize w s)) \<and>
            \<not> has_class TimelineContainer ''mobile-mode'' (snd (resize w s)))"
proof (intro conjI impI)
  let ?t = "s\<lparr>innerWidth := w\<rparr>"
  have p: "present TimelineContainer ?t" "present TimelineNavPrev ?t" "present TimelineNavNext ?t"
    using assms by (simp_all add: width_views)
  {
    assume a: "\<not> isMobile s \<and> w \<le> 768 \<and> \<not> isZoomed s"
    then have m: "isMobile ?t" "\<not> isZoomed ?t" by (simp_all add: width_views)
    from resize_listener_to_mobile_idle [OF m p]
    show "fst (resize w s) = Done" "zoomedAt 1 (snd (resize w s))"
      "has_class TimelineContainer ''mobile-mode'' (snd (resize w s))"
      by (simp_all add: resize_def)
  }
  {
    assume a: "\<not> isMobile s \<and> w \<le> 768 \<and> isZoomed s"
    then have m: "isMobile ?t" "isZoomed ?t" by (simp_all add: width_views)
    from resize_listener_to_mobile_zoomed [OF m]
    show "fst (resize w s) = Done" "isZoomed (snd (resize w s))"
      "currentSection (snd (resize w s)) = currentSection s"
      "zoom_markers (snd (resize w s)) = zoom_markers s"
      "has_class TimelineContainer ''mobile-mode'' (snd (resize w s))"
      by (simp_all add: resize_def width_views)
  }
  {
    assume a: "isMobile s \<and> 768 < w \<and> has_class TimelineContainer ''mobile-mode'' s"
    then have m: "\<not> isMobile ?t" "has_class TimelineContainer ''mobile-mode'' ?t"
      by (simp_all add: width_views)
    from resize_listener_to_desktop [OF m p(2,3)]
    show "fst (resize w s) = Done" "idle (snd (resize w s))"
      "\<not> has_class TimelineContainer ''mobile-mode'' (snd (resize w s))"
      by (simp_all add: resize_def)
  }
qed

theorem resize_crossing_witness:
  "present TimelineContainer (loaded 1024) \<and> \<not> isMobile (loaded 1024) \<and> \<not> isZoomed (loaded 1024)
   \<and> zoomedAt 1 (snd (resize 500 (loaded 1024)))
   \<and> has_class TimelineContainer ''mobile-mode'' (snd (resize 500 (loaded 1024)))
   \<and> isZoomed (zoomed2 1024) \<and> \<not> isMobile (zoomed2 1024)
   \<and> currentSection (snd (resize 500 (zoomed2 1024))) = Num 2
   \<and> has_class TimelineContainer ''mobile-mode'' (snd (resize 500 (zoomed2 1024)))
   \<and> isMobile mobile_page \<and> has_class TimelineContainer ''mobile-mode'' mobile_page
   \<and> idle (snd (resize 1024 mobile_page))
   \<and> \<not> has_class TimelineContainer ''mobile-mode'' (snd (resize 1024 mobile_page))"
proof -
  have c2: "currentSection (zoomed2 1024) = Num 2"
    using zoomed2_zoomedAt [of 1024] by (simp add: zoomedAt_def)
  from resize_crossing [of "loaded 1024" 500] resize_crossing [of "zoomed2 1024" 500]
       resize_crossing [of mobile_page 1024] c2
  show ?thesis
    by (simp add: loaded_present loaded_width loaded_fresh zoomed2_present zoomed2_mobile
        zoomed2_markers mobile_page_facts)
qed

text \<open>
  C2 as stated fails: a desktop page zoomed at section 2 that is resized to a width of 500
  stays at section 2, it is not forced into \<open>Zoomed(1)\<close>.
\<close>

theorem resize_to_mobile_keeps_section_counterexample:
  "\<not> isMobile (zoomed2 1024) \<and> (500 :: int) \<le> 768
   \<and> zoomedAt 2 (zoomed2 1024)
   \<and> currentSection (snd (resize 500 (zoomed2 1024))) = Num 2
   \<and> zoom_markers (snd (resize 500 (zoomed2 1024))) = [''zoom-section-2'']
   \<and> \<not> zoomedAt 1 (snd (resize 500 (zoomed2 1024)))"
proof -
  have m: "isMobile (zoomed2 1024\<lparr>innerWidth := 500\<rparr>)" "isZoomed (zoomed2 1024\<lparr>innerWidth := 500\<rparr>)"
    by (simp_all add: width_views zoomed2_markers)
  have c2: "currentSection (zoomed2 1024) = Num 2"
    using zoomed2_zoomedAt [of 1024] by (simp add: zoomedAt_def)
  from resize_listener_to_mobile_zoomed [OF m] c2
  show ?thesis
    by (simp add: resize_def width_views zoomed2_mobile zoomed2_zoomedAt zoomed2_markers zoomedAt_def
        toString_small)
qed

lemma classList_cs:
  "currentSection (snd (classList_add n ts s)) = currentSection s"
  "currentSection (snd (classList_remove n ts s)) = currentSection s"
  by (auto simp: classList_add_def classList_remove_def split: option.splits)

lemma zoomToSection_cs: "currentSection (snd (zoomToSection x s)) = js_parseInt10 x"
  by (simp add: zoomToSection_def snd_andThen classList_cs updateNavButtons_frame)

lemma keyboardHandler_other_key:
  "key \<noteq> ''Escape'' \<Longrightarrow> keyboardHandler_keydown key s = (Done, s)"
  by (simp add: keyboardHandler_keydown_def)

lemma document_keydown_arrow:
  "key \<noteq> ''Escape'' \<Longrightarrow> snd (document_keydown key s) = snd (timeline_keydown key s)"
  "key \<noteq> ''Escape'' \<Longrightarrow> fst (document_keydown key s) = (fst (timeline_keydown key s), Done)"
  by (simp_all add: document_keydown_def keyboardHandler_other_key split: prod.splits)

lemma navPrev_valid: "valid_section s \<Longrightarrow> valid_section (snd (navPrev_click s))"
  by (auto simp: valid_section_def navPrev_click_def zoomToSection_cs toString_small parse_1 parse_2 parse_3)

lemma navNext_valid: "valid_section s \<Longrightarrow> valid_section (snd (navNext_click s))"
  by (auto simp: valid_section_def navNext_click_def totalSections_def zoomToSection_cs toString_small
      parse_1 parse_2 parse_3)

lemma arrows_valid: "valid_section s \<Longrightarrow> valid_section (snd (arrows key s))"
  by (auto simp: valid_section_def arrows_def totalSections_def zoomToSection_cs toString_small
      parse_1 parse_2 parse_3)

lemma timeline_keydown_valid: "valid_section s \<Longrightarrow> valid_section (snd (timeline_keydown key s))"
  by (auto simp: timeline_keydown_def if_contains_def skip_def arrows_valid split: option.splits)

lemma nav_step_valid: "valid_section s \<Longrightarrow> valid_section (nav_step e s)"
  by (cases e) (simp_all add: navPrev_valid navNext_valid document_keydown_arrow timeline_keydown_valid)

lemma nav_run_valid: "valid_section s \<Longrightarrow> valid_section (nav_run evs s)"
  by (induction evs arbitrary: s) (simp_all add: nav_step_valid)

lemma arrows_boundary:
  "currentSection s = Num 1 \<Longrightarrow> arrows ''ArrowLeft'' s = (Done, s)"
  "currentSection s = Num 3 \<Longrightarrow> arrows ''ArrowRight'' s = (Done, s)"
  by (simp_all add: arrows_def totalSections_def)

lemma timeline_keydown_boundary:
  assumes "currentSection s = Num 1 \<and> key = ''ArrowLeft'' \<or> currentSection s = Num 3 \<and> key = ''ArrowRight''"
  shows "snd (timeline_keydown key s) = s"
    and "present TimelineContainer s \<or> isMobile s \<Longrightarrow> fst (timeline_keydown key s) = Done"
  using assms
  by (auto simp: timeline_keydown_def if_contains_def skip_def arrows_boundary present_def
      split: option.splits)

subsection \<open>C3: \<open>currentSection\<close> stays one of the three sections\<close>

text \<open>
  C3. Through every sequence of clicks on the previous and next controls and of presses
  of the arrow keys, \<open>Timeline.currentSection\<close> stays in \<open>{1, 2, 3}\<close>. A previous or left
  request at section 1 and a next or right request at section \<open>totalSections\<close> (3) leave
  the whole page as it is: the request is dropped, there is no wrap-around, and no
  listener raises an exception (for the key listener, which reads the container's
  classes first, on a page that has the timeline container).
\<close>

theorem section_stays_valid:
  assumes "valid_section s"
  shows "valid_section (nav_run evs s)
    \<and> (currentSection s = Num 1 \<longrightarrow>
         navPrev_click s = (Done, s) \<and> snd (document_keydown ''ArrowLeft'' s) = s \<and>
         (present TimelineContainer s \<longrightarrow> document_keydown ''ArrowLeft'' s = ((Done, Done), s)))
    \<and> (currentSection s = Num totalSections \<longrightarrow>
         navNext_click s = (Done, s) \<and> snd (document_keydown ''ArrowRight'' s) = s \<and>
         (present TimelineContainer s \<longrightarrow> document_keydown ''ArrowRight'' s = ((Done, Done), s)))"
proof (intro conjI impI)
  show "valid_section (nav_run evs s)" using assms by (rule nav_run_valid)
next
  assume "currentSection s = Num 1"
  then show "navPrev_click s = (Done, s)" by (simp add: navPrev_click_def)
next
  assume c: "currentSection s = Num 1"
  then show "snd (document_keydown ''ArrowLeft'' s) = s"
    by (simp add: document_keydown_arrow timeline_keydown_boundary)
next
  assume c: "currentSection s = Num 1" and p: "present TimelineContainer s"
  have "fst (document_keydown ''ArrowLeft'' s) = (Done, Done)"
    using c p by (simp add: document_keydown_arrow timeline_keydown_boundary)
  moreover have "snd (document_keydown ''ArrowLeft'' s) = s"
    using c by (simp add: document_keydown_arrow timeline_keydown_boundary)
  ultimately show "document_keydown ''ArrowLeft'' s = ((Done, Done), s)"
    by (simp add: prod_eq_iff)
next
  assume "currentSection s = Num totalSections"
  then show "navNext_click s = (Done, s)" by (simp add: navNext_click_def)
next
  assume c: "currentSection s = Num totalSections"
  then show "snd (document_keydown ''ArrowRight'' s) = s"
    by (simp add: document_keydown_arrow timeline_keydown_boundary totalSections_def)
next
  assume c: "currentSection s = Num totalSections" and p: "present TimelineContainer s"
  have "fst (document_keydown ''ArrowRight'' s) = (Done, Done)"
    using c p by (simp add: document_keydown_arrow timeline_keydown_boundary totalSections_def)
  moreover have "snd (document_keydown ''ArrowRight'' s) = s"
    using c by (simp add: document_keydown_arrow timeline_keydown_boundary totalSections_def)
  ultimately show "document_keydown ''ArrowRight'' s = ((Done, Done), s)"
    by (simp add: prod_eq_iff)
qed

lemma loaded_cs: "currentSection (loaded w) = Num 1" "valid_section (loaded w)"
  by (simp_all add: loaded_def valid_section_def)

lemma next_twice_cs: "currentSection (nav_run [NextClick, NextClick] (loaded 1024)) = Num 3"
  by (simp add: navNext_click_def totalSections_def zoomToSection_cs loaded_cs toString_small parse_2 parse_3)

lemma next_twice_present: "present n (nav_run [NextClick, NextClick] (loaded 1024))"
  by (simp add: navNext_click_def totalSections_def zoomToSection_cs zoomToSection_present_iff
      loaded_cs loaded_present toString_small parse_2 parse_3)

theorem section_stays_valid_witness:
  "valid_section (loaded 1024)
   \<and> valid_section (nav_run [NextClick, ArrowRightKey, NextClick, ArrowRightKey, PrevClick, ArrowLeftKey] (loaded 1024))
   \<and> currentSection (loaded 1024) = Num 1
   \<and> navPrev_click (loaded 1024) = (Done, loaded 1024)
   \<and> document_keydown ''ArrowLeft'' (loaded 1024) = ((Done, Done), loaded 1024)
   \<and> currentSection (nav_run [NextClick, NextClick] (loaded 1024)) = Num totalSections
   \<and> navNext_click (nav_run [NextClick, NextClick] (loaded 1024)) = (Done, nav_run [NextClick, NextClick] (loaded 1024))
   \<and> document_keydown ''ArrowRight'' (nav_run [NextClick, NextClick] (loaded 1024))
       = ((Done, Done), nav_run [NextClick, NextClick] (loaded 1024))"
proof -
  have v3: "valid_section (nav_run [NextClick, NextClick] (loaded 1024))"
    using section_stays_valid [of "loaded 1024" "[NextClick, NextClick]"] by (simp add: loaded_cs)
  from section_stays_valid [of "loaded 1024" "[NextClick, ArrowRightKey, NextClick, ArrowRightKey, PrevClick, ArrowLeftKey]"]
       section_stays_valid [OF v3, of "[]"]
  show ?thesis
    using next_twice_cs next_twice_present [of TimelineContainer]
    by (simp add: loaded_cs loaded_present totalSections_def)
qed

lemma js_plus_small:
  "js_plus (Num 1) 1 = Num 2" "js_plus (Num 2) 1 = Num 3" "js_plus (Num 2) (- 1) = Num 1"
  "js_plus (Num 3) (- 1) = Num 2"
  by simp_all

lemma arrows_moves:
  assumes "zoomedAt n s"
  shows "n < 3 \<Longrightarrow> zoomedAt (n + 1) (snd (arrows ''ArrowRight'' s))"
    and "1 < n \<Longrightarrow> zoomedAt (n - 1) (snd (arrows ''ArrowLeft'' s))"
proof -
  from assms have c: "elems s TimelineContainer \<noteq> None" and cs: "currentSection s = Num n"
    and r: "1 \<le> n" "n \<le> 3"
    by (auto simp: zoomedAt_def isZoomed_def has_class_def split: option.splits)
  show "zoomedAt (n + 1) (snd (arrows ''ArrowRight'' s))" if "n < 3"
    using zoomToSection_zoomedAt [OF c, of "n + 1"] that r cs
    by (simp add: arrows_def totalSections_def)
  show "zoomedAt (n - 1) (snd (arrows ''ArrowLeft'' s))" if "1 < n"
    using zoomToSection_zoomedAt [OF c, of "n - 1"] that r cs
    by (simp add: arrows_def totalSections_def)
qed

lemma timeline_keydown_zoomed:
  "isZoomed s \<Longrightarrow> timeline_keydown key s = arrows key s"
  by (auto simp: timeline_keydown_def if_contains_def isZoomed_def has_class_def split: option.splits)

lemma set_node_fields:
  "innerWidth (set_node m x s) = innerWidth s"
  "currentSection (set_node m x s) = currentSection s"
  "bodyOverflow (set_node m x s) = bodyOverflow s"
  "n \<noteq> m \<Longrightarrow> elems (set_node m x s) n = elems s n"
  "isMobile (set_node m x s) = isMobile s"
  by (simp_all add: set_node_def isMobile_def)

lemma classList_add_set_node:
  "n \<noteq> m \<Longrightarrow> classList_add n ts (set_node m x s) = apsnd (set_node m x) (classList_add n ts s)"
  by (auto simp: classList_add_def set_node_def fun_upd_twist split: option.splits)

lemma classList_remove_set_node:
  "n \<noteq> m \<Longrightarrow> classList_remove n ts (set_node m x s) = apsnd (set_node m x) (classList_remove n ts s)"
  by (auto simp: classList_remove_def set_node_def fun_upd_twist split: option.splits)

lemma set_disabled_set_node:
  "n \<noteq> m \<Longrightarrow> set_disabled n b (set_node m x s) = apsnd (set_node m x) (set_disabled n b s)"
  by (auto simp: set_disabled_def set_node_def fun_upd_twist split: option.splits)

lemma andThen_set_node:
  assumes "\<And>s. f (set_node m x s) = apsnd (set_node m x) (f s)"
    and "\<And>s. g (set_node m x s) = apsnd (set_node m x) (g s)"
  shows "andThen f g (set_node m x s) = apsnd (set_node m x) (andThen f g s)"
  by (cases "f s") (auto simp: andThen_def assms split: outcome.splits)

lemma if_contains_set_node:
  assumes "n \<noteq> m"
    and "\<And>s. f (set_node m x s) = apsnd (set_node m x) (f s)"
    and "\<And>s. g (set_node m x s) = apsnd (set_node m x) (g s)"
  shows "if_contains n t f g (set_node m x s) = apsnd (set_node m x) (if_contains n t f g s)"
  using assms(1) by (auto simp: if_contains_def set_node_fields assms(2,3) split: option.splits)

lemma updateNavButtons_set_node:
  assumes "m \<noteq> TimelineNavPrev" "m \<noteq> TimelineNavNext"
  shows "updateNavButtons (set_node m x s) = apsnd (set_node m x) (updateNavButtons s)"
proof -
  have "andThen (set_disabled TimelineNavPrev a) (set_disabled TimelineNavNext b) (set_node m x s)
      = apsnd (set_node m x) (andThen (set_disabled TimelineNavPrev a) (set_disabled TimelineNavNext b) s)"
    for a b
    using assms by (intro andThen_set_node set_disabled_set_node) auto
  then show ?thesis by (simp add: updateNavButtons_def set_node_fields)
qed

lemma set_node_cs:
  "(set_node m x s)\<lparr>currentSection := v\<rparr> = set_node m x (s\<lparr>currentSection := v\<rparr>)"
  by (simp add: set_node_def)

lemma zoomToSection_set_node:
  assumes "m \<noteq> TimelineContainer" "m \<noteq> TimelineNavPrev" "m \<noteq> TimelineNavNext"
  shows "zoomToSection v (set_node m x s) = apsnd (set_node m x) (zoomToSection v s)"
  unfolding zoomToSection_def set_node_cs
  using assms
  by (intro andThen_set_node classList_remove_set_node classList_add_set_node updateNavButtons_set_node) auto

lemma arrows_set_node:
  assumes "m \<noteq> TimelineContainer" "m \<noteq> TimelineNavPrev" "m \<noteq> TimelineNavNext"
  shows "arrows key (set_node m x s) = apsnd (set_node m x) (arrows key s)"
  using assms by (simp add: arrows_def set_node_fields zoomToSection_set_node)

lemma timeline_keydown_set_node:
  assumes "m \<noteq> TimelineContainer" "m \<noteq> TimelineNavPrev" "m \<noteq> TimelineNavNext"
  shows "timeline_keydown key (set_node m x s) = apsnd (set_node m x) (timeline_keydown key s)"
proof -
  have "if_contains TimelineContainer ''zoomed'' (arrows key) skip (set_node m x s)
      = apsnd (set_node m x) (if_contains TimelineContainer ''zoomed'' (arrows key) skip s)"
    using assms by (intro if_contains_set_node arrows_set_node) (auto simp: skip_def)
  then show ?thesis using assms by (simp add: timeline_keydown_def set_node_fields arrows_set_node)
qed

lemma classList_frame:
  "innerWidth (snd (classList_add n ts s)) = innerWidth s"
  "innerWidth (snd (classList_remove n ts s)) = innerWidth s"
  "k \<noteq> n \<Longrightarrow> elems (snd (classList_add n ts s)) k = elems s k"
  "k \<noteq> n \<Longrightarrow> elems (snd (classList_remove n ts s)) k = elems s k"
  by (auto simp: classList_add_def classList_remove_def split: option.splits)

lemma active_added:
  "present n s \<Longrightarrow> fst (classList_add n [''active''] s) = Done"
  "present n s \<Longrightarrow> has_class n ''active'' (snd (classList_add n [''active''] s))"
  by (auto simp: present_def classList_add_def token_error_fixed has_class_def token_add_def)

lemma active_removed:
  "present n s \<Longrightarrow> fst (classList_remove n [''active''] s) = Done"
  "\<not> has_class n ''active'' (snd (classList_remove n [''active''] s))"
  by (auto simp: present_def classList_remove_def token_error_fixed has_class_def split: option.splits)

lemma has_class_other:
  "k \<noteq> n \<Longrightarrow> has_class k t (snd (classList_add n ts s)) = has_class k t s"
  "k \<noteq> n \<Longrightarrow> has_class k t (snd (classList_remove n ts s)) = has_class k t s"
  by (simp_all add: has_class_def classList_frame)

lemma has_class_overflow: "has_class k t (s\<lparr>bodyOverflow := v\<rparr>) = has_class k t s"
  by (simp add: has_class_def)

lemma Modal_close_snd:
  "snd (Modal_close m s) = (if present m s
       then (snd (classList_remove m [''active''] s))\<lparr>bodyOverflow := []\<rparr> else s)"
  by (auto simp: Modal_close_def present_def snd_andThen active_removed [unfolded present_def])

lemma Modal_close_fst: "fst (Modal_close m s) = Done"
  by (auto simp: Modal_close_def fst_andThen active_removed [unfolded present_def] split: option.splits)

lemma Modal_open_snd:
  "snd (Modal_open m s) = (if present m s
       then (snd (classList_add m [''active''] s))\<lparr>bodyOverflow := ''hidden''\<rparr> else s)"
  by (auto simp: Modal_open_def present_def snd_andThen active_added [unfolded present_def])

lemma overflow_views:
  "present k (s\<lparr>bodyOverflow := v\<rparr>) = present k s"
  "isMobile (s\<lparr>bodyOverflow := v\<rparr>) = isMobile s"
  by (simp_all add: present_def isMobile_def)

lemma Modal_close_views:
  "\<not> has_class m ''active'' (snd (Modal_close m s))"
  "k \<noteq> m \<Longrightarrow> has_class k t (snd (Modal_close m s)) = has_class k t s"
  "k \<noteq> m \<Longrightarrow> elems (snd (Modal_close m s)) k = elems s k"
  "currentSection (snd (Modal_close m s)) = currentSection s"
  "innerWidth (snd (Modal_close m s)) = innerWidth s"
proof -
  show "\<not> has_class m ''active'' (snd (Modal_close m s))"
  proof (cases "present m s")
    case True
    then show ?thesis by (simp add: Modal_close_snd has_class_overflow active_removed)
  next
    case False
    then show ?thesis by (simp add: Modal_close_snd) (simp add: present_def has_class_def)
  qed
qed (simp_all add: Modal_close_snd has_class_overflow has_class_other classList_frame classList_cs)

lemma Modal_open_views:
  "present m s \<Longrightarrow> has_class m ''active'' (snd (Modal_open m s))"
  "k \<noteq> m \<Longrightarrow> has_class k t (snd (Modal_open m s)) = has_class k t s"
  "k \<noteq> m \<Longrightarrow> elems (snd (Modal_open m s)) k = elems s k"
  "currentSection (snd (Modal_open m s)) = currentSection s"
  "innerWidth (snd (Modal_open m s)) = innerWidth s"
  "present k (snd (Modal_open m s)) = present k s"
  by (simp_all add: Modal_open_snd has_class_overflow active_added has_class_other classList_frame
      classList_cs present_classList overflow_views)

lemma closeSidebar_views:
  "present MenuToggle s \<Longrightarrow> \<not> has_class SidebarNav ''active'' (snd (closeSidebar s))"
  "k \<noteq> MenuToggle \<Longrightarrow> k \<noteq> SidebarNav \<Longrightarrow> k \<noteq> SidebarOverlay \<Longrightarrow>
     elems (snd (closeSidebar s)) k = elems s k"
  "currentSection (snd (closeSidebar s)) = currentSection s"
  "innerWidth (snd (closeSidebar s)) = innerWidth s"
  by (simp_all add: closeSidebar_def snd_andThen active_removed has_class_other has_class_overflow
      classList_frame classList_cs)

lemma closeSidebar_unmoved:
  "\<not> present MenuToggle s \<Longrightarrow> closeSidebar s = (Threw TypeError, s)"
  by (simp add: closeSidebar_def andThen_def classList_remove_def present_def)

lemma openSidebar_views:
  "present MenuToggle s \<Longrightarrow> present SidebarNav s \<Longrightarrow> has_class SidebarNav ''active'' (snd (openSidebar s))"
  "k \<noteq> MenuToggle \<Longrightarrow> k \<noteq> SidebarNav \<Longrightarrow> k \<noteq> SidebarOverlay \<Longrightarrow>
     elems (snd (openSidebar s)) k = elems s k"
  "currentSection (snd (openSidebar s)) = currentSection s"
  "innerWidth (snd (openSidebar s)) = innerWidth s"
  "present k (snd (openSidebar s)) = present k s"
  by (simp_all add: openSidebar_def snd_andThen active_added has_class_other has_class_overflow
      classList_frame classList_cs present_classList overflow_views)

lemma timeline_views_cong:
  assumes "elems s' TimelineContainer = elems s TimelineContainer" "currentSection s' = currentSection s"
  shows "zoomedAt n s' = zoomedAt n s" "isZoomed s' = isZoomed s" "zoom_markers s' = zoom_markers s"
    "idle s' = idle s"
  using assms by (simp_all add: zoomedAt_def idle_def isZoomed_def has_class_def zoom_markers_def)

lemma busy_page_facts:
  "zoomedAt 2 busy_page" "\<not> isMobile busy_page" "AchievementModal_isActive busy_page"
  "isSidebarActive busy_page" "\<not> PartnerModal_isActive busy_page" "present n busy_page"
proof -
  let ?o = "snd (openSidebar (zoomed2 1024))"
  have e: "elems busy_page TimelineContainer = elems (zoomed2 1024) TimelineContainer"
    "currentSection busy_page = currentSection (zoomed2 1024)"
    by (simp_all add: busy_page_def Modal_open_views openSidebar_views)
  show "zoomedAt 2 busy_page"
    using timeline_views_cong(1) [OF e] zoomed2_zoomedAt by simp
  show "\<not> isMobile busy_page"
    by (simp add: busy_page_def isMobile_def Modal_open_views openSidebar_views zoomed2_width)
  show "present n busy_page"
    by (simp add: busy_page_def Modal_open_views openSidebar_views zoomed2_present)
  show "AchievementModal_isActive busy_page"
    by (simp add: busy_page_def AchievementModal_isActive_def Modal_open_views openSidebar_views zoomed2_present)
  show "isSidebarActive busy_page"
    by (simp add: busy_page_def isSidebarActive_def Modal_open_views openSidebar_views zoomed2_present)
  have "\<not> has_class PartnerModalEl ''active'' (zoomed2 1024)"
    by (simp add: zoomed2_def has_class_def zoomToSection_frame loaded_def plain_def)
  then show "\<not> PartnerModal_isActive busy_page"
    by (simp add: busy_page_def PartnerModal_isActive_def Modal_open_views has_class_def openSidebar_views)
qed

subsection \<open>C10: the arrow keys do not look at the other contexts\<close>

text \<open>
  C10. On desktop with the timeline zoomed, a press of the right arrow key (below section
  3) or of the left arrow key (above section 1) moves the zoomed section, whatever the
  state of the modals and of the sidebar: the theorem asks nothing of them. The
  timeline's \<open>keydown\<close> listener reads only the width, the container and
  \<open>currentSection\<close>: replacing the element of a modal or of the sidebar by any other, or
  removing it, changes neither what the listener returns nor what it does.
\<close>

theorem arrow_keys_ignore_other_contexts:
  assumes "\<not> isMobile s" "zoomedAt n s"
  shows "(n < 3 \<longrightarrow> zoomedAt (n + 1) (snd (document_keydown ''ArrowRight'' s)))
       \<and> (1 < n \<longrightarrow> zoomedAt (n - 1) (snd (document_keydown ''ArrowLeft'' s)))
       \<and> (m \<in> {AchievementModalEl, PartnerModalEl, MenuToggle, SidebarNav, SidebarOverlay} \<longrightarrow>
            timeline_keydown key (set_node m x s) = apsnd (set_node m x) (timeline_keydown key s))"
proof -
  from assms(2) have z: "isZoomed s" by (simp add: zoomedAt_def)
  have "zoomedAt (n + 1) (snd (document_keydown ''ArrowRight'' s))" if "n < 3"
    using arrows_moves(1) [OF assms(2) that]
    by (simp add: document_keydown_arrow timeline_keydown_zoomed z)
  moreover have "zoomedAt (n - 1) (snd (document_keydown ''ArrowLeft'' s))" if "1 < n"
    using arrows_moves(2) [OF assms(2) that]
    by (simp add: document_keydown_arrow timeline_keydown_zoomed z)
  moreover have "timeline_keydown key (set_node m x s) = apsnd (set_node m x) (timeline_keydown key s)"
    if "m \<in> {AchievementModalEl, PartnerModalEl, MenuToggle, SidebarNav, SidebarOverlay}"
    using that by (intro timeline_keydown_set_node) auto
  ultimately show ?thesis by blast
qed

theorem arrow_keys_ignore_other_contexts_witness:
  "\<not> isMobile busy_page \<and> zoomedAt 2 busy_page
   \<and> AchievementModal_isActive busy_page \<and> isSidebarActive busy_page
   \<and> zoomedAt 3 (snd (document_keydown ''ArrowRight'' busy_page))
   \<and> zoomedAt 1 (snd (document_keydown ''ArrowLeft'' busy_page))
   \<and> AchievementModal_isActive (snd (document_keydown ''ArrowRight'' busy_page))
   \<and> isSidebarActive (snd (document_keydown ''ArrowRight'' busy_page))
   \<and> timeline_keydown ''ArrowRight'' (set_node AchievementModalEl None busy_page)
       = apsnd (set_node AchievementModalEl None) (timeline_keydown ''ArrowRight'' busy_page)"
proof -
  have z: "isZoomed busy_page" using busy_page_facts(1) by (simp add: zoomedAt_def)
  have cs: "currentSection busy_page = Num 2" using busy_page_facts(1) by (simp add: zoomedAt_def)
  have k: "snd (document_keydown ''ArrowRight'' busy_page) = snd (zoomToSection ''3'' busy_page)"
    by (simp add: document_keydown_arrow timeline_keydown_zoomed z arrows_def cs totalSections_def toString_small)
  have a: "AchievementModal_isActive (snd (document_keydown ''ArrowRight'' busy_page))"
    "isSidebarActive (snd (document_keydown ''ArrowRight'' busy_page))"
    using busy_page_facts(3,4)
    by (simp_all add: k AchievementModal_isActive_def isSidebarActive_def has_class_def zoomToSection_frame)
  from arrow_keys_ignore_other_contexts [OF busy_page_facts(2,1), of AchievementModalEl "''ArrowRight''" None]
  show ?thesis using a by (simp add: busy_page_facts)
qed

lemma timeline_keydown_Escape: "snd (timeline_keydown ''Escape'' s) = s"
  by (auto simp: timeline_keydown_def if_contains_def skip_def arrows_def split: option.splits)

lemma document_keydown_Escape:
  "snd (document_keydown ''Escape'' s) = snd (keyboardHandler_keydown ''Escape'' s)"
proof -
  obtain r where "timeline_keydown ''Escape'' s = (r, s)"
    using timeline_keydown_Escape [of s] by (cases "timeline_keydown ''Escape'' s") simp
  then show ?thesis by (simp add: document_keydown_def split: prod.splits)
qed

lemma zoomOut_other_class:
  "k \<noteq> TimelineContainer \<Longrightarrow> has_class k t (snd (zoomOut s)) = has_class k t s"
  by (auto simp: zoomOut_def snd_andThen has_class_def classList_frame updateNavButtons_def
      set_disabled_def andThen_def classList_remove_def split: option.splits)

subsection \<open>C1: what one press of Escape closes\<close>

text \<open>
  C1, as amended. A press of Escape acts on the first open context only, in the order
  achievement modal, partner modal, sidebar, timeline zoom. An open modal is closed; the
  open sidebar is closed (on a page that has the hamburger button); the timeline zoom is
  closed on desktop, and on mobile, where \<open>zoomOut\<close> does nothing, the page stays as it
  is. The open or closed state of every context of lower priority is unchanged, and with
  nothing open the press changes nothing. In particular, with a modal and the sidebar
  open, one press closes the modal and the sidebar stays open.
\<close>

theorem escape_closes_first_open_context:
  "(AchievementModal_isActive s \<longrightarrow>
      \<not> AchievementModal_isActive (snd (document_keydown ''Escape'' s)) \<and>
      PartnerModal_isActive (snd (document_keydown ''Escape'' s)) = PartnerModal_isActive s \<and>
      isSidebarActive (snd (document_keydown ''Escape'' s)) = isSidebarActive s \<and>
      isZoomed (snd (document_keydown ''Escape'' s)) = isZoomed s)
   \<and> (\<not> AchievementModal_isActive s \<and> PartnerModal_isActive s \<longrightarrow>
      \<not> AchievementModal_isActive (snd (document_keydown ''Escape'' s)) \<and>
      \<not> PartnerModal_isActive (snd (document_keydown ''Escape'' s)) \<and>
      isSidebarActive (snd (document_keydown ''Escape'' s)) = isSidebarActive s \<and>
      isZoomed (snd (document_keydown ''Escape'' s)) = isZoomed s)
   \<and> (\<not> AchievementModal_isActive s \<and> \<not> PartnerModal_isActive s \<and> isSidebarActive s \<and>
       present MenuToggle s \<longrightarrow>
      \<not> AchievementModal_isActive (snd (document_keydown ''Escape'' s)) \<and>
      \<not> PartnerModal_isActive (snd (document_keydown ''Escape'' s)) \<and>
      \<not> isSidebarActive (snd (document_keydown ''Escape'' s)) \<and>
      isZoomed (snd (document_keydown ''Escape'' s)) = isZoomed s)
   \<and> (\<not> AchievementModal_isActive s \<and> \<not> PartnerModal_isActive s \<and> \<not> isSidebarActive s \<and>
       isZoomed s \<and> \<not> isMobile s \<longrightarrow>
      \<not> AchievementModal_isActive (snd (document_keydown ''Escape'' s)) \<and>
      \<not> PartnerModal_isActive (snd (document_keydown ''Escape'' s)) \<and>
      \<not> isSidebarActive (snd (document_keydown ''Escape'' s)) \<and>
      idle (snd (document_keydown ''Escape'' s)))
   \<and> (\<not> AchievementModal_isActive s \<and> \<not> PartnerModal_isActive s \<and> \<not> isSidebarActive s \<and>
       isZoomed s \<and> isMobile s \<longrightarrow> snd (document_keydown ''Escape'' s) = s)
   \<and> (\<not> AchievementModal_isActive s \<and> \<not> PartnerModal_isActive s \<and> \<not> isSidebarActive s \<and>
       \<not> isZoomed s \<longrightarrow> snd (document_keydown ''Escape'' s) = s)"
proof -
  let ?s' = "snd (keyboardHandler_keydown ''Escape'' s)"
  have A: "?s' = snd (Modal_close AchievementModalEl s)" if "AchievementModal_isActive s"
    using that by (simp add: keyboardHandler_keydown_def)
  have B: "?s' = snd (Modal_close PartnerModalEl s)"
    if "\<not> AchievementModal_isActive s" "PartnerModal_isActive s"
    using that by (simp add: keyboardHandler_keydown_def)
  have C: "?s' = snd (closeSidebar s)"
    if "\<not> AchievementModal_isActive s" "\<not> PartnerModal_isActive s" "isSidebarActive s"
    using that by (simp add: keyboardHandler_keydown_def)
  have D: "?s' = snd (zoomOut s)"
    if "\<not> AchievementModal_isActive s" "\<not> PartnerModal_isActive s" "\<not> isSidebarActive s" "isZoomed s"
    using that by (simp add: keyboardHandler_keydown_def)
  have F: "?s' = s"
    if "\<not> AchievementModal_isActive s" "\<not> PartnerModal_isActive s" "\<not> isSidebarActive s" "\<not> isZoomed s"
    using that by (simp add: keyboardHandler_keydown_def)
  have c: "elems s TimelineContainer \<noteq> None" if "isZoomed s"
    using that by (auto simp: isZoomed_def has_class_def split: option.splits)
  note defs = AchievementModal_isActive_def PartnerModal_isActive_def isSidebarActive_def isZoomed_def
  show ?thesis
    unfolding document_keydown_Escape
  proof (intro conjI impI)
    assume a: "AchievementModal_isActive s"
    show "\<not> AchievementModal_isActive ?s'" "PartnerModal_isActive ?s' = PartnerModal_isActive s"
      "isSidebarActive ?s' = isSidebarActive s" "isZoomed ?s' = isZoomed s"
      by (simp_all add: A [OF a] defs Modal_close_views)
  next
    assume a: "\<not> AchievementModal_isActive s \<and> PartnerModal_isActive s"
    then have e: "?s' = snd (Modal_close PartnerModalEl s)" by (simp add: B)
    show "\<not> AchievementModal_isActive ?s'" "\<not> PartnerModal_isActive ?s'"
      "isSidebarActive ?s' = isSidebarActive s" "isZoomed ?s' = isZoomed s"
      using a by (simp_all add: e defs Modal_close_views)
  next
    assume a: "\<not> AchievementModal_isActive s \<and> \<not> PartnerModal_isActive s \<and> isSidebarActive s \<and>
       present MenuToggle s"
    then have e: "?s' = snd (closeSidebar s)" by (simp add: C)
    show "\<not> AchievementModal_isActive ?s'" "\<not> PartnerModal_isActive ?s'"
      "\<not> isSidebarActive ?s'" "isZoomed ?s' = isZoomed s"
      using a by (simp_all add: e defs closeSidebar_views has_class_def [of AchievementModalEl]
          has_class_def [of PartnerModalEl] has_class_def [of TimelineContainer])
  next
    assume a: "\<not> AchievementModal_isActive s \<and> \<not> PartnerModal_isActive s \<and> \<not> isSidebarActive s \<and>
       isZoomed s \<and> \<not> isMobile s"
    then have e: "?s' = snd (zoomOut s)" by (simp add: D)
    from a c have i: "idle (snd (zoomOut s))" by (simp add: zoomOut_desktop_idle)
    show "\<not> AchievementModal_isActive ?s'" "\<not> PartnerModal_isActive ?s'"
      "\<not> isSidebarActive ?s'" "idle ?s'"
      using a i by (simp_all add: e AchievementModal_isActive_def PartnerModal_isActive_def
          isSidebarActive_def zoomOut_other_class)
  next
    assume a: "\<not> AchievementModal_isActive s \<and> \<not> PartnerModal_isActive s \<and> \<not> isSidebarActive s \<and>
       isZoomed s \<and> isMobile s"
    then have e: "?s' = snd (zoomOut s)" by (simp add: D)
    show "?s' = s" using a by (simp add: e zoomOut_mobile)
  next
    assume a: "\<not> AchievementModal_isActive s \<and> \<not> PartnerModal_isActive s \<and> \<not> isSidebarActive s \<and>
       \<not> isZoomed s"
    then show "?s' = s" by (simp add: F)
  qed
qed

lemma loaded_flags:
  "\<not> AchievementModal_isActive (loaded w)" "\<not> PartnerModal_isActive (loaded w)"
  "\<not> isSidebarActive (loaded w)" "\<not> has_class k t (loaded w)"
  by (simp_all add: AchievementModal_isActive_def PartnerModal_isActive_def isSidebarActive_def
      has_class_def loaded_def plain_def)

lemma zoomToSection_other_class:
  "k \<noteq> TimelineContainer \<Longrightarrow> has_class k t (snd (zoomToSection x s)) = has_class k t s"
  by (auto simp: zoomToSection_def snd_andThen has_class_def classList_frame updateNavButtons_def
      set_disabled_def andThen_def classList_remove_def classList_add_def split: option.splits
      simp del: append.simps)

lemma zoomed2_flags:
  "\<not> AchievementModal_isActive (zoomed2 w)" "\<not> PartnerModal_isActive (zoomed2 w)"
  "\<not> isSidebarActive (zoomed2 w)"
  by (simp_all add: zoomed2_def AchievementModal_isActive_def PartnerModal_isActive_def
      isSidebarActive_def zoomToSection_other_class loaded_flags)

lemma mobile_page_flags:
  "\<not> AchievementModal_isActive mobile_page" "\<not> PartnerModal_isActive mobile_page"
  "\<not> isSidebarActive mobile_page" "isZoomed mobile_page"
proof -
  have d: "fst (zoomToSection ''1'' (loaded 500)) = Done"
    by (intro zoomToSection_Done) (simp_all add: loaded_present [unfolded present_def] is_ascii_space_def)
  have e: "mobile_page = snd (classList_add TimelineContainer [''mobile-mode''] (snd (zoomToSection ''1'' (loaded 500))))"
    by (simp add: mobile_page_eq snd_andThen d)
  show "\<not> AchievementModal_isActive mobile_page" "\<not> PartnerModal_isActive mobile_page"
    "\<not> isSidebarActive mobile_page"
    by (simp_all add: e AchievementModal_isActive_def PartnerModal_isActive_def
      isSidebarActive_def has_class_other zoomToSection_other_class loaded_flags)
  show "isZoomed mobile_page" using mobile_page_facts(3) by (simp add: zoomedAt_def)
qed

lemma sidebar_page_flags:
  "\<not> AchievementModal_isActive sidebar_page" "\<not> PartnerModal_isActive sidebar_page"
  "isSidebarActive sidebar_page" "present n sidebar_page" "\<not> isZoomed sidebar_page"
  by (simp_all add: sidebar_page_def AchievementModal_isActive_def PartnerModal_isActive_def
      isSidebarActive_def isZoomed_def openSidebar_views loaded_present has_class_def [of AchievementModalEl]
      has_class_def [of PartnerModalEl] has_class_def [of TimelineContainer])
    (simp_all add: loaded_def plain_def)

lemma partner_page_flags:
  "\<not> AchievementModal_isActive partner_page" "PartnerModal_isActive partner_page"
  "\<not> isSidebarActive partner_page" "\<not> isZoomed partner_page"
  by (simp_all add: partner_page_def AchievementModal_isActive_def PartnerModal_isActive_def
      isSidebarActive_def isZoomed_def Modal_open_views loaded_present loaded_flags)

theorem escape_closes_first_open_context_witness:
  "AchievementModal_isActive busy_page \<and> isSidebarActive busy_page \<and> isZoomed busy_page
   \<and> \<not> AchievementModal_isActive (snd (document_keydown ''Escape'' busy_page))
   \<and> isSidebarActive (snd (document_keydown ''Escape'' busy_page))
   \<and> isZoomed (snd (document_keydown ''Escape'' busy_page))
   \<and> PartnerModal_isActive partner_page
   \<and> \<not> PartnerModal_isActive (snd (document_keydown ''Escape'' partner_page))
   \<and> isSidebarActive sidebar_page \<and> present MenuToggle sidebar_page
   \<and> \<not> isSidebarActive (snd (document_keydown ''Escape'' sidebar_page))
   \<and> isZoomed (zoomed2 1024) \<and> \<not> isMobile (zoomed2 1024)
   \<and> idle (snd (document_keydown ''Escape'' (zoomed2 1024)))
   \<and> isZoomed mobile_page \<and> isMobile mobile_page
   \<and> snd (document_keydown ''Escape'' mobile_page) = mobile_page
   \<and> \<not> isZoomed (loaded 1024)
   \<and> snd (document_keydown ''Escape'' (loaded 1024)) = loaded 1024"
proof -
  have z: "isZoomed busy_page" using busy_page_facts(1) by (simp add: zoomedAt_def)
  from escape_closes_first_open_context [of busy_page]
       escape_closes_first_open_context [of partner_page]
       escape_closes_first_open_context [of sidebar_page]
       escape_closes_first_open_context [of "zoomed2 1024"]
       escape_closes_first_open_context [of mobile_page]
       escape_closes_first_open_context [of "loaded 1024"]
  show ?thesis
    by (simp add: busy_page_facts z partner_page_flags sidebar_page_flags zoomed2_flags
        zoomed2_markers zoomed2_mobile mobile_page_flags mobile_page_facts loaded_flags loaded_fresh)
qed

text \<open>
  C1 as stated fails on a phone: with the timeline zoom as the only, hence the first,
  open context, a press of Escape closes nothing.
\<close>

theorem escape_on_mobile_closes_nothing_counterexample:
  "isMobile mobile_page
   \<and> \<not> AchievementModal_isActive mobile_page \<and> \<not> PartnerModal_isActive mobile_page
   \<and> \<not> isSidebarActive mobile_page \<and> isZoomed mobile_page
   \<and> isZoomed (snd (document_keydown ''Escape'' mobile_page))
   \<and> snd (document_keydown ''Escape'' mobile_page) = mobile_page"
proof -
  have "snd (document_keydown ''Escape'' mobile_page) = snd (zoomOut mobile_page)"
    by (simp add: document_keydown_Escape keyboardHandler_keydown_def mobile_page_flags)
  then have "snd (document_keydown ''Escape'' mobile_page) = mobile_page"
    by (simp add: zoomOut_mobile mobile_page_facts)
  then show ?thesis by (simp add: mobile_page_flags mobile_page_facts)
qed

lemma absent_class: "\<not> present n s \<Longrightarrow> \<not> has_class n t s"
  by (simp add: present_def has_class_def)

lemma addEventListener_absent: "\<not> present n s \<Longrightarrow> addEventListener n s = (Threw TypeError, s)"
  by (simp add: present_def addEventListener_def)

lemma addEventListener_present: "present n s \<Longrightarrow> addEventListener n s = (Done, s)"
  by (auto simp: present_def addEventListener_def)

lemma initSidebar_absent:
  assumes "\<not> present MenuToggle s \<or> \<not> present SidebarOverlay s \<or> \<not> present SidebarNav s"
  shows "initSidebar s = (Threw TypeError, s)"
proof (cases "present MenuToggle s")
  case False
  then show ?thesis by (simp add: initSidebar_def andThen_def addEventListener_absent)
next
  case m: True
  show ?thesis
  proof (cases "present SidebarOverlay s")
    case False
    with m show ?thesis
      by (simp add: initSidebar_def andThen_def addEventListener_absent addEventListener_present)
  next
    case True
    with m assms show ?thesis
      by (simp add: initSidebar_def andThen_def addEventListener_absent addEventListener_present)
  qed
qed

lemma updateNavButtons_absent:
  assumes "\<not> present TimelineNavPrev s \<or> \<not> present TimelineNavNext s"
  shows "fst (updateNavButtons s) = Threw TypeError"
  using assms
  by (auto simp: updateNavButtons_def andThen_def set_disabled_def present_def split: option.splits)

lemma zoomToSection_1_outcome:
  "fst (zoomToSection ''1'' s) = Done \<or> fst (zoomToSection ''1'' s) = Threw TypeError"
  by (auto simp: zoomToSection_def andThen_def classList_remove_def classList_add_def token_error_fixed
      token_error_def is_ascii_space_def updateNavButtons_def set_disabled_def split: option.splits)

lemma mobile_mode_outcome:
  "fst (classList_add TimelineContainer [''mobile-mode''] s) = Done \<or>
   fst (classList_add TimelineContainer [''mobile-mode''] s) = Threw TypeError"
  by (auto simp: classList_add_def token_error_fixed split: option.splits)

lemma listeners_absent:
  assumes "\<not> present TimelineZoomOut s \<or> \<not> present TimelineNavPrev s \<or> \<not> present TimelineNavNext s"
  shows "fst (andThen (addEventListener TimelineZoomOut)
          (andThen (addEventListener TimelineNavPrev) (addEventListener TimelineNavNext)) s) = Threw TypeError"
  using assms
  by (cases "present TimelineZoomOut s"; cases "present TimelineNavPrev s")
     (simp_all add: andThen_def addEventListener_absent addEventListener_present)

lemma setupInteractions_absent:
  assumes "\<not> present TimelineZoomOut s \<or> \<not> present TimelineNavPrev s \<or> \<not> present TimelineNavNext s"
  shows "fst (setupInteractions s) = Threw TypeError"
proof (cases "isMobile s")
  case False
  then show ?thesis using listeners_absent [OF assms]
    by (simp add: setupInteractions_def fst_andThen [where g = "andThen _ _"])
next
  case True
  let ?z = "snd (zoomToSection ''1'' s)"
  let ?m = "snd (classList_add TimelineContainer [''mobile-mode''] ?z)"
  have p: "\<not> present TimelineZoomOut ?m \<or> \<not> present TimelineNavPrev ?m \<or> \<not> present TimelineNavNext ?m"
    using assms by (simp add: present_classList zoomToSection_present_iff)
  have pz: "\<not> present TimelineZoomOut ?z \<or> \<not> present TimelineNavPrev ?z \<or> \<not> present TimelineNavNext ?z"
    using assms by (simp add: zoomToSection_present_iff)
  from zoomToSection_1_outcome [of s] mobile_mode_outcome [of ?z] True
  show ?thesis using listeners_absent [OF p] 
    by (auto simp: setupInteractions_def fst_andThen snd_andThen toString_small)
qed

subsection \<open>C6: absent elements\<close>

text \<open>
  C6, as amended. An absent element makes an operation a no-op only where the script
  guards the lookup: \<open>Modal.close\<close> and \<open>Modal.open\<close> return at once, the \<open>isActive\<close>,
  \<open>isSidebarActive\<close> and \<open>isZoomed\<close> tests are false, and so the Escape listener does
  nothing on a page with no modal, no sidebar and no timeline container. The lookups that
  are not guarded raise a \<open>TypeError\<close> on \<open>null\<close>: \<open>updateNavButtons\<close> without one of the
  navigation buttons, \<open>initSidebar\<close> without the hamburger, the overlay or the sidebar,
  \<open>setupInteractions\<close> without the zoom-out control or a navigation button.
\<close>

theorem absent_elements_guarded_or_not:
  "(\<not> present m s \<longrightarrow> Modal_close m s = (Done, s) \<and> Modal_open m s = (Done, s))
   \<and> (\<not> present AchievementModalEl s \<longrightarrow> \<not> AchievementModal_isActive s)
   \<and> (\<not> present PartnerModalEl s \<longrightarrow> \<not> PartnerModal_isActive s)
   \<and> (\<not> present SidebarNav s \<longrightarrow> \<not> isSidebarActive s)
   \<and> (\<not> present TimelineContainer s \<longrightarrow> \<not> isZoomed s)
   \<and> (\<not> present AchievementModalEl s \<and> \<not> present PartnerModalEl s \<and> \<not> present SidebarNav s \<and>
       \<not> present TimelineContainer s \<longrightarrow> keyboardHandler_keydown key s = (Done, s))
   \<and> (\<not> present TimelineNavPrev s \<or> \<not> present TimelineNavNext s \<longrightarrow>
       fst (updateNavButtons s) = Threw TypeError)
   \<and> (\<not> present MenuToggle s \<or> \<not> present SidebarOverlay s \<or> \<not> present SidebarNav s \<longrightarrow>
       initSidebar s = (Threw TypeError, s))
   \<and> (\<not> present TimelineZoomOut s \<or> \<not> present TimelineNavPrev s \<or> \<not> present TimelineNavNext s \<longrightarrow>
       fst (setupInteractions s) = Threw TypeError)"
proof -
  have "Modal_close m s = (Done, s) \<and> Modal_open m s = (Done, s)" if "\<not> present m s"
    using that by (simp add: Modal_close_def Modal_open_def present_def)
  moreover have "keyboardHandler_keydown key s = (Done, s)"
    if "\<not> present AchievementModalEl s \<and> \<not> present PartnerModalEl s \<and> \<not> present SidebarNav s \<and>
       \<not> present TimelineContainer s"
    using that
    by (simp add: keyboardHandler_keydown_def AchievementModal_isActive_def PartnerModal_isActive_def
        isSidebarActive_def isZoomed_def absent_class)
  ultimately show ?thesis
    using updateNavButtons_absent [of s] initSidebar_absent [of s] setupInteractions_absent [of s]
    by (simp add: AchievementModal_isActive_def PartnerModal_isActive_def
        isSidebarActive_def isZoomed_def absent_class)
qed

lemma bare_absent: "\<not> present n bare"
  by (simp add: bare_def present_def)

theorem absent_elements_guarded_or_not_witness:
  "\<not> present AchievementModalEl bare
   \<and> Modal_close AchievementModalEl bare = (Done, bare) \<and> Modal_open AchievementModalEl bare = (Done, bare)
   \<and> \<not> AchievementModal_isActive bare \<and> \<not> PartnerModal_isActive bare
   \<and> \<not> isSidebarActive bare \<and> \<not> isZoomed bare
   \<and> keyboardHandler_keydown ''Escape'' bare = (Done, bare)
   \<and> fst (updateNavButtons bare) = Threw TypeError
   \<and> initSidebar bare = (Threw TypeError, bare)
   \<and> fst (setupInteractions bare) = Threw TypeError"
  using absent_elements_guarded_or_not [of AchievementModalEl bare "''Escape''"]
  by (simp add: bare_absent)

text \<open>
  C6 as stated fails: without the previous button \<open>updateNavButtons\<close> raises, without
  the hamburger \<open>initSidebar\<close> raises, and without the container \<open>zoomToSection\<close> raises
  after it has changed \<open>currentSection\<close>.
\<close>

theorem unguarded_lookup_raises_counterexample:
  "\<not> present TimelineNavPrev (without TimelineNavPrev (loaded 1024))
   \<and> fst (updateNavButtons (without TimelineNavPrev (loaded 1024))) = Threw TypeError
   \<and> \<not> present MenuToggle (without MenuToggle (loaded 1024))
   \<and> fst (initSidebar (without MenuToggle (loaded 1024))) = Threw TypeError
   \<and> \<not> present TimelineContainer (without TimelineContainer (loaded 500))
   \<and> zoomToSection ''2'' (without TimelineContainer (loaded 500))
       = (Threw TypeError, (without TimelineContainer (loaded 500))\<lparr>currentSection := Num 2\<rparr>)
   \<and> (without TimelineContainer (loaded 500))\<lparr>currentSection := Num 2\<rparr> \<noteq> without TimelineContainer (loaded 500)"
proof -
  have a: "\<not> present n (without n s)" for n s by (simp add: without_def present_def)
  have c: "elems (without TimelineContainer (loaded 500)) TimelineContainer = None"
    by (simp add: without_def)
  have n: "currentSection ((without TimelineContainer (loaded 500))\<lparr>currentSection := Num 2\<rparr>)
      \<noteq> currentSection (without TimelineContainer (loaded 500))"
    by (simp add: without_def loaded_def)
  then have ne: "(without TimelineContainer (loaded 500))\<lparr>currentSection := Num 2\<rparr> \<noteq> without TimelineContainer (loaded 500)"
    by metis
  show ?thesis
    using ne
    by (simp add: a updateNavButtons_absent initSidebar_absent zoomToSection_absent [OF c] parse_2)
qed

lemma store_fold:
  "k \<noteq> ''__proto__'' \<Longrightarrow>
   foldl (\<lambda>own (key, text). js_set own key text) m xs k =
     (case map_of (rev xs) k of Some v \<Rightarrow> Some v | None \<Rightarrow> m k)"
  by (induction xs rule: rev_induct) (auto simp: js_set_def split: option.splits)

lemma stored_text:
  "k \<noteq> ''__proto__'' \<Longrightarrow> last_text_of_key (document s) k = Some t \<Longrightarrow>
   originalTexts (storeOriginalTexts s) k = Some t"
  by (simp add: storeOriginalTexts_def store_fold last_text_of_key_def)

lemma store_frame: "document (storeOriginalTexts s) = document s"
  by (simp add: storeOriginalTexts_def)

lemma toggle_first_keeps:
  "toggle_first c force d = Some d' \<Longrightarrow>
     textContent d' = textContent d \<and> outer_i18n_elements d' = outer_i18n_elements d"
  "toggle_first_child c force ds = Some ds' \<Longrightarrow>
     map textContent ds' = map textContent ds \<and>
     map outer_i18n_elements ds' = map outer_i18n_elements ds"
  by (induction c force d and c force ds arbitrary: d' and ds'
      rule: toggle_first_toggle_first_child.induct)
     (auto split: if_splits option.splits)

lemma concat_map_all2:
  "(\<And>x. x \<in> set xs \<Longrightarrow> list_all2 R (f x) (g x)) \<Longrightarrow>
   list_all2 R (concat (map f xs)) (concat (map g xs))"
  by (induction xs) (auto intro: list_all2_appendI)

lemma text_children_text: "concat (map textContent (text_children v)) = v"
  by (simp add: text_children_def)

lemma set_texts_outer:
  "list_all2 (\<lambda>a b. fst b = fst a \<and> (\<forall>v. new (fst a) = Some v \<longrightarrow> snd b = v))
     (outer_i18n_elements d) (outer_i18n_elements (set_texts new d))"
proof (induction d)
  case (TextNode t)
  show ?case by simp
next
  case (ElementNode k cl cs)
  show ?case
  proof (cases k)
    case None
    with ElementNode show ?thesis
      by (simp add: comp_def concat_map_all2)
  next
    case (Some key)
    then show ?thesis
      by (cases "new key") (simp_all add: text_children_text)
  qed
qed

lemma switchLanguage_frame:
  "originalTexts (snd (switchLanguage fnText de lang s)) = originalTexts s"
  by (simp add: switchLanguage_def Let_def split: option.splits)

lemma switchLanguage_outer:
  "list_all2 (\<lambda>a b. fst b = fst a \<and>
       (fst (switchLanguage fnText de lang s) = Done \<longrightarrow>
          (\<forall>v. translate fnText de lang (originalTexts s) (fst a) = Some v \<longrightarrow> snd b = v)))
     (outer_i18n_elements (document s))
     (outer_i18n_elements (document (snd (switchLanguage fnText de lang s))))"
proof (cases "toggle_first ''lang-en'' (lang = ''en'') (document s)")
  case None
  then show ?thesis by (simp add: switchLanguage_def list_all2_same)
next
  case (Some d1)
  note d1 = toggle_first_keeps(1) [OF Some]
  show ?thesis
  proof (cases "toggle_first ''lang-de'' (lang = ''de'') d1")
    case None
    with Some d1 show ?thesis by (simp add: switchLanguage_def list_all2_same)
  next
    case (Some d2)
    note d2 = toggle_first_keeps(1) [OF Some]
    from set_texts_outer [of "translate fnText de lang (originalTexts s)" d2] d1 d2
    have "list_all2 (\<lambda>a b. fst b = fst a \<and>
              (\<forall>v. translate fnText de lang (originalTexts s) (fst a) = Some v \<longrightarrow> snd b = v))
            (outer_i18n_elements (document s))
            (outer_i18n_elements (set_texts (translate fnText de lang (originalTexts s)) d2))"
      by simp
    then have "list_all2 (\<lambda>a b. fst b = fst a \<and>
       (fst (switchLanguage fnText de lang s) = Done \<longrightarrow>
          (\<forall>v. translate fnText de lang (originalTexts s) (fst a) = Some v \<longrightarrow> snd b = v)))
            (outer_i18n_elements (document s))
            (outer_i18n_elements (set_texts (translate fnText de lang (originalTexts s)) d2))"
      by (rule list_all2_mono) simp
    with Some \<open>toggle_first ''lang-en'' (lang = ''en'') (document s) = Some d1\<close>
    show ?thesis by (simp add: switchLanguage_def)
  qed
qed

lemma translate_back:
  "orig k = Some t \<Longrightarrow> t \<noteq> [] \<Longrightarrow>
   translate fnText de ''en'' orig k = Some t"
  by (simp add: translate_def js_get_def)

lemma all2_keys:
  "list_all2 (\<lambda>a b. fst b = fst a \<and> Q a b) xs ys \<Longrightarrow> map fst ys = map fst xs"
  by (induction xs ys rule: list_all2_induct) simp_all

subsection \<open>C4: to the alternate locale and back\<close>

text \<open>
  C4, as amended. The baseline is kept per translation key, in a plain object. Take a
  translatable element that is not inside another translatable element, whose key is not
  \<open>__proto__\<close>, whose text at startup is not empty and is the text of the last element in
  document order that carries the same key (so it is, when no other element has the key).
  When the locale is switched to \<open>de\<close> and back to \<open>en\<close> and the switch back returns (it finds
  the labels \<open>.lang-en\<close> and \<open>.lang-de\<close>), the translatable elements that are not inside
  another one are the same as at startup, with the same keys, and this element has
  exactly its captured text. This holds for every table \<open>translations.de\<close> and whatever
  the engine gives as the text of a function.
\<close>

theorem round_trip_restores_stored_text:
  assumes "i < length (outer_i18n_elements (document s))"
    "outer_i18n_elements (document s) ! i = (k, t)"
    "t \<noteq> []" "k \<noteq> ''__proto__''"
    "last_text_of_key (document s) k = Some t"
    "fst (round_trip fnText de (storeOriginalTexts s)) = Done"
  shows "map fst (outer_i18n_elements (document (snd (round_trip fnText de (storeOriginalTexts s)))))
           = map fst (outer_i18n_elements (document s))
       \<and> outer_i18n_elements (document (snd (round_trip fnText de (storeOriginalTexts s)))) ! i = (k, t)"
proof -
  define s0 where "s0 = storeOriginalTexts s"
  define s1 where "s1 = snd (switchLanguage fnText de ''de'' s0)"
  define s2 where "s2 = snd (switchLanguage fnText de ''en'' s1)"
  have rt: "round_trip fnText de (storeOriginalTexts s) = switchLanguage fnText de ''en'' s1"
    by (simp add: round_trip_def s1_def s0_def)
  have d0: "document s0 = document s" by (simp add: s0_def store_frame)
  have o: "originalTexts s1 k = Some t"
    using stored_text [OF assms(4,5)] by (simp add: s1_def s0_def switchLanguage_frame)
  have tr: "translate fnText de ''en'' (originalTexts s1) k = Some t"
    using o assms(3) by (rule translate_back)
  have a: "list_all2 (\<lambda>a b. fst b = fst a \<and>
       (fst (switchLanguage fnText de ''de'' s0) = Done \<longrightarrow>
          (\<forall>v. translate fnText de ''de'' (originalTexts s0) (fst a) = Some v \<longrightarrow> snd b = v)))
     (outer_i18n_elements (document s)) (outer_i18n_elements (document s1))"
    using switchLanguage_outer [of fnText de "''de''" s0] by (simp add: d0 s1_def)
  have b: "list_all2 (\<lambda>a b. fst b = fst a \<and>
       (fst (switchLanguage fnText de ''en'' s1) = Done \<longrightarrow>
          (\<forall>v. translate fnText de ''en'' (originalTexts s1) (fst a) = Some v \<longrightarrow> snd b = v)))
     (outer_i18n_elements (document s1)) (outer_i18n_elements (document s2))"
    using switchLanguage_outer [of fnText de "''en''" s1] by (simp add: s2_def)
  have ka: "map fst (outer_i18n_elements (document s1)) = map fst (outer_i18n_elements (document s))"
    using a by (rule all2_keys)
  have kb: "map fst (outer_i18n_elements (document s2)) = map fst (outer_i18n_elements (document s1))"
    using b by (rule all2_keys)
  have la: "length (outer_i18n_elements (document s1)) = length (outer_i18n_elements (document s))"
    using a by (rule list_all2_lengthD [symmetric])
  have i1: "i < length (outer_i18n_elements (document s1))" using assms(1) la by simp
  have k1: "fst (outer_i18n_elements (document s1) ! i) = k"
    using list_all2_nthD [OF a assms(1)] assms(2) by simp
  have e: "fst (outer_i18n_elements (document s2) ! i) = k
         \<and> snd (outer_i18n_elements (document s2) ! i) = t"
    using list_all2_nthD [OF b i1] k1 tr assms(6) by (simp add: rt)
  have "outer_i18n_elements (document s2) ! i = (k, t)"
    using e by (cases "outer_i18n_elements (document s2) ! i") simp
  then show ?thesis
    using ka kb by (simp add: rt s2_def)
qed

lemmas lang_eval =
  round_trip_def switchLanguage_def storeOriginalTexts_def lang_page_def lang_labels_def
  translate_def js_get_def js_set_def object_prototype_def de_sample_def text_children_def
  classList_toggle_def token_add_def last_text_of_key_def Let_def

lemma contact_page_start:
  "outer_i18n_elements (document contact_page) =
     [(''nav.contacts'', ''Contact''), (''hero.cta'', ''Become a Sponsor''),
      (''nav.contacts'', ''Contact'')]"
  "i18n_elements (document contact_page) =
     [(''nav.contacts'', ''Contact''), (''hero.cta'', ''Become a Sponsor''),
      (''hero.word'', ''Sponsor''), (''nav.contacts'', ''Contact'')]"
  "last_text_of_key (document contact_page) ''nav.contacts'' = Some ''Contact''"
  by (simp_all add: contact_page_def lang_eval)

lemma contact_page_de:
  "outer_i18n_elements (document (snd (switchLanguage v8_fnText de_sample ''de'' (storeOriginalTexts contact_page)))) =
     [(''nav.contacts'', ''Kontakt''), (''hero.cta'', ''Sponsor werden''),
      (''nav.contacts'', ''Kontakt'')]"
  by (simp add: contact_page_def lang_eval)

lemma contact_page_back:
  "fst (round_trip v8_fnText de_sample (storeOriginalTexts contact_page)) = Done"
  by (simp add: contact_page_def lang_eval)

theorem round_trip_restores_stored_text_witness:
  "(0 :: nat) < length (outer_i18n_elements (document contact_page))
   \<and> outer_i18n_elements (document contact_page) ! 0 = (''nav.contacts'', ''Contact'')
   \<and> last_text_of_key (document contact_page) ''nav.contacts'' = Some ''Contact''
   \<and> outer_i18n_elements (document (snd (switchLanguage v8_fnText de_sample ''de'' (storeOriginalTexts contact_page)))) ! 0
       = (''nav.contacts'', ''Kontakt'')
   \<and> fst (round_trip v8_fnText de_sample (storeOriginalTexts contact_page)) = Done
   \<and> map fst (outer_i18n_elements (document (snd (round_trip v8_fnText de_sample (storeOriginalTexts contact_page)))))
       = [''nav.contacts'', ''hero.cta'', ''nav.contacts'']
   \<and> outer_i18n_elements (document (snd (round_trip v8_fnText de_sample (storeOriginalTexts contact_page)))) ! 0
       = (''nav.contacts'', ''Contact'')"
  using round_trip_restores_stored_text
          [of 0 contact_page "''nav.contacts''" "''Contact''" v8_fnText de_sample]
  by (simp add: contact_page_start contact_page_de contact_page_back)

text \<open>
  C4 as it stands fails: of two elements with the key \<open>nav.contacts\<close> and the texts
  \<open>Contact\<close> and \<open>Contacts\<close>, the first comes back from the round trip as \<open>Contacts\<close>.
\<close>

theorem round_trip_shared_key_counterexample:
  "outer_i18n_elements (document dup_page) =
     [(''nav.contacts'', ''Contact''), (''nav.contacts'', ''Contacts'')]
   \<and> fst (round_trip v8_fnText de_sample (storeOriginalTexts dup_page)) = Done
   \<and> outer_i18n_elements (document (snd (round_trip v8_fnText de_sample (storeOriginalTexts dup_page)))) =
     [(''nav.contacts'', ''Contacts''), (''nav.contacts'', ''Contacts'')]
   \<and> outer_i18n_elements (document (snd (round_trip v8_fnText de_sample (storeOriginalTexts dup_page)))) ! 0
       \<noteq> outer_i18n_elements (document dup_page) ! 0"
  by (simp add: dup_page_def lang_eval)

text \<open>
  The conditions of the amended claim are needed. An element with the key \<open>__proto__\<close>:
  nothing is stored for it, both lookups give \<open>Object.prototype\<close>, and it ends with the
  text \<open>[object Object]\<close>.
\<close>

lemma proto_key_not_restored:
  "outer_i18n_elements (document proto_page) = [(''__proto__'', ''Home'')]
   \<and> originalTexts (storeOriginalTexts proto_page) ''__proto__'' = None
   \<and> fst (round_trip v8_fnText de_sample (storeOriginalTexts proto_page)) = Done
   \<and> outer_i18n_elements (document (snd (round_trip v8_fnText de_sample (storeOriginalTexts proto_page))))
       = [(''__proto__'', ''[object Object]'')]"
  by (simp add: proto_page_def lang_eval)

text \<open>
  A translatable element inside another one: the word inside the heading of
  \<open>contact_page\<close> is no longer in the document after the round trip.
\<close>

lemma nested_element_detached:
  "i18n_elements (document contact_page) ! 2 = (''hero.word'', ''Sponsor'')
   \<and> i18n_elements (document (snd (round_trip v8_fnText de_sample (storeOriginalTexts contact_page))))
       = [(''nav.contacts'', ''Contact''), (''hero.cta'', ''Become a Sponsor''),
          (''nav.contacts'', ''Contact'')]"
  by (simp add: contact_page_def lang_eval)

text \<open>
  The label \<open>.lang-en\<close> inside a translatable element: the switch to \<open>de\<close> removes it from the
  document, the switch back throws and the text stays German.
\<close>

lemma label_inside_translatable:
  "outer_i18n_elements (document label_inside_page) = [(''nav.contacts'', ''Contact'')]
   \<and> fst (switchLanguage v8_fnText de_sample ''de'' (storeOriginalTexts label_inside_page)) = Done
   \<and> fst (round_trip v8_fnText de_sample (storeOriginalTexts label_inside_page)) = Threw TypeError
   \<and> outer_i18n_elements (document (snd (round_trip v8_fnText de_sample (storeOriginalTexts label_inside_page))))
       = [(''nav.contacts'', ''Kontakt'')]"
  by (simp add: label_inside_page_def lang_eval)

lemma ps_int_close: "\<bar>of_int (ps_int x) - x\<bar> \<le> 1 / 2"
proof -
  have "of_int \<lfloor>x\<rfloor> \<le> x" "x < of_int \<lfloor>x\<rfloor> + 1" by linarith+
  then show ?thesis by (auto simp: ps_int_def Let_def)
qed

lemma ps_int_near:
  assumes "\<bar>x - of_int n\<bar> < 1 / 2"
  shows "ps_int x = n"
proof -
  have "\<bar>(of_int (ps_int x) :: real) - of_int n\<bar> < 1"
    using ps_int_close [of x] assms by linarith
  then have "\<bar>ps_int x - n\<bar> < 1"
    by (metis of_int_diff of_int_abs of_int_less_iff of_int_1)
  then show ?thesis by linarith
qed

lemma u53_facts: "0 < u53" "u53 < 1" "u53 * u53 \<le> u53" "900 * u53 < 1 / 10 ^ 12"
  by (simp_all add: u53_def)

lemma fl_bounds:
  assumes "rounds_like_double fl" "0 \<le> x"
  shows "x * (1 - u53) \<le> fl x" "fl x \<le> x * (1 + u53)"
proof -
  from assms have "\<bar>fl x - x\<bar> \<le> x * u53"
    by (simp add: rounds_like_double_def u53_def) (metis abs_of_nonneg)
  then show "x * (1 - u53) \<le> fl x" "fl x \<le> x * (1 + u53)"
    by (simp_all add: algebra_simps abs_le_iff)
qed

lemma two_roundings:
  assumes R: "rounds_like_double fl" and t: "0 \<le> t"
    and lo: "t * (1 - u53) \<le> p" and hi: "p \<le> t * (1 + u53)"
  shows "t * (1 - 3 * u53) \<le> fl p" "fl p \<le> t * (1 + 3 * u53)"
proof -
  note u = u53_facts
  have p0: "0 \<le> p" using lo t u by (smt (verit) mult_nonneg_nonneg)
  have a: "p * (1 - u53) \<le> fl p" "fl p \<le> p * (1 + u53)" using fl_bounds [OF R p0] by simp_all
  have b: "t * (1 - u53) * (1 - u53) \<le> p * (1 - u53)"
    using lo u by (intro mult_right_mono) simp_all
  have c: "p * (1 + u53) \<le> t * (1 + u53) * (1 + u53)"
    using hi u by (intro mult_right_mono) simp_all
  have tu: "0 \<le> t * (u53 * u53)" "t * (u53 * u53) \<le> t * u53"
    using t u by (simp_all add: mult_left_mono)
  have d: "t * (1 - 3 * u53) \<le> t * (1 - u53) * (1 - u53)"
    using tu t u by (simp add: algebra_simps)
  have e: "t * (1 + u53) * (1 + u53) \<le> t * (1 + 3 * u53)"
    using tu by (simp add: algebra_simps)
  show "t * (1 - 3 * u53) \<le> fl p" using a b d by linarith
  show "fl p \<le> t * (1 + 3 * u53)" using a c e by linarith
qed

lemma ratio_bounds:
  assumes R: "rounds_like_double fl" and w: "1 \<le> w" and h: "1 \<le> h"
  defines "q \<equiv> 300 / real_of_int (max w h)"
  shows "q * (1 - u53) \<le> min (fl (300 / of_int w)) (fl (300 / of_int h))"
    and "min (fl (300 / of_int w)) (fl (300 / of_int h)) \<le> q * (1 + u53)"
proof -
  note u = u53_facts
  have qw: "q \<le> 300 / real_of_int w" and qh: "q \<le> 300 / real_of_int h"
    using w h unfolding q_def by (auto intro!: divide_left_mono simp: max_def)
  have q0: "0 < q" using w h unfolding q_def by (simp add: max_def)
  have "(300 / real_of_int w) * (1 - u53) \<le> fl (300 / of_int w)"
    using fl_bounds(1) [OF R, of "300 / of_int w"] w by simp
  moreover have "q * (1 - u53) \<le> (300 / real_of_int w) * (1 - u53)"
    using qw u by (intro mult_right_mono) simp_all
  moreover have "(300 / real_of_int h) * (1 - u53) \<le> fl (300 / of_int h)"
    using fl_bounds(1) [OF R, of "300 / of_int h"] h by simp
  moreover have "q * (1 - u53) \<le> (300 / real_of_int h) * (1 - u53)"
    using qh u by (intro mult_right_mono) simp_all
  ultimately show "q * (1 - u53) \<le> min (fl (300 / of_int w)) (fl (300 / of_int h))" by simp
  show "min (fl (300 / of_int w)) (fl (300 / of_int h)) \<le> q * (1 + u53)"
  proof (cases "h \<le> w")
    case True
    then have "q = 300 / real_of_int w" by (simp add: q_def max_def)
    with fl_bounds(2) [OF R, of "300 / of_int w"] w show ?thesis by simp
  next
    case False
    then have "q = 300 / real_of_int h" by (simp add: q_def max_def)
    with fl_bounds(2) [OF R, of "300 / of_int h"] h show ?thesis by simp
  qed
qed

lemma abs_from_bounds:
  fixes t y c v :: real
  assumes "t * (1 - 3 * v) \<le> y" "y \<le> t * (1 + 3 * v)" "t * (3 * v) \<le> c"
  shows "\<bar>y - t\<bar> \<le> c"
  using assms by (simp add: algebra_simps abs_le_iff)

lemma scaled_dim:
  assumes R: "rounds_like_double fl" and w: "1 \<le> w" and h: "1 \<le> h"
    and x: "1 \<le> x" "x \<le> max w h"
  shows "\<bar>fl (of_int x * min (fl (300 / of_int w)) (fl (300 / of_int h)))
          - of_int x * 300 / of_int (max w h)\<bar> \<le> 900 * u53"
proof -
  note u = u53_facts
  let ?r = "min (fl (300 / of_int w)) (fl (300 / of_int h))"
  let ?q = "300 / real_of_int (max w h)"
  let ?t = "real_of_int x * ?q"
  have d: "0 < real_of_int (max w h)" using w by (simp add: max_def)
  have t0: "0 \<le> ?t" using x d by simp
  have "real_of_int x \<le> real_of_int (max w h)" using x by linarith
  then have "real_of_int x * 300 \<le> 300 * real_of_int (max w h)" by simp
  then have t300: "?t \<le> 300" using d by (simp add: pos_divide_le_eq)
  have lo: "?t * (1 - u53) \<le> of_int x * ?r"
    using ratio_bounds(1) [OF R w h] x
    by (simp only: mult.assoc) (intro mult_left_mono, simp_all)
  have hi: "of_int x * ?r \<le> ?t * (1 + u53)"
    using ratio_bounds(2) [OF R w h] x
    by (simp only: mult.assoc) (intro mult_left_mono, simp_all)
  from two_roundings [OF R t0 lo hi]
  have a: "?t * (1 - 3 * u53) \<le> fl (of_int x * ?r)" "fl (of_int x * ?r) \<le> ?t * (1 + 3 * u53)"
    by simp_all
  have b: "?t * (3 * u53) \<le> 300 * (3 * u53)"
    using t300 u by (intro mult_right_mono) simp_all
  have "\<bar>fl (of_int x * ?r) - ?t\<bar> \<le> 300 * (3 * u53)"
    using a b by (rule abs_from_bounds)
  then show ?thesis by simp
qed

lemma thumb_dims_eq:
  "thumb_dims fl w h =
     (ps_int (fl (of_int w * min (fl (300 / of_int w)) (fl (300 / of_int h)))),
      ps_int (fl (of_int h * min (fl (300 / of_int w)) (fl (300 / of_int h)))))"
  by (simp add: thumb_dims_def MaxSize_def Let_def)

lemma rounded_dim:
  assumes R: "rounds_like_double fl" and w: "1 \<le> w" and h: "1 \<le> h"
    and x: "1 \<le> x" "x \<le> max w h"
  shows "\<bar>real_of_int (ps_int (fl (of_int x * min (fl (300 / of_int w)) (fl (300 / of_int h)))))
          - of_int x * 300 / of_int (max w h)\<bar> \<le> 1 / 2 + 1 / 10 ^ 12"
  using scaled_dim [OF assms] u53_facts(4)
    ps_int_close [of "fl (of_int x * min (fl (300 / of_int w)) (fl (300 / of_int h)))"]
  by linarith

lemma exact_dim:
  assumes R: "rounds_like_double fl" and w: "1 \<le> w" and h: "1 \<le> h"
    and x: "1 \<le> x" "x \<le> max w h"
    and n: "of_int x * 300 / of_int (max w h) = (of_int n :: real)"
  shows "ps_int (fl (of_int x * min (fl (300 / of_int w)) (fl (300 / of_int h)))) = n"
proof (rule ps_int_near)
  show "\<bar>fl (of_int x * min (fl (300 / of_int w)) (fl (300 / of_int h))) - of_int n\<bar> < 1 / 2"
    using scaled_dim [OF R w h x] u53_facts(4) unfolding n by simp
qed

lemma larger_dim:
  assumes R: "rounds_like_double fl" and w: "1 \<le> w" and h: "1 \<le> h"
  shows "ps_int (fl (of_int (max w h) * min (fl (300 / of_int w)) (fl (300 / of_int h)))) = 300"
proof (rule exact_dim [OF R w h])
  show "1 \<le> max w h" using w by simp
  show "max w h \<le> max w h" by simp
  have "real_of_int (max w h) \<noteq> 0" using w by (simp add: max_def)
  then show "real_of_int (max w h) * 300 / real_of_int (max w h) = real_of_int 300" by simp
qed

lemma smaller_dim:
  assumes R: "rounds_like_double fl" and w: "1 \<le> w" and h: "1 \<le> h"
    and x: "1 \<le> x" "x \<le> max w h"
  shows "ps_int (fl (of_int x * min (fl (300 / of_int w)) (fl (300 / of_int h)))) \<le> 300"
proof -
  let ?n = "ps_int (fl (of_int x * min (fl (300 / of_int w)) (fl (300 / of_int h))))"
  have d: "0 < real_of_int (max w h)" using w by (simp add: max_def)
  have "real_of_int x \<le> real_of_int (max w h)" using x by linarith
  then have "real_of_int x * 300 \<le> 300 * real_of_int (max w h)" by simp
  then have "real_of_int x * 300 / real_of_int (max w h) \<le> 300" using d by (simp add: pos_divide_le_eq)
  moreover have "(1 :: real) / 10 ^ 12 < 1 / 2" by simp
  ultimately have "real_of_int ?n < 301" using rounded_dim [OF assms] by linarith
  then have "?n < 301" by linarith
  then show ?thesis by simp
qed

subsection \<open>C7: the size of a thumbnail\<close>

text \<open>
  C7. For every source image (of width and height at least 1) the script scales both
  dimensions by one factor, the minimum of \<open>MaxSize / width\<close> and \<open>MaxSize / height\<close>,
  which is \<open>300 / max width height\<close>. The larger dimension of the output is the fixed
  maximum 300, so it does not exceed it, and each dimension of the output is within half a
  pixel (and the rounding of the doubles) of the source dimension times that factor: the
  aspect ratio is preserved up to the rounding to whole pixels. A source of 1200 by 800
  gives exactly 300 by 200. All of this holds for every rounding \<open>fl\<close> of the double
  operations with a relative error of at most \<open>2^-53\<close>.
\<close>

theorem thumbnail_fits_and_keeps_aspect:
  assumes "rounds_like_double fl" "1 \<le> w" "1 \<le> h"
  shows "max (fst (thumb_dims fl w h)) (snd (thumb_dims fl w h)) = MaxSize
       \<and> MaxSize = 300
       \<and> min (of_int MaxSize / of_int w) (of_int MaxSize / of_int h) = (300 / of_int (max w h) :: real)
       \<and> \<bar>real_of_int (fst (thumb_dims fl w h)) - of_int w * 300 / of_int (max w h)\<bar> \<le> 1 / 2 + 1 / 10 ^ 12
       \<and> \<bar>real_of_int (snd (thumb_dims fl w h)) - of_int h * 300 / of_int (max w h)\<bar> \<le> 1 / 2 + 1 / 10 ^ 12
       \<and> thumb_dims fl 1200 800 = (300, 200)"
proof (intro conjI)
  note R = assms(1) and w = assms(2) and h = assms(3)
  show "MaxSize = 300" by (simp add: MaxSize_def)
  show "max (fst (thumb_dims fl w h)) (snd (thumb_dims fl w h)) = MaxSize"
  proof (cases "h \<le> w")
    case True
    then have m: "max w h = w" by simp
    from larger_dim [OF R w h] smaller_dim [OF R w h h] True
    show ?thesis by (simp add: thumb_dims_eq m MaxSize_def)
  next
    case False
    then have m: "max w h = h" by simp
    from larger_dim [OF R w h] smaller_dim [OF R w h w] False
    show ?thesis by (simp add: thumb_dims_eq m MaxSize_def)
  qed
  show "min (of_int MaxSize / of_int w) (of_int MaxSize / of_int h) = (300 / of_int (max w h) :: real)"
  proof (cases "h \<le> w")
    case True
    then have "300 / real_of_int w \<le> 300 / real_of_int h"
      using h by (intro divide_left_mono) simp_all
    with True show ?thesis by (simp add: MaxSize_def max_def)
  next
    case False
    then have "300 / real_of_int h \<le> 300 / real_of_int w"
      using w by (intro divide_left_mono) simp_all
    with False show ?thesis by (simp add: MaxSize_def max_def)
  qed
  show "\<bar>real_of_int (fst (thumb_dims fl w h)) - of_int w * 300 / of_int (max w h)\<bar> \<le> 1 / 2 + 1 / 10 ^ 12"
    using rounded_dim [OF R w h w] by (simp add: thumb_dims_eq)
  show "\<bar>real_of_int (snd (thumb_dims fl w h)) - of_int h * 300 / of_int (max w h)\<bar> \<le> 1 / 2 + 1 / 10 ^ 12"
    using rounded_dim [OF R w h h] by (simp add: thumb_dims_eq)
  have "ps_int (fl (of_int 1200 * min (fl (300 / of_int 1200)) (fl (300 / of_int 800)))) = 300"
    by (rule exact_dim [OF R]) simp_all
  moreover have "ps_int (fl (of_int 800 * min (fl (300 / of_int 1200)) (fl (300 / of_int 800)))) = 200"
    by (rule exact_dim [OF R]) simp_all
  ultimately show "thumb_dims fl 1200 800 = (300, 200)" by (simp add: thumb_dims_eq)
qed

lemma exact_rounds: "rounds_like_double (\<lambda>x. x)"
  by (simp add: rounds_like_double_def)

theorem thumbnail_fits_and_keeps_aspect_witness:
  "rounds_like_double (\<lambda>x. x) \<and> (1 :: int) \<le> 640 \<and> (1 :: int) \<le> 480
   \<and> max (fst (thumb_dims (\<lambda>x. x) 640 480)) (snd (thumb_dims (\<lambda>x. x) 640 480)) = 300
   \<and> thumb_dims (\<lambda>x. x) 640 480 = (300, 225)
   \<and> thumb_dims (\<lambda>x. x) 1200 800 = (300, 200)"
proof -
  have e: "thumb_dims (\<lambda>x. x) 640 480 = (300, 225)"
    by (simp add: thumb_dims_def MaxSize_def ps_int_def Let_def)
  from thumbnail_fits_and_keeps_aspect [OF exact_rounds, of 640 480]
  show ?thesis by (simp add: exact_rounds e MaxSize_def)
qed

lemma try_thumbnail_read:
  "decoded f = Inl msg \<Longrightarrow> try_thumbnail fl f = Inl (ReadFailed msg)"
  by (simp add: try_thumbnail_def)

lemma try_thumbnail_size:
  "decoded f = Inr (w, h) \<Longrightarrow> \<not> (0 < fst (thumb_dims fl w h) \<and> 0 < snd (thumb_dims fl w h)) \<Longrightarrow>
   try_thumbnail fl f = Inl (InvalidBitmapSize (fst (thumb_dims fl w h)) (snd (thumb_dims fl w h)))"
  by (auto simp: try_thumbnail_def split: prod.splits)

lemma try_thumbnail_save:
  "decoded f = Inr (w, h) \<Longrightarrow> 0 < fst (thumb_dims fl w h) \<Longrightarrow> 0 < snd (thumb_dims fl w h) \<Longrightarrow>
   saveError f = Some msg \<Longrightarrow> try_thumbnail fl f = Inl (SaveFailed msg)"
  by (auto simp: try_thumbnail_def split: prod.splits)

lemma try_thumbnail_good:
  "decoded f = Inr (w, h) \<Longrightarrow> 0 < fst (thumb_dims fl w h) \<Longrightarrow> 0 < snd (thumb_dims fl w h) \<Longrightarrow>
   saveError f = None \<Longrightarrow> try_thumbnail fl f = Inr (thumb_dims fl w h)"
  by (auto simp: try_thumbnail_def split: prod.splits)

lemma produced_try:
  "produced fl f = (\<not> thumbUpToDate f \<and> (case try_thumbnail fl f of Inr _ \<Rightarrow> True | Inl _ \<Rightarrow> False))"
  by (auto simp: produced_def try_thumbnail_def split: sum.splits prod.splits option.splits)

lemma failed_try:
  "failed fl f = (\<not> thumbUpToDate f \<and> (case try_thumbnail fl f of Inr _ \<Rightarrow> False | Inl _ \<Rightarrow> True))"
  by (auto simp: failed_def produced_try split: sum.splits)

lemma thumbnail_of_try:
  "thumbnail_of fl f =
     (if thumbUpToDate f then []
      else (case try_thumbnail fl f of
              Inr (newWidth, newHeight) \<Rightarrow> [(''thumb_'' @ fileName f, newWidth, newHeight)]
            | Inl _ \<Rightarrow> []))"
  by (auto simp: thumbnail_of_def produced_def try_thumbnail_def
           split: sum.splits prod.splits option.splits)

lemma produced_or_not:
  "produced fl f \<or> failed fl f \<or> thumbUpToDate f"
  "\<not> (produced fl f \<and> failed fl f)"
  by (auto simp: failed_def)

lemma process_file_count:
  "count (process_file fl r f) = count r + (if produced fl f then 1 else 0)"
  by (auto simp: process_file_def produced_try split: sum.splits)

lemma host_grows: "set (host r) \<subseteq> set (host (process_file fl r f))"
  by (auto simp: process_file_def split: sum.splits)

lemma foldl_count:
  "count (foldl (process_file fl) r fs) = count r + length (filter (produced fl) fs)"
  by (induction fs arbitrary: r) (simp_all add: process_file_count)

lemma foldl_host_grows: "set (host r) \<subseteq> set (host (foldl (process_file fl) r fs))"
proof (induction fs arbitrary: r)
  case Nil
  show ?case by simp
next
  case (Cons f fs)
  from host_grows [of r fl f] Cons [of "process_file fl r f"] show ?case by auto
qed

lemma error_logged:
  "\<not> thumbUpToDate f \<Longrightarrow> try_thumbnail fl f = Inl err \<Longrightarrow>
   ErrorProcessing (fileName f) err \<in> set (host (process_file fl r f))"
  by (simp add: process_file_def)

lemma foldl_error_logged:
  "f \<in> set fs \<Longrightarrow> \<not> thumbUpToDate f \<Longrightarrow> try_thumbnail fl f = Inl err \<Longrightarrow>
   ErrorProcessing (fileName f) err \<in> set (host (foldl (process_file fl) r fs))"
proof (induction fs arbitrary: r)
  case Nil
  then show ?case by simp
next
  case (Cons g gs)
  show ?case
  proof (cases "f = g")
    case True
    from error_logged [OF Cons.prems(2,3), of r]
    have "ErrorProcessing (fileName f) err \<in> set (host (process_file fl r f))" .
    with foldl_host_grows [of "process_file fl r f" fl gs] True show ?thesis by auto
  next
    case False
    with Cons.prems have "f \<in> set gs" by simp
    from Cons.IH [OF this Cons.prems(2,3), of "process_file fl r g"] show ?thesis by simp
  qed
qed

lemma process_file_thumbnail:
  "written (process_file fl r f) = written r @ thumbnail_of fl f"
  by (auto simp: process_file_def thumbnail_of_try split: sum.splits)

lemma foldl_written:
  "written (foldl (process_file fl) r fs) = written r @ concat (map (thumbnail_of fl) fs)"
  by (induction fs arbitrary: r) (simp_all add: process_file_thumbnail)

lemma thumbnail_of_not_produced: "\<not> produced fl f \<Longrightarrow> thumbnail_of fl f = []"
  by (simp add: thumbnail_of_def)

lemma thumbnails_length:
  "length (concat (map (thumbnail_of fl) fs)) = length (filter (produced fl) fs)"
  by (induction fs) (auto simp: thumbnail_of_def produced_def split: sum.splits)

lemma make_thumbnails_fields:
  "count (make_thumbnails fl fs) = length (filter (produced fl) fs)"
  "written (make_thumbnails fl fs) = concat (map (thumbnail_of fl) fs)"
  "length (written (make_thumbnails fl fs)) = length (filter (produced fl) fs)"
  "host (make_thumbnails fl fs) =
     host (foldl (process_file fl) \<lparr>count = 0, host = [], written = []\<rparr> fs)
       @ [Blank, DoneCreated (length (filter (produced fl) fs))]"
  by (simp_all add: make_thumbnails_def Let_def foldl_count foldl_written thumbnails_length)

lemma make_thumbnails_logged:
  "f \<in> set fs \<Longrightarrow> \<not> thumbUpToDate f \<Longrightarrow> try_thumbnail fl f = Inl err \<Longrightarrow>
   ErrorProcessing (fileName f) err \<in> set (host (make_thumbnails fl fs))"
  using foldl_error_logged [of f fs fl err "\<lparr>count = 0, host = [], written = []\<rparr>"]
  by (simp add: make_thumbnails_fields)

subsection \<open>C8: a failure does not stop the batch\<close>

text \<open>
  C8. For every list of files the script goes through all of them. A file that is not
  skipped and whose reading or decoding fails (\<open>decoded\<close> gives the error), whose thumbnail
  would have a width or a height that is not positive (the bitmap is refused), or whose
  saving fails (\<open>saveError\<close> gives the error), is logged with its name and that error, and
  counts for nothing: the run writes and counts what it would without that file. The
  thumbnails written are those of the files that are not up to date, that decode, whose
  thumbnail has a positive size and whose saving succeeds, in order and with the size
  computed from the decoded one; the count reported in the last line is their number;
  skipped and failed files are not counted.
\<close>

theorem batch_goes_on_and_counts_thumbnails:
  "count (make_thumbnails fl imageFiles) = length (filter (produced fl) imageFiles)
   \<and> count (make_thumbnails fl imageFiles) = length (written (make_thumbnails fl imageFiles))
   \<and> written (make_thumbnails fl imageFiles) = concat (map (thumbnail_of fl) imageFiles)
   \<and> last (host (make_thumbnails fl imageFiles)) = DoneCreated (length (filter (produced fl) imageFiles))
   \<and> (\<forall>f \<in> set imageFiles. failed fl f \<longrightarrow>
        (\<exists>err. try_thumbnail fl f = Inl err \<and>
           ErrorProcessing (fileName f) err \<in> set (host (make_thumbnails fl imageFiles))))
   \<and> (\<forall>f \<in> set imageFiles. \<forall>msg. \<not> thumbUpToDate f \<and> decoded f = Inl msg \<longrightarrow>
        failed fl f \<and>
        ErrorProcessing (fileName f) (ReadFailed msg) \<in> set (host (make_thumbnails fl imageFiles)))
   \<and> (\<forall>f \<in> set imageFiles. \<forall>w h. \<not> thumbUpToDate f \<and> decoded f = Inr (w, h) \<and>
          \<not> (0 < fst (thumb_dims fl w h) \<and> 0 < snd (thumb_dims fl w h)) \<longrightarrow>
        failed fl f \<and>
        ErrorProcessing (fileName f)
            (InvalidBitmapSize (fst (thumb_dims fl w h)) (snd (thumb_dims fl w h)))
          \<in> set (host (make_thumbnails fl imageFiles)))
   \<and> (\<forall>f \<in> set imageFiles. \<forall>w h msg. \<not> thumbUpToDate f \<and> decoded f = Inr (w, h) \<and>
          0 < fst (thumb_dims fl w h) \<and> 0 < snd (thumb_dims fl w h) \<and> saveError f = Some msg \<longrightarrow>
        failed fl f \<and>
        ErrorProcessing (fileName f) (SaveFailed msg) \<in> set (host (make_thumbnails fl imageFiles)))
   \<and> (\<forall>f \<in> set imageFiles. \<forall>w h. \<not> thumbUpToDate f \<and> decoded f = Inr (w, h) \<and>
          0 < fst (thumb_dims fl w h) \<and> 0 < snd (thumb_dims fl w h) \<and> saveError f = None \<longrightarrow>
        produced fl f \<and>
        (''thumb_'' @ fileName f, thumb_dims fl w h) \<in> set (written (make_thumbnails fl imageFiles)))
   \<and> (failed fl g \<or> thumbUpToDate g \<longrightarrow>
        count (make_thumbnails fl (before @ g # after)) = count (make_thumbnails fl (before @ after)) \<and>
        written (make_thumbnails fl (before @ g # after)) = written (make_thumbnails fl (before @ after)))"
proof (intro conjI ballI impI allI)
  fix f assume f: "f \<in> set imageFiles" "failed fl f"
  from f(2) obtain err where e: "\<not> thumbUpToDate f" "try_thumbnail fl f = Inl err"
    by (auto simp: failed_try split: sum.splits)
  from make_thumbnails_logged [OF f(1) e] e(2)
  show "\<exists>err. try_thumbnail fl f = Inl err \<and>
           ErrorProcessing (fileName f) err \<in> set (host (make_thumbnails fl imageFiles))"
    by blast
next
  fix f msg assume f: "f \<in> set imageFiles" "\<not> thumbUpToDate f \<and> decoded f = Inl msg"
  then show "failed fl f" by (simp add: failed_def produced_def)
  from f(2) have "try_thumbnail fl f = Inl (ReadFailed msg)" by (simp add: try_thumbnail_read)
  with f show "ErrorProcessing (fileName f) (ReadFailed msg) \<in> set (host (make_thumbnails fl imageFiles))"
    by (simp add: make_thumbnails_logged)
next
  fix f w h
  assume f: "f \<in> set imageFiles"
    "\<not> thumbUpToDate f \<and> decoded f = Inr (w, h) \<and>
       \<not> (0 < fst (thumb_dims fl w h) \<and> 0 < snd (thumb_dims fl w h))"
  then show "failed fl f" by (auto simp: failed_def produced_def)
  from f(2) have "try_thumbnail fl f =
      Inl (InvalidBitmapSize (fst (thumb_dims fl w h)) (snd (thumb_dims fl w h)))"
    by (simp add: try_thumbnail_size)
  with f show "ErrorProcessing (fileName f)
            (InvalidBitmapSize (fst (thumb_dims fl w h)) (snd (thumb_dims fl w h)))
          \<in> set (host (make_thumbnails fl imageFiles))"
    by (simp add: make_thumbnails_logged)
next
  fix f w h msg
  assume f: "f \<in> set imageFiles"
    "\<not> thumbUpToDate f \<and> decoded f = Inr (w, h) \<and>
       0 < fst (thumb_dims fl w h) \<and> 0 < snd (thumb_dims fl w h) \<and> saveError f = Some msg"
  then show "failed fl f" by (simp add: failed_def produced_def)
  from f(2) have "try_thumbnail fl f = Inl (SaveFailed msg)" by (simp add: try_thumbnail_save)
  with f show "ErrorProcessing (fileName f) (SaveFailed msg) \<in> set (host (make_thumbnails fl imageFiles))"
    by (simp add: make_thumbnails_logged)
next
  fix f w h
  assume f: "f \<in> set imageFiles"
    "\<not> thumbUpToDate f \<and> decoded f = Inr (w, h) \<and>
       0 < fst (thumb_dims fl w h) \<and> 0 < snd (thumb_dims fl w h) \<and> saveError f = None"
  then show p: "produced fl f" by (simp add: produced_def)
  with f(2) have "thumbnail_of fl f = [(''thumb_'' @ fileName f, thumb_dims fl w h)]"
    by (simp add: thumbnail_of_def)
  with f(1) show "(''thumb_'' @ fileName f, thumb_dims fl w h) \<in> set (written (make_thumbnails fl imageFiles))"
    by (force simp: make_thumbnails_fields simp del: append.simps)
next
  assume "failed fl g \<or> thumbUpToDate g"
  then have g: "\<not> produced fl g" by (auto simp: failed_def produced_def)
  show "count (make_thumbnails fl (before @ g # after)) = count (make_thumbnails fl (before @ after))"
    using g by (simp add: make_thumbnails_fields)
  show "written (make_thumbnails fl (before @ g # after)) = written (make_thumbnails fl (before @ after))"
    using thumbnail_of_not_produced [OF g] by (simp add: make_thumbnails_fields)
qed (simp_all add: make_thumbnails_fields thumbnails_length)

lemma folder_dims:
  "thumb_dims (\<lambda>x. x) 1200 1 = (300, 0)" "thumb_dims (\<lambda>x. x) 100 50 = (300, 150)"
  "thumb_dims (\<lambda>x. x) 1200 800 = (300, 200)" "thumb_dims (\<lambda>x. x) 640 480 = (300, 225)"
  by (simp_all add: thumb_dims_def MaxSize_def ps_int_def Let_def)

lemma folder_run:
  "make_thumbnails (\<lambda>x. x) folder =
     \<lparr>count = 2,
      host = [Creating ''a.jpg'', Creating ''b.png'',
              ErrorProcessing ''b.png'' (ReadFailed ''Parameter is not valid.''),
              Skipping ''c.gif'', Creating ''d.jpg'',
              ErrorProcessing ''d.jpg'' (InvalidBitmapSize 300 0),
              Creating ''e.jpeg'', Creating ''f.png'',
              ErrorProcessing ''f.png'' (SaveFailed ''A generic error occurred in GDI+.''),
              Blank, DoneCreated 2],
      written = [(''thumb_a.jpg'', 300, 200), (''thumb_e.jpeg'', 300, 150)]\<rparr>"
  by (simp add: make_thumbnails_def folder_def process_file_def try_thumbnail_def folder_dims Let_def)

lemma folder_files:
  "folder ! 1 \<in> set folder" "\<not> thumbUpToDate (folder ! 1)"
  "decoded (folder ! 1) = Inl ''Parameter is not valid.''" "fileName (folder ! 1) = ''b.png''"
  "folder ! 3 \<in> set folder" "\<not> thumbUpToDate (folder ! 3)"
  "decoded (folder ! 3) = Inr (1200, 1)" "fileName (folder ! 3) = ''d.jpg''"
  "folder ! 5 \<in> set folder" "\<not> thumbUpToDate (folder ! 5)"
  "decoded (folder ! 5) = Inr (640, 480)" "fileName (folder ! 5) = ''f.png''"
  "saveError (folder ! 5) = Some ''A generic error occurred in GDI+.''"
  "folder ! 4 \<in> set folder" "\<not> thumbUpToDate (folder ! 4)"
  "decoded (folder ! 4) = Inr (100, 50)" "fileName (folder ! 4) = ''e.jpeg''"
  "saveError (folder ! 4) = None"
  "take 5 folder @ folder ! 5 # drop 6 folder = folder"
  by (simp_all add: folder_def)

theorem batch_goes_on_and_counts_thumbnails_witness:
  "folder ! 1 \<in> set folder \<and> \<not> thumbUpToDate (folder ! 1)
   \<and> decoded (folder ! 1) = Inl ''Parameter is not valid.''
   \<and> failed (\<lambda>x. x) (folder ! 1)
   \<and> ErrorProcessing ''b.png'' (ReadFailed ''Parameter is not valid.'')
        \<in> set (host (make_thumbnails (\<lambda>x. x) folder))
   \<and> folder ! 3 \<in> set folder \<and> \<not> thumbUpToDate (folder ! 3)
   \<and> decoded (folder ! 3) = Inr (1200, 1) \<and> thumb_dims (\<lambda>x. x) 1200 1 = (300, 0)
   \<and> failed (\<lambda>x. x) (folder ! 3)
   \<and> ErrorProcessing ''d.jpg'' (InvalidBitmapSize 300 0) \<in> set (host (make_thumbnails (\<lambda>x. x) folder))
   \<and> folder ! 5 \<in> set folder \<and> \<not> thumbUpToDate (folder ! 5)
   \<and> decoded (folder ! 5) = Inr (640, 480) \<and> thumb_dims (\<lambda>x. x) 640 480 = (300, 225)
   \<and> saveError (folder ! 5) = Some ''A generic error occurred in GDI+.''
   \<and> failed (\<lambda>x. x) (folder ! 5)
   \<and> ErrorProcessing ''f.png'' (SaveFailed ''A generic error occurred in GDI+.'')
        \<in> set (host (make_thumbnails (\<lambda>x. x) folder))
   \<and> folder ! 4 \<in> set folder \<and> \<not> thumbUpToDate (folder ! 4)
   \<and> decoded (folder ! 4) = Inr (100, 50) \<and> saveError (folder ! 4) = None
   \<and> produced (\<lambda>x. x) (folder ! 4)
   \<and> (''thumb_e.jpeg'', 300, 150) \<in> set (written (make_thumbnails (\<lambda>x. x) folder))
   \<and> count (make_thumbnails (\<lambda>x. x) folder) = 2
   \<and> length (filter (produced (\<lambda>x. x)) folder) = 2
   \<and> written (make_thumbnails (\<lambda>x. x) folder) = [(''thumb_a.jpg'', 300, 200), (''thumb_e.jpeg'', 300, 150)]
   \<and> last (host (make_thumbnails (\<lambda>x. x) folder)) = DoneCreated 2
   \<and> count (make_thumbnails (\<lambda>x. x) (take 5 folder @ drop 6 folder)) = 2
   \<and> written (make_thumbnails (\<lambda>x. x) (take 5 folder @ drop 6 folder))
       = [(''thumb_a.jpg'', 300, 200), (''thumb_e.jpeg'', 300, 150)]"
proof -
  note t = batch_goes_on_and_counts_thumbnails
             [of "\<lambda>x. x" folder "folder ! 5" "take 5 folder" "drop 6 folder"]
  from t have c: "count (make_thumbnails (\<lambda>x. x) folder) = length (filter (produced (\<lambda>x. x)) folder)"
    by (rule conjunct1)
  from t have r: "\<forall>f \<in> set folder. \<forall>msg. \<not> thumbUpToDate f \<and> decoded f = Inl msg \<longrightarrow>
        failed (\<lambda>x. x) f \<and>
        ErrorProcessing (fileName f) (ReadFailed msg) \<in> set (host (make_thumbnails (\<lambda>x. x) folder))"
    by blast
  from t have z: "\<forall>f \<in> set folder. \<forall>w h. \<not> thumbUpToDate f \<and> decoded f = Inr (w, h) \<and>
          \<not> (0 < fst (thumb_dims (\<lambda>x. x) w h) \<and> 0 < snd (thumb_dims (\<lambda>x. x) w h)) \<longrightarrow>
        failed (\<lambda>x. x) f \<and>
        ErrorProcessing (fileName f)
            (InvalidBitmapSize (fst (thumb_dims (\<lambda>x. x) w h)) (snd (thumb_dims (\<lambda>x. x) w h)))
          \<in> set (host (make_thumbnails (\<lambda>x. x) folder))"
    by blast
  from t have s: "\<forall>f \<in> set folder. \<forall>w h msg. \<not> thumbUpToDate f \<and> decoded f = Inr (w, h) \<and>
          0 < fst (thumb_dims (\<lambda>x. x) w h) \<and> 0 < snd (thumb_dims (\<lambda>x. x) w h) \<and> saveError f = Some msg \<longrightarrow>
        failed (\<lambda>x. x) f \<and>
        ErrorProcessing (fileName f) (SaveFailed msg) \<in> set (host (make_thumbnails (\<lambda>x. x) folder))"
    by blast
  from t have p: "\<forall>f \<in> set folder. \<forall>w h. \<not> thumbUpToDate f \<and> decoded f = Inr (w, h) \<and>
          0 < fst (thumb_dims (\<lambda>x. x) w h) \<and> 0 < snd (thumb_dims (\<lambda>x. x) w h) \<and> saveError f = None \<longrightarrow>
        produced (\<lambda>x. x) f \<and>
        (''thumb_'' @ fileName f, thumb_dims (\<lambda>x. x) w h) \<in> set (written (make_thumbnails (\<lambda>x. x) folder))"
    by blast
  from t have g: "failed (\<lambda>x. x) (folder ! 5) \<or> thumbUpToDate (folder ! 5) \<longrightarrow>
        count (make_thumbnails (\<lambda>x. x) (take 5 folder @ folder ! 5 # drop 6 folder))
          = count (make_thumbnails (\<lambda>x. x) (take 5 folder @ drop 6 folder)) \<and>
        written (make_thumbnails (\<lambda>x. x) (take 5 folder @ folder ! 5 # drop 6 folder))
          = written (make_thumbnails (\<lambda>x. x) (take 5 folder @ drop 6 folder))"
    by blast
  from r folder_files(1-4) have 1: "failed (\<lambda>x. x) (folder ! 1)"
    "ErrorProcessing ''b.png'' (ReadFailed ''Parameter is not valid.'')
        \<in> set (host (make_thumbnails (\<lambda>x. x) folder))"
    by fastforce+
  from z [rule_format, OF folder_files(5), of 1200 1] folder_files(6-8)
  have 3: "failed (\<lambda>x. x) (folder ! 3)"
    "ErrorProcessing ''d.jpg'' (InvalidBitmapSize 300 0) \<in> set (host (make_thumbnails (\<lambda>x. x) folder))"
    by (simp_all add: folder_dims)
  from s [rule_format, OF folder_files(9), of 640 480 "''A generic error occurred in GDI+.''"]
    folder_files(10-13)
  have 5: "failed (\<lambda>x. x) (folder ! 5)"
    "ErrorProcessing ''f.png'' (SaveFailed ''A generic error occurred in GDI+.'')
        \<in> set (host (make_thumbnails (\<lambda>x. x) folder))"
    by (simp_all add: folder_dims)
  from p [rule_format, OF folder_files(14), of 100 50] folder_files(15-18)
  have 4: "produced (\<lambda>x. x) (folder ! 4)"
    "(''thumb_e.jpeg'', 300, 150) \<in> set (written (make_thumbnails (\<lambda>x. x) folder))"
    by (simp_all add: folder_dims)
  from g 5(1) have 6: "count (make_thumbnails (\<lambda>x. x) (take 5 folder @ drop 6 folder)) = 2"
    "written (make_thumbnails (\<lambda>x. x) (take 5 folder @ drop 6 folder))
       = [(''thumb_a.jpg'', 300, 200), (''thumb_e.jpeg'', 300, 150)]"
    by (simp_all add: folder_files(19) folder_run)
  from c have 7: "length (filter (produced (\<lambda>x. x)) folder) = 2" by (simp add: folder_run)
  have 8: "count (make_thumbnails (\<lambda>x. x) folder) = 2"
    "written (make_thumbnails (\<lambda>x. x) folder) = [(''thumb_a.jpg'', 300, 200), (''thumb_e.jpeg'', 300, 150)]"
    "last (host (make_thumbnails (\<lambda>x. x) folder)) = DoneCreated 2"
    by (simp_all add: folder_run)
  show ?thesis
    by (intro conjI folder_files folder_dims 1 3 4 5 6 7 8)
qed

subsection \<open>What every event of the timeline keeps\<close>

lemma zoomToSection_isZoomed:
  assumes "present TimelineContainer s" "x = ''1'' \<or> x = ''2'' \<or> x = ''3''"
  shows "isZoomed (snd (zoomToSection x s))"
proof -
  from assms(1) have c: "elems s TimelineContainer \<noteq> None" by (simp add: present_def)
  from zoomToSection_zoomedAt [OF c, of 1] zoomToSection_zoomedAt [OF c, of 2]
       zoomToSection_zoomedAt [OF c, of 3] assms(2)
  show ?thesis by (auto simp: toString_small zoomedAt_def)
qed

lemma zoomToSection_valid:
  "x = ''1'' \<or> x = ''2'' \<or> x = ''3'' \<Longrightarrow> valid_section (snd (zoomToSection x s))"
  by (auto simp: valid_section_def zoomToSection_cs parse_1 parse_2 parse_3)

lemma zoomToSection_ok:
  assumes "x = ''1'' \<or> x = ''2'' \<or> x = ''3''"
  shows "timeline_ok (snd (zoomToSection x s))"
  using assms zoomToSection_inv [of x s]
  by (auto simp: timeline_ok_def zoomToSection_valid zoomToSection_isZoomed zoomToSection_present_iff)

lemma zoomOut_ok: "timeline_ok s \<Longrightarrow> timeline_ok (snd (zoomOut s))"
proof (cases "isMobile s")
  case True
  assume "timeline_ok s"
  with True show ?thesis by (simp add: zoomOut_mobile)
next
  case False
  assume "timeline_ok s"
  with False show ?thesis
    by (simp add: timeline_ok_def valid_section_def zoomOut_frame zoomOut_inv isMobile_def)
qed

lemma mobile_mode_ok:
  "timeline_ok (snd (classList_add TimelineContainer [''mobile-mode''] s)) = timeline_ok s"
  "timeline_ok (snd (classList_remove TimelineContainer [''mobile-mode''] s)) = timeline_ok s"
  by (simp_all add: timeline_ok_def valid_section_def mobile_mode_inv mobile_mode_views
      present_classList isMobile_def classList_frame)

lemma timeline_ok_desktop:
  "\<not> isMobile s \<Longrightarrow> timeline_ok s = (valid_section s \<and> zoom_class_inv s)"
  by (simp add: timeline_ok_def)

lemma timeline_ok_mobile_zoomed:
  "isZoomed s \<Longrightarrow> timeline_ok s = (valid_section s \<and> zoom_class_inv s)"
  by (simp add: timeline_ok_def)

lemma timeline_ok_absent:
  "\<not> present TimelineContainer s \<Longrightarrow> timeline_ok s = valid_section s"
  by (simp add: timeline_ok_def absent_inv present_def)

lemma resize_listener_ok:
  assumes v: "valid_section s" and i: "zoom_class_inv s"
  shows "timeline_ok (snd (resize_listener s))"
proof (cases "elems s TimelineContainer")
  case None
  then have e: "snd (resize_listener s) = s"
    by (simp add: resize_listener_def andThen_def if_contains_def)
  from None have "\<not> present TimelineContainer s" by (simp add: present_def)
  with v show ?thesis by (simp add: e timeline_ok_absent)
next
  case (Some c)
  show ?thesis
  proof (cases "isMobile s")
    case True
    show ?thesis
    proof (cases "''zoomed'' \<in> set (classList c)")
      case z: True
      with Some have "isZoomed s" by (simp add: isZoomed_elem)
      with v i have "timeline_ok s" by (simp add: timeline_ok_mobile_zoomed)
      with True Some z show ?thesis
        by (simp add: resize_listener_def snd_andThen if_contains_def skip_def mobile_mode_ok)
    next
      case False
      have z: "timeline_ok (snd (zoomToSection ''1'' s))" by (simp add: zoomToSection_ok)
      from False True Some show ?thesis
        by (simp add: resize_listener_def snd_andThen if_contains_def toString_small mobile_mode_ok z)
    qed
  next
    case False
    with v i have o: "timeline_ok s" by (simp add: timeline_ok_desktop)
    show ?thesis
    proof (cases "''mobile-mode'' \<in> set (classList c)")
      case True
      with False Some show ?thesis
        by (simp add: resize_listener_def snd_andThen if_contains_def mobile_mode_ok zoomOut_ok o)
    next
      case nm: False
      with False Some o show ?thesis
        by (simp add: resize_listener_def if_contains_def skip_def)
    qed
  qed
qed

lemma resize_ok: "timeline_ok s \<Longrightarrow> timeline_ok (snd (resize w s))"
proof -
  assume o: "timeline_ok s"
  have "valid_section (s\<lparr>innerWidth := w\<rparr>)" using o by (simp add: timeline_ok_def valid_section_def)
  moreover have "zoom_class_inv (s\<lparr>innerWidth := w\<rparr>) = zoom_class_inv s"
    by (rule inv_cong) simp_all
  then have "zoom_class_inv (s\<lparr>innerWidth := w\<rparr>)" using o by (simp add: timeline_ok_def)
  ultimately show ?thesis unfolding resize_def by (rule resize_listener_ok)
qed

lemma section_click_ok:
  "timeline_ok s \<Longrightarrow> d = ''1'' \<or> d = ''2'' \<or> d = ''3'' \<Longrightarrow> timeline_ok (snd (section_click d s))"
  by (simp add: section_click_def zoomToSection_ok)

lemma svg_click_ok: "timeline_ok s \<Longrightarrow> timeline_ok (snd (svg_click b s))"
  by (auto simp: svg_click_def if_contains_def skip_def zoomOut_ok split: option.splits)

lemma valid_section_cases:
  "valid_section s \<Longrightarrow> currentSection s = Num 1 \<or> currentSection s = Num 2 \<or> currentSection s = Num 3"
  by (simp add: valid_section_def)

lemma navPrev_ok: "timeline_ok s \<Longrightarrow> timeline_ok (snd (navPrev_click s))"
proof -
  assume o: "timeline_ok s"
  then have "valid_section s" by (simp add: timeline_ok_def)
  from valid_section_cases [OF this] o show ?thesis
    by (auto simp: navPrev_click_def toString_small zoomToSection_ok)
qed

lemma navNext_ok: "timeline_ok s \<Longrightarrow> timeline_ok (snd (navNext_click s))"
proof -
  assume o: "timeline_ok s"
  then have "valid_section s" by (simp add: timeline_ok_def)
  from valid_section_cases [OF this] o show ?thesis
    by (auto simp: navNext_click_def totalSections_def toString_small zoomToSection_ok)
qed

lemma arrows_ok: "timeline_ok s \<Longrightarrow> timeline_ok (snd (arrows key s))"
proof -
  assume o: "timeline_ok s"
  then have "valid_section s" by (simp add: timeline_ok_def)
  from valid_section_cases [OF this] o show ?thesis
    by (auto simp: arrows_def totalSections_def toString_small zoomToSection_ok)
qed

lemma timeline_keydown_ok: "timeline_ok s \<Longrightarrow> timeline_ok (snd (timeline_keydown key s))"
  by (auto simp: timeline_keydown_def if_contains_def skip_def arrows_ok split: option.splits)

lemma timeline_ok_cong:
  assumes "elems s' TimelineContainer = elems s TimelineContainer"
    "currentSection s' = currentSection s" "innerWidth s' = innerWidth s"
  shows "timeline_ok s' = timeline_ok s"
proof -
  have "valid_section s' = valid_section s" "isMobile s' = isMobile s"
    "present TimelineContainer s' = present TimelineContainer s"
    using assms by (simp_all add: valid_section_def isMobile_def present_def)
  moreover have "zoom_class_inv s' = zoom_class_inv s" using assms(1,2) by (rule inv_cong)
  moreover have "isZoomed s' = isZoomed s" using assms(1,2) by (rule timeline_views_cong)
  ultimately show ?thesis by (simp add: timeline_ok_def)
qed

lemma Modal_close_ok: "m \<noteq> TimelineContainer \<Longrightarrow> timeline_ok (snd (Modal_close m s)) = timeline_ok s"
  by (rule timeline_ok_cong) (simp_all add: Modal_close_views)

lemma closeSidebar_ok: "timeline_ok (snd (closeSidebar s)) = timeline_ok s"
  by (rule timeline_ok_cong) (simp_all add: closeSidebar_views)

lemma keyboardHandler_ok: "timeline_ok s \<Longrightarrow> timeline_ok (snd (keyboardHandler_keydown key s))"
  by (simp add: keyboardHandler_keydown_def Modal_close_ok closeSidebar_ok zoomOut_ok)

lemma document_keydown_ok: "timeline_ok s \<Longrightarrow> timeline_ok (snd (document_keydown key s))"
proof -
  assume o: "timeline_ok s"
  have "snd (document_keydown key s) = snd (keyboardHandler_keydown key (snd (timeline_keydown key s)))"
    by (simp add: document_keydown_def split: prod.splits)
  with keyboardHandler_ok [OF timeline_keydown_ok [OF o]] show ?thesis by simp
qed

lemma nav_step_ok: "timeline_ok s \<Longrightarrow> timeline_ok (nav_step e s)"
  by (cases e) (simp_all add: navPrev_ok navNext_ok document_keydown_ok)

lemma timeline_step_ok:
  "timeline_ok s \<Longrightarrow> section_areas_ok e \<Longrightarrow> timeline_ok (timeline_step e s)"
  by (cases e)
     (simp_all add: resize_ok section_click_ok zoomOutBtn_click_def zoomOut_ok svg_click_ok nav_step_ok
        document_keydown_ok)

lemma timeline_run_ok:
  "timeline_ok s \<Longrightarrow> list_all section_areas_ok evs \<Longrightarrow> timeline_ok (timeline_run evs s)"
  by (induction evs arbitrary: s) (simp_all add: timeline_step_ok)

lemma setupInteractions_ok:
  assumes "valid_section s" "\<not> isZoomed s" "zoom_markers s = []"
  shows "timeline_ok (snd (setupInteractions s))"
proof (cases "isMobile s")
  case True
  have z: "timeline_ok (snd (zoomToSection ''1'' s))" by (simp add: zoomToSection_ok)
  from True show ?thesis
    by (simp add: setupInteractions_snd snd_andThen toString_small mobile_mode_ok z)
next
  case False
  with assms show ?thesis
    by (simp add: setupInteractions_snd timeline_ok_desktop zoom_class_inv_def)
qed

lemma timeline_ok_mobile:
  assumes "timeline_ok s" "isMobile s" "present TimelineContainer s"
  shows "zoomedAt 1 s \<or> zoomedAt 2 s \<or> zoomedAt 3 s"
proof -
  from assms have z: "isZoomed s" and v: "valid_section s" and i: "zoom_class_inv s"
    by (simp_all add: timeline_ok_def)
  from valid_section_cases [OF v] z i show ?thesis
    by (auto simp: zoomedAt_def zoom_class_inv_def)
qed

subsection \<open>C9: at most one zoom-section class\<close>

text \<open>
  C9, as amended. After initialisation (of a page whose container is not yet zoomed and
  carries no zoom-section class) and after every timeline operation (\<open>zoomToSection\<close>
  with the section given as \<open>1\<close>, \<open>2\<close> or \<open>3\<close>, the number or exactly that string,
  \<open>zoomOut\<close>, the handling of a resize), the container carries at
  most one of the classes \<open>zoom-section-1\<close>, \<open>zoom-section-2\<close>, \<open>zoom-section-3\<close>; when
  it has the class \<open>zoomed\<close> that class is the one of \<open>currentSection\<close>, and when it has
  not, it carries none. The same holds after initialisation and any sequence of events
  of the timeline, on a page whose section areas are those of the sections 1 to 3.
\<close>

theorem timeline_zoom_class_invariant:
  "(\<not> isZoomed s \<and> zoom_markers s = [] \<longrightarrow> zoom_class_inv (snd (setupInteractions s)))
   \<and> (x \<in> {''1'', ''2'', ''3''} \<longrightarrow> zoom_class_inv (snd (zoomToSection x s)))
   \<and> (zoom_class_inv s \<longrightarrow> zoom_class_inv (snd (zoomOut s)))
   \<and> (zoom_class_inv s \<longrightarrow> zoom_class_inv (snd (resize w s)))
   \<and> (valid_section s \<and> \<not> isZoomed s \<and> zoom_markers s = [] \<and> list_all section_areas_ok evs \<longrightarrow>
        zoom_class_inv (timeline_run evs (snd (setupInteractions s))))"
proof -
  have "zoom_class_inv s" if "\<not> isZoomed s" "zoom_markers s = []"
    using that by (simp add: zoom_class_inv_def)
  moreover have "zoom_class_inv (timeline_run evs (snd (setupInteractions s)))"
    if "valid_section s \<and> \<not> isZoomed s \<and> zoom_markers s = [] \<and> list_all section_areas_ok evs"
    using timeline_run_ok [OF setupInteractions_ok, of s evs] that by (simp add: timeline_ok_def)
  ultimately show ?thesis
    using setupInteractions_inv zoomToSection_inv zoomOut_inv resize_inv by blast
qed

theorem timeline_zoom_class_invariant_witness:
  "\<not> isZoomed (loaded 500) \<and> zoom_markers (loaded 500) = []
   \<and> zoom_class_inv (snd (setupInteractions (loaded 500)))
   \<and> ''2'' \<in> {''1'', ''2'', ''3''} \<and> zoom_class_inv (snd (zoomToSection ''2'' (loaded 1024)))
   \<and> zoom_class_inv (zoomed2 1024) \<and> zoom_class_inv (snd (zoomOut (zoomed2 1024)))
   \<and> zoom_class_inv (snd (resize 500 (zoomed2 1024)))
   \<and> valid_section (loaded 1024)
   \<and> list_all section_areas_ok
        [EvSectionClick ''2'', EvNav NextClick, EvKeyDown ''Escape'', EvResize 500, EvZoomOutClick]
   \<and> zoom_class_inv
        (timeline_run
           [EvSectionClick ''2'', EvNav NextClick, EvKeyDown ''Escape'', EvResize 500, EvZoomOutClick]
           (snd (setupInteractions (loaded 1024))))"
proof -
  let ?evs = "[EvSectionClick ''2'', EvNav NextClick, EvKeyDown ''Escape'', EvResize 500, EvZoomOutClick]"
  have z: "zoom_class_inv (zoomed2 1024)"
    using timeline_zoom_class_invariant [where s = "loaded 1024" and x = "''2''" and w = 0 and evs = "[]"]
    by (simp add: zoomed2_def)
  have l: "list_all section_areas_ok ?evs" by simp
  from timeline_zoom_class_invariant [where s = "loaded 500" and x = "''2''" and w = 0 and evs = "[]"]
       timeline_zoom_class_invariant [where s = "loaded 1024" and x = "''2''" and w = 0 and evs = ?evs]
       timeline_zoom_class_invariant [where s = "zoomed2 1024" and x = "''2''" and w = 500 and evs = "[]"] z l
  show ?thesis by (simp add: loaded_fresh loaded_cs del: timeline_run.simps timeline_step.simps)
qed

lemma parse_03: "js_parseInt10 ''03'' = Num 3" "js_parseInt10 '' 3'' = Num 3"
  by (simp_all add: js_parseInt10_def is_js_space_def is_digit_def digits_value_def)

text \<open>
  C9 without the condition on the argument fails: \<open>zoomToSection\<close> of \<open>03\<close> sets section
  3 and the class \<open>zoom-section-03\<close>, and \<open>zoomToSection\<close> of a \<open>3\<close> behind a space
  removes the class of the old section and then raises on the new one; both leave a zoomed
  container with none of the three classes.
\<close>

theorem section_area_03_breaks_zoom_classes_counterexample:
  "zoom_class_inv (loaded 1024)
   \<and> currentSection (snd (zoomToSection ''03'' (loaded 1024))) = Num 3
   \<and> isZoomed (snd (zoomToSection ''03'' (loaded 1024)))
   \<and> zoom_markers (snd (zoomToSection ''03'' (loaded 1024))) = []
   \<and> \<not> zoom_class_inv (snd (zoomToSection ''03'' (loaded 1024)))
   \<and> zoom_class_inv (zoomed2 1024)
   \<and> fst (zoomToSection '' 3'' (zoomed2 1024)) = Threw InvalidCharacterError
   \<and> isZoomed (snd (zoomToSection '' 3'' (zoomed2 1024)))
   \<and> zoom_markers (snd (zoomToSection '' 3'' (zoomed2 1024))) = []
   \<and> \<not> zoom_class_inv (snd (zoomToSection '' 3'' (zoomed2 1024)))"
proof -
  have c: "elems (loaded 1024) TimelineContainer = Some plain" by (simp add: loaded_def)
  have ns: "\<not> (\<exists>ch \<in> set ''03''. is_ascii_space ch)" by (simp add: is_ascii_space_def)
  have a: "isZoomed (snd (zoomToSection ''03'' (loaded 1024)))"
       "zoom_markers (snd (zoomToSection ''03'' (loaded 1024))) = []"
    unfolding zoomToSection_present [OF c ns] updateNavButtons_views
    by (simp_all add: isZoomed_def has_class_def zoom_markers_def token_add_def plain_def)
  obtain e where e: "elems (zoomed2 1024) TimelineContainer = Some e"
    using zoomed2_present [of TimelineContainer 1024] by (auto simp: present_def)
  have z: "''zoomed'' \<in> set (classList e)"
    using zoomed2_markers(2) [of 1024] e by (simp add: isZoomed_elem)
  have s: "zoomToSection '' 3'' (zoomed2 1024) =
      (Threw InvalidCharacterError,
       (zoomed2 1024)\<lparr>currentSection := Num 3,
          elems := (elems (zoomed2 1024))(TimelineContainer \<mapsto> e\<lparr>classList :=
            filter (\<lambda>t. t \<notin> set [''zoom-section-1'', ''zoom-section-2'', ''zoom-section-3''])
              (classList e)\<rparr>)\<rparr>)"
    using e
    by (simp add: zoomToSection_def andThen_def classList_remove_def classList_add_def
        token_error_fixed token_error_zoom is_ascii_space_def parse_03 del: append.simps)
  have b: "isZoomed (snd (zoomToSection '' 3'' (zoomed2 1024)))"
       "zoom_markers (snd (zoomToSection '' 3'' (zoomed2 1024))) = []"
    using z by (auto simp: s isZoomed_def has_class_def zoom_markers_def filter_empty_conv)
  have i1: "zoom_class_inv (loaded 1024)" by (simp add: zoom_class_inv_def loaded_fresh)
  have i2: "zoom_class_inv (zoomed2 1024)" using zoomed2_zoomedAt [of 1024] by (rule zoomedAt_inv)
  note i = i1 i2
  show ?thesis
    using a b i by (simp add: zoomToSection_cs parse_03 s zoom_class_inv_def)
qed

end
